theory Spec2Isabelle
  imports Complex_Main
begin

section \<open>Input relations\<close>

text \<open>
  The optimizer of \<^verbatim>\<open>src/optimizer.py\<close> reads two data frames: \<^verbatim>\<open>obras\<close> (the Task
  relation) and \<^verbatim>\<open>estoque\<close> (the Stock relation). A data frame is the list of its rows, in
  file order; a row is a record of its columns. Task, site and material ids are naturals,
  priorities, demands and stock quantities are integers, the values of int64 columns (a
  stock may be negative: the code does not check it). Where pandas adds up an int64
  column the sum wraps around as int64 does, and where it turns such a column into
  float64 the values are rounded; both are written out below. Every cell is present: empty
  cells (pandas' NaN) are not part of this model, except for the task cell in the section
  on empty task cells. Reading the files (\<^verbatim>\<open>read_inputs\<close>) is outside the model: a run
  starts from the two data frames.

  The columns \<^verbatim>\<open>cod_dep\<close> and \<^verbatim>\<open>cod_mat\<close> exist in both frames; those of the Stock frame
  carry the prefix \<open>e_\<close> here.
\<close>

record obra_row =
  obra :: nat
  cod_dep :: nat
  prioridade :: int
  cod_mat :: nat
  qtd_dem :: int

record estoque_row =
  e_cod_dep :: nat
  e_cod_mat :: nat
  estoque :: int

datatype py_error = KeyError | MergeError | AttributeError | ValueError

section \<open>The pandas operations the optimizer uses\<close>

text \<open>
  \<^verbatim>\<open>drop_duplicates(subset=...)\<close> keeps the first row of every key, in row order;
  \<^verbatim>\<open>unique()\<close> is the same on a single column.
\<close>

fun drop_duplicates_seen :: "('r \<Rightarrow> 'k) \<Rightarrow> 'k list \<Rightarrow> 'r list \<Rightarrow> 'r list" where
  "drop_duplicates_seen key seen [] = []"
| "drop_duplicates_seen key seen (r # rs) =
     (if key r \<in> set seen then drop_duplicates_seen key seen rs
      else r # drop_duplicates_seen key (key r # seen) rs)"

definition drop_duplicates :: "('r \<Rightarrow> 'k) \<Rightarrow> 'r list \<Rightarrow> 'r list" where
  "drop_duplicates key rs = drop_duplicates_seen key [] rs"

definition unique :: "'a list \<Rightarrow> 'a list" where
  "unique xs = drop_duplicates (\<lambda>x. x) xs"

text \<open>
  The sum of an int64 column wraps around modulo \<open>2 ^ 64\<close> into the range from \<open>- 2 ^ 63\<close>
  to \<open>2 ^ 63 - 1\<close>.
\<close>

definition wrap_int64 :: "int \<Rightarrow> int" where
  "wrap_int64 n = (n + 9223372036854775808) mod 18446744073709551616 - 9223372036854775808"

text \<open>
  The float64 nearest to an integer, ties to the even mantissa (the integer is small
  enough not to overflow float64). A float64 has 53 bits of mantissa: an integer of
  magnitude up to \<open>2 ^ 53\<close> is kept as it is, a bigger one loses its lowest bits.
  \<open>float64_shift a\<close> is the number of bits lost.
\<close>

function float64_shift :: "nat \<Rightarrow> nat" where
  "float64_shift a = (if a < 9007199254740992 then 0 else Suc (float64_shift (a div 2)))"
  by pat_completeness auto
termination
  by (relation "measure (\<lambda>a. a)") auto

declare float64_shift.simps [simp del]

definition to_float64 :: "int \<Rightarrow> int" where
  "to_float64 n =
     (let a = nat \<bar>n\<bar>;
          e = float64_shift a;
          q = a div 2 ^ e;
          r = a mod 2 ^ e;
          q' = (if 2 * r > 2 ^ e \<or> (2 * r = 2 ^ e \<and> odd q) then q + 1 else q)
      in sgn n * int (q' * 2 ^ e))"

text \<open>
  \<^verbatim>\<open>groupby(...).sum()\<close> of a float64 column adds the values of a group in row order with a
  running compensation (Kahan summation); every operation rounds to float64. The values
  here are whole numbers held in float64.
\<close>

fun kahan_sum :: "int \<Rightarrow> int \<Rightarrow> int list \<Rightarrow> int" where
  "kahan_sum sumx compensation [] = sumx"
| "kahan_sum sumx compensation (val # vals) =
     (let y = to_float64 (val - compensation);
          t = to_float64 (sumx + y)
      in kahan_sum t (to_float64 (to_float64 (t - sumx) - y)) vals)"

text \<open>
  \<^verbatim>\<open>groupby(key).agg(...).to_dict()[col]\<close>: a dictionary with one entry per key that occurs,
  holding the aggregate of the rows of that key (in row order).
\<close>

definition groupby_agg :: "('r \<Rightarrow> 'k) \<Rightarrow> ('r list \<Rightarrow> 'v) \<Rightarrow> 'r list \<Rightarrow> ('k \<rightharpoonup> 'v)" where
  "groupby_agg key agg rs =
     (\<lambda>k. if k \<in> set (map key rs) then Some (agg (filter (\<lambda>r. key r = k) rs)) else None)"

text \<open>
  \<^verbatim>\<open>set_index(key).to_dict()[col]\<close>: the dictionary is filled row by row, so a later row
  with the same key overwrites an earlier one.
\<close>

definition to_dict :: "('r \<Rightarrow> 'k) \<Rightarrow> ('r \<Rightarrow> 'v) \<Rightarrow> 'r list \<Rightarrow> ('k \<rightharpoonup> 'v)" where
  "to_dict key col rs = foldl (\<lambda>d r. d(key r \<mapsto> col r)) Map.empty rs"

text \<open>Running a computation that may raise over a list, stopping at the first error.\<close>

fun traverse :: "('a \<Rightarrow> py_error + 'b) \<Rightarrow> 'a list \<Rightarrow> py_error + 'b list" where
  "traverse f [] = Inr []"
| "traverse f (x # xs) =
     (case f x of
        Inl e \<Rightarrow> Inl e
      | Inr y \<Rightarrow> (case traverse f xs of Inl e \<Rightarrow> Inl e | Inr ys \<Rightarrow> Inr (y # ys)))"

text \<open>Indexing a dictionary with \<^verbatim>\<open>d[k]\<close> raises \<^verbatim>\<open>KeyError\<close> on a missing key.\<close>

definition getitem :: "('k \<rightharpoonup> 'v) \<Rightarrow> 'k \<Rightarrow> py_error + 'v" where
  "getitem d k = (case d k of None \<Rightarrow> Inl KeyError | Some v \<Rightarrow> Inr v)"

section \<open>Sets and parameters\<close>

record model_sets =
  sets_I :: "nat list"
  sets_J :: "nat list"
  sets_M :: "nat list"
  sets_J_i :: "nat \<rightharpoonup> nat list"
  sets_I_j :: "nat \<rightharpoonup> nat list"
  sets_M_i :: "nat \<rightharpoonup> nat list"

definition define_sets :: "estoque_row list \<Rightarrow> obra_row list \<Rightarrow> model_sets" where
  "define_sets estoque_df obras =
     \<lparr> sets_I = unique (map obra obras),
       sets_J = unique (map e_cod_dep estoque_df),
       sets_M = unique (map e_cod_mat estoque_df),
       sets_J_i = groupby_agg obra (\<lambda>g. unique (map cod_dep g))
                    (drop_duplicates (\<lambda>r. (obra r, cod_dep r)) obras),
       sets_I_j = groupby_agg cod_dep (\<lambda>g. unique (map obra g))
                    (drop_duplicates (\<lambda>r. (obra r, cod_dep r)) obras),
       sets_M_i = groupby_agg obra (\<lambda>g. unique (map cod_mat g))
                    (drop_duplicates (\<lambda>r. (obra r, cod_mat r)) obras) \<rparr>"

text \<open>
  The transport costs \<^verbatim>\<open>c\<close> are passed through unchanged and never read by the model
  builder; their type is left open.
\<close>

record 'c parameters =
  params_w :: "nat \<rightharpoonup> int"
  params_q :: "nat \<times> nat \<rightharpoonup> int"
  params_Q :: "nat \<times> nat \<rightharpoonup> int"
  params_c :: 'c
  params_N :: nat
  params_D :: nat

definition define_parameters :: "estoque_row list \<Rightarrow> obra_row list \<Rightarrow> 'c \<Rightarrow> 'c parameters" where
  "define_parameters estoque_df obras custos_transporte =
     \<lparr> params_w = to_dict obra prioridade (drop_duplicates (\<lambda>r. (obra r, prioridade r)) obras),
       params_q = groupby_agg (\<lambda>r. (obra r, cod_mat r))
                    (\<lambda>g. wrap_int64 (sum_list (map qtd_dem g))) obras,
       params_Q = to_dict (\<lambda>r. (e_cod_dep r, e_cod_mat r)) estoque estoque_df,
       params_c = custos_transporte,
       params_N = length (unique (map obra obras)),
       params_D = length (unique (map cod_dep obras)) \<rparr>"

section \<open>The solver's model\<close>

text \<open>
  The solver is an external collaborator. Its model is the list of variables, the list of
  constraints and the objective handed to it. A variable is named by its key; a linear
  expression is a list of (coefficient, variable) terms plus a constant.
\<close>

datatype var = X nat nat | T nat nat nat

datatype vtype = BINARY | CONTINUOUS

record linexpr =
  le_terms :: "(int \<times> var) list"
  le_const :: int

datatype sense = LE | GE | EQ

datatype constr_name = C1_OneExecution nat | C2_StockBalance nat nat

record constr =
  c_lhs :: linexpr
  c_sense :: sense
  c_rhs :: linexpr
  c_name :: constr_name

datatype objsense = MAXIMIZE | MINIMIZE

record gurobi_model =
  m_vars :: "(var \<times> vtype \<times> int) list"
  m_constrs :: "constr list"
  m_objective :: "(linexpr \<times> objsense) option"

definition Model :: gurobi_model where
  "Model = \<lparr> m_vars = [], m_constrs = [], m_objective = None \<rparr>"

definition addVars :: "var list \<Rightarrow> vtype \<Rightarrow> int \<Rightarrow> gurobi_model \<Rightarrow> gurobi_model" where
  "addVars vs ty lb mdl = mdl\<lparr> m_vars := m_vars mdl @ map (\<lambda>v. (v, ty, lb)) vs \<rparr>"

definition addConstr :: "constr \<Rightarrow> gurobi_model \<Rightarrow> gurobi_model" where
  "addConstr c mdl = mdl\<lparr> m_constrs := m_constrs mdl @ [c] \<rparr>"

definition setObjective :: "linexpr \<Rightarrow> objsense \<Rightarrow> gurobi_model \<Rightarrow> gurobi_model" where
  "setObjective e dir mdl = mdl\<lparr> m_objective := Some (e, dir) \<rparr>"

definition var_expr :: "var \<Rightarrow> linexpr" where
  "var_expr v = \<lparr> le_terms = [(1, v)], le_const = 0 \<rparr>"

definition var_mul :: "var \<Rightarrow> int \<Rightarrow> linexpr" where
  "var_mul v a = \<lparr> le_terms = [(a, v)], le_const = 0 \<rparr>"

definition const_expr :: "int \<Rightarrow> linexpr" where
  "const_expr a = \<lparr> le_terms = [], le_const = a \<rparr>"

definition add_expr :: "linexpr \<Rightarrow> linexpr \<Rightarrow> linexpr" where
  "add_expr a b = \<lparr> le_terms = le_terms a @ le_terms b, le_const = le_const a + le_const b \<rparr>"

definition quicksum :: "linexpr list \<Rightarrow> linexpr" where
  "quicksum es = foldl add_expr (const_expr 0) es"

text \<open>The value of a linear expression under an assignment of the variables.\<close>

definition eval :: "(var \<Rightarrow> real) \<Rightarrow> linexpr \<Rightarrow> real" where
  "eval val e = of_int (le_const e) + (\<Sum>(a, v) \<leftarrow> le_terms e. of_int a * val v)"

text \<open>
  What the model means to the solver: an assignment of the variables is feasible when every
  variable respects its lower bound and its type (a binary variable is 0 or 1) and every
  constraint holds.
\<close>

definition holds :: "(var \<Rightarrow> real) \<Rightarrow> constr \<Rightarrow> bool" where
  "holds val c =
     (case c_sense c of
        LE \<Rightarrow> eval val (c_lhs c) \<le> eval val (c_rhs c)
      | GE \<Rightarrow> eval val (c_lhs c) \<ge> eval val (c_rhs c)
      | EQ \<Rightarrow> eval val (c_lhs c) = eval val (c_rhs c))"

definition in_domain :: "(var \<Rightarrow> real) \<Rightarrow> var \<times> vtype \<times> int \<Rightarrow> bool" where
  "in_domain val d =
     (case d of (v, ty, lb) \<Rightarrow>
        of_int lb \<le> val v \<and> (ty = BINARY \<longrightarrow> val v = 0 \<or> val v = 1))"

definition feasible :: "gurobi_model \<Rightarrow> (var \<Rightarrow> real) \<Rightarrow> bool" where
  "feasible mdl val = (list_all (in_domain val) (m_vars mdl) \<and> list_all (holds val) (m_constrs mdl))"

section \<open>Building the model\<close>

text \<open>
  \<^verbatim>\<open>addVars\<close> returns a dictionary from keys to variables (in insertion order); indexing it
  with a key that was never added raises \<^verbatim>\<open>KeyError\<close>.
\<close>

record decision_variables =
  vars_x :: "((nat \<times> nat) \<times> var) list"
  vars_t :: "((nat \<times> nat \<times> nat) \<times> var) list"

definition create_decision_variables ::
  "model_sets \<Rightarrow> gurobi_model \<Rightarrow> (py_error + decision_variables) \<times> gurobi_model" where
  "create_decision_variables s mdl =
     (case traverse (\<lambda>i. case getitem (sets_J_i s) i of
                             Inl e \<Rightarrow> Inl e
                           | Inr js \<Rightarrow> Inr (map (\<lambda>j. (i, j)) js)) (sets_I s) of
        Inl e \<Rightarrow> (Inl e, mdl)
      | Inr kss \<Rightarrow>
          (let x_keys = concat kss;
               mdl1 = addVars (map (\<lambda>(i, j). X i j) x_keys) BINARY 0 mdl;
               t_keys = [(k, j, m). k \<leftarrow> sets_J s, j \<leftarrow> sets_J s, m \<leftarrow> sets_M s, j \<noteq> k];
               mdl2 = addVars (map (\<lambda>(k, j, m). T k j m) t_keys) CONTINUOUS 0 mdl1
           in (Inr \<lparr> vars_x = map (\<lambda>(i, j). ((i, j), X i j)) x_keys,
                     vars_t = map (\<lambda>(k, j, m). ((k, j, m), T k j m)) t_keys \<rparr>, mdl2)))"

text \<open>
  A loop that adds one constraint per element; an exception raised while a constraint is
  built leaves the constraints added so far in the model.
\<close>

fun add_constrs ::
  "('a \<Rightarrow> py_error + constr) \<Rightarrow> 'a list \<Rightarrow> gurobi_model \<Rightarrow> py_error option \<times> gurobi_model" where
  "add_constrs f [] mdl = (None, mdl)"
| "add_constrs f (a # as) mdl =
     (case f a of
        Inl e \<Rightarrow> (Some e, mdl)
      | Inr c \<Rightarrow> add_constrs f as (addConstr c mdl))"

text \<open>Constraint 1 (\<^verbatim>\<open>C1_OneExecution\<close>) for the task \<open>i\<close>.\<close>

definition one_execution :: "model_sets \<Rightarrow> decision_variables \<Rightarrow> nat \<Rightarrow> py_error + constr" where
  "one_execution s v i =
     (case getitem (sets_J_i s) i of
        Inl e \<Rightarrow> Inl e
      | Inr js \<Rightarrow>
          (case traverse (\<lambda>j. getitem (map_of (vars_x v)) (i, j)) js of
             Inl e \<Rightarrow> Inl e
           | Inr xs \<Rightarrow>
               Inr \<lparr> c_lhs = quicksum (map var_expr xs), c_sense = LE,
                     c_rhs = const_expr 1, c_name = C1_OneExecution i \<rparr>))"

text \<open>Constraint 2 (\<^verbatim>\<open>C2_StockBalance\<close>) for the material \<open>m\<close> and the site \<open>j\<close>.\<close>

definition stock_balance ::
  "model_sets \<Rightarrow> 'c parameters \<Rightarrow> decision_variables \<Rightarrow> nat \<times> nat \<Rightarrow> py_error + constr" where
  "stock_balance s p v mj =
     (case mj of (m, j) \<Rightarrow>
       (case getitem (sets_I_j s) j of
          Inl e \<Rightarrow> Inl e
        | Inr tasks \<Rightarrow>
            (case traverse
                    (\<lambda>i. case getitem (sets_M_i s) i of
                            Inl e \<Rightarrow> Inl e
                          | Inr ms \<Rightarrow>
                              if m \<in> set ms
                              then (case getitem (map_of (vars_x v)) (i, j) of
                                      Inl e \<Rightarrow> Inl e
                                    | Inr x \<Rightarrow>
                                        (case getitem (params_q p) (i, m) of
                                           Inl e \<Rightarrow> Inl e
                                         | Inr a \<Rightarrow> Inr [var_mul x a]))
                              else Inr []) tasks of
               Inl e \<Rightarrow> Inl e
             | Inr consumption \<Rightarrow>
                 (case traverse (\<lambda>k. getitem (map_of (vars_t v)) (j, k, m))
                         (filter (\<lambda>k. k \<noteq> j) (sets_J s)) of
                    Inl e \<Rightarrow> Inl e
                  | Inr outflow \<Rightarrow>
                      (let LHS = add_expr (quicksum (concat consumption))
                                   (quicksum (map var_expr outflow));
                           initial_stock = (case params_Q p (j, m) of None \<Rightarrow> 0 | Some a \<Rightarrow> a)
                       in (case traverse (\<lambda>k. getitem (map_of (vars_t v)) (k, j, m))
                                   (filter (\<lambda>k. k \<noteq> j) (sets_J s)) of
                             Inl e \<Rightarrow> Inl e
                           | Inr inflow \<Rightarrow>
                               Inr \<lparr> c_lhs = LHS, c_sense = LE,
                                     c_rhs = add_expr (const_expr initial_stock)
                                               (quicksum (map var_expr inflow)),
                                     c_name = C2_StockBalance m j \<rparr>))))))"

definition create_constraints ::
  "model_sets \<Rightarrow> 'c parameters \<Rightarrow> decision_variables \<Rightarrow> gurobi_model
     \<Rightarrow> py_error option \<times> gurobi_model" where
  "create_constraints s p v mdl =
     (case add_constrs (one_execution s v) (sets_I s) mdl of
        (Some e, mdl1) \<Rightarrow> (Some e, mdl1)
      | (None, mdl1) \<Rightarrow>
          add_constrs (stock_balance s p v) [(m, j). m \<leftarrow> sets_M s, j \<leftarrow> sets_J s] mdl1)"

definition set_obj_priority ::
  "model_sets \<Rightarrow> 'c parameters \<Rightarrow> decision_variables \<Rightarrow> gurobi_model
     \<Rightarrow> py_error option \<times> gurobi_model" where
  "set_obj_priority s p v mdl =
     (case traverse
             (\<lambda>i. case getitem (sets_J_i s) i of
                     Inl e \<Rightarrow> Inl e
                   | Inr js \<Rightarrow>
                       traverse (\<lambda>j. case getitem (map_of (vars_x v)) (i, j) of
                                        Inl e \<Rightarrow> Inl e
                                      | Inr x \<Rightarrow>
                                          (case getitem (params_w p) i of
                                             Inl e \<Rightarrow> Inl e
                                           | Inr a \<Rightarrow> Inr (var_mul x a))) js) (sets_I s) of
        Inl e \<Rightarrow> (Some e, mdl)
      | Inr tss \<Rightarrow> (None, setObjective (quicksum (concat tss)) MAXIMIZE mdl))"

section \<open>Solving and extracting the result\<close>

text \<open>
  What the solver leaves behind: a status and, when it found a solution, the value of each
  variable. Reading the attribute \<^verbatim>\<open>X\<close> of a variable raises when there is no solution.
  The solver's floating-point values are taken as reals.
\<close>

datatype status = OPTIMAL | INFEASIBLE | INF_OR_UNBD | UNBOUNDED

record solve_result =
  sr_status :: status
  sr_solution :: "(var \<Rightarrow> real) option"

definition attr_X :: "solve_result \<Rightarrow> var \<Rightarrow> py_error + real" where
  "attr_X res v = (case sr_solution res of None \<Rightarrow> Inl AttributeError | Some sol \<Rightarrow> Inr (sol v))"

text \<open>\<^verbatim>\<open>np.isclose(a, b)\<close> with its default tolerances \<^verbatim>\<open>rtol=1e-05\<close>, \<^verbatim>\<open>atol=1e-08\<close>.\<close>

definition isclose :: "real \<Rightarrow> real \<Rightarrow> bool" where
  "isclose a b = (\<bar>a - b\<bar> \<le> 1 / 10 ^ 8 + 1 / 10 ^ 5 * \<bar>b\<bar>)"

record output_X_row =
  ox_obra :: nat
  ox_cod_dep :: nat
  ox_obra_atendida :: int

record real_output_row =
  ro_obra :: nat
  ro_cod_dep :: nat
  ro_prioridade :: int
  ro_obra_atendida :: int
  ro_prioridade_atendida :: int

record grouped_row =
  g_cod_dep :: nat
  NUM_OBRAS_ASSOCIADAS :: nat
  OBRAS_EXECUTADAS :: int
  SOMA_PRIORIDADES_EXECUTADAS :: int
  SOMA_PRIORIDADES_ASSOCIADAS :: int

datatype csv = Output_var_X "output_X_row list" | Output_agrupado "grouped_row list"

type_synonym files = "(string \<times> csv) list"

definition to_csv :: "string \<Rightarrow> csv \<Rightarrow> files \<Rightarrow> files" where
  "to_csv path content fs = fs @ [(path, content)]"

definition vars_x_on :: "decision_variables \<Rightarrow> solve_result \<Rightarrow> py_error + (nat \<times> nat) list" where
  "vars_x_on v res =
     (case traverse (\<lambda>(key, elem). case attr_X res elem of
                                       Inl e \<Rightarrow> Inl e
                                     | Inr a \<Rightarrow> Inr (if isclose a 1 then [key] else []))
             (vars_x v) of
        Inl e \<Rightarrow> Inl e
      | Inr ks \<Rightarrow> Inr (concat ks))"

definition df_output_X :: "(nat \<times> nat) list \<Rightarrow> output_X_row list" where
  "df_output_X keys =
     map (\<lambda>(i, j). \<lparr> ox_obra = i, ox_cod_dep = j, ox_obra_atendida = 1 \<rparr>) keys"

text \<open>
  \<^verbatim>\<open>left.merge(right, on=['cod_dep', 'obra'], how='left', validate='1:1')\<close>. The merge first
  compares the types of the key columns, unless exactly one side has no rows. The key
  columns of a frame with rows are int64; those of a frame without rows are not (object on
  the left, float64 on the right), so when both sides are empty the merge raises
  \<^verbatim>\<open>ValueError\<close>. Then the merge keys must be unique on both sides, else \<^verbatim>\<open>MergeError\<close>. Every
  left row is kept, with the right row's \<^verbatim>\<open>obra_atendida\<close> when there is one and no value
  (\<open>None\<close>) otherwise.
\<close>

definition merge ::
  "(nat \<times> nat \<times> int) list \<Rightarrow> output_X_row list
     \<Rightarrow> py_error + (nat \<times> nat \<times> int \<times> int option) list" where
  "merge left right =
     (if left = [] \<and> right = [] then Inl ValueError
      else if \<not> distinct (map (\<lambda>(i, j, pr). (j, i)) left)
         \<or> \<not> distinct (map (\<lambda>r. (ox_cod_dep r, ox_obra r)) right)
      then Inl MergeError
      else Inr (map (\<lambda>(i, j, pr).
                  (i, j, pr,
                   map_of (map (\<lambda>r. ((ox_cod_dep r, ox_obra r), ox_obra_atendida r)) right) (j, i)))
                left))"

definition fillna :: "int \<Rightarrow> int option \<Rightarrow> int" where
  "fillna d a = (case a of None \<Rightarrow> d | Some b \<Rightarrow> b)"

text \<open>
  The merged column \<^verbatim>\<open>obra_atendida\<close> stays int64 when every left row found its right row.
  As soon as one row found none, the column holds a NaN and is float64: after \<^verbatim>\<open>fillna(0)\<close>
  it holds 0.0 and 1.0, and the product with the int64 column \<^verbatim>\<open>prioridade\<close> is a float64
  product, for which \<^verbatim>\<open>prioridade\<close> is first rounded to float64.
\<close>

definition df_real_output ::
  "obra_row list \<Rightarrow> output_X_row list \<Rightarrow> py_error + real_output_row list" where
  "df_real_output obras out_X =
     (case merge (drop_duplicates (\<lambda>r. r) (map (\<lambda>r. (obra r, cod_dep r, prioridade r)) obras))
             out_X of
        Inl e \<Rightarrow> Inl e
      | Inr merged \<Rightarrow>
          (let is_float = (\<exists>(i, j, pr, a) \<in> set merged. a = None) in
           Inr (map (\<lambda>(i, j, pr, a).
                  \<lparr> ro_obra = i, ro_cod_dep = j, ro_prioridade = pr,
                    ro_obra_atendida = fillna 0 a,
                    ro_prioridade_atendida =
                      fillna 0 a * (if is_float then to_float64 pr else pr) \<rparr>) merged)))"

text \<open>
  The sums of the summary: int64 columns wrap around, float64 columns are added with
  compensation. \<^verbatim>\<open>obra_atendida\<close> and \<^verbatim>\<open>prioridade_atendida\<close> are float64 exactly when some
  row of the reconciled table was not served (\<^verbatim>\<open>obra_atendida\<close> is 0 there).
\<close>

definition column_sum :: "bool \<Rightarrow> int list \<Rightarrow> int" where
  "column_sum is_float vals =
     (if is_float then kahan_sum 0 0 vals else wrap_int64 (sum_list vals))"

definition df_grouped :: "real_output_row list \<Rightarrow> grouped_row list" where
  "df_grouped rows =
     (let is_float = (\<exists>r \<in> set rows. ro_obra_atendida r = 0) in
      map (\<lambda>j. let g = filter (\<lambda>r. ro_cod_dep r = j) rows in
             \<lparr> g_cod_dep = j,
               NUM_OBRAS_ASSOCIADAS = length (unique (map ro_obra g)),
               OBRAS_EXECUTADAS = column_sum is_float (map ro_obra_atendida g),
               SOMA_PRIORIDADES_EXECUTADAS = column_sum is_float (map ro_prioridade_atendida g),
               SOMA_PRIORIDADES_ASSOCIADAS = column_sum False (map ro_prioridade g) \<rparr>)
          (sort (unique (map ro_cod_dep rows))))"

definition generate_results ::
  "decision_variables \<Rightarrow> solve_result \<Rightarrow> obra_row list \<Rightarrow> files \<Rightarrow> py_error option \<times> files" where
  "generate_results v res obras fs =
     (case vars_x_on v res of
        Inl e \<Rightarrow> (Some e, fs)
      | Inr keys \<Rightarrow>
          (let out_X = df_output_X keys;
               fs1 = to_csv ''output_var_X.csv'' (Output_var_X out_X) fs
           in (case df_real_output obras out_X of
                 Inl e \<Rightarrow> (Some e, fs1)
               | Inr rows \<Rightarrow>
                   (None, to_csv ''output_agrupado.csv'' (Output_agrupado (df_grouped rows)) fs1))))"

text \<open>
  The whole run. The solver is a parameter: any function from the model to what it leaves
  behind. The result is the exception that ended the run (if any), the model as built, and
  the files written.
\<close>

definition run ::
  "(gurobi_model \<Rightarrow> solve_result) \<Rightarrow> estoque_row list \<Rightarrow> obra_row list \<Rightarrow> 'c
     \<Rightarrow> py_error option \<times> gurobi_model \<times> files" where
  "run optimize estoque_df obras custos_transporte =
     (let s = define_sets estoque_df obras;
          p = define_parameters estoque_df obras custos_transporte
      in (case create_decision_variables s Model of
            (Inl e, mdl1) \<Rightarrow> (Some e, mdl1, [])
          | (Inr v, mdl1) \<Rightarrow>
              (case create_constraints s p v mdl1 of
                 (Some e, mdl2) \<Rightarrow> (Some e, mdl2, [])
               | (None, mdl2) \<Rightarrow>
                   (case set_obj_priority s p v mdl2 of
                      (Some e, mdl3) \<Rightarrow> (Some e, mdl3, [])
                    | (None, mdl3) \<Rightarrow>
                        (case generate_results v (optimize mdl3) obras [] of
                           (err, fs) \<Rightarrow> (err, mdl3, fs))))))"

section \<open>Empty task cells\<close>

text \<open>
  A Task frame whose \<^verbatim>\<open>obra\<close> cell may be empty (pandas' NaN): the cell is an option,
  \<open>None\<close> for NaN. The other cells are present. \<^verbatim>\<open>unique\<close> and \<^verbatim>\<open>drop_duplicates\<close> keep NaN
  as a value of its own, equal to itself. \<^verbatim>\<open>groupby\<close> leaves out the rows whose key is NaN
  (\<^verbatim>\<open>dropna=True\<close> is its default), so NaN is never a key of the dictionary it yields.
\<close>

record obra_row_na =
  na_obra :: "nat option"
  na_cod_dep :: nat
  na_prioridade :: int
  na_cod_mat :: nat
  na_qtd_dem :: int

definition groupby_agg_dropna ::
  "('r \<Rightarrow> 'k option) \<Rightarrow> ('r list \<Rightarrow> 'v) \<Rightarrow> 'r list \<Rightarrow> ('k option \<rightharpoonup> 'v)" where
  "groupby_agg_dropna key agg rs =
     (\<lambda>k. if k \<noteq> None \<and> k \<in> set (map key rs)
          then Some (agg (filter (\<lambda>r. key r = k) rs)) else None)"

text \<open>The sets \<open>I\<close> and \<open>J_i\<close> of \<^verbatim>\<open>define_sets\<close> on such a frame.\<close>

definition sets_I_na :: "obra_row_na list \<Rightarrow> nat option list" where
  "sets_I_na obras = unique (map na_obra obras)"

definition sets_J_i_na :: "obra_row_na list \<Rightarrow> (nat option \<rightharpoonup> nat list)" where
  "sets_J_i_na obras =
     groupby_agg_dropna na_obra (\<lambda>g. unique (map na_cod_dep g))
       (drop_duplicates (\<lambda>r. (na_obra r, na_cod_dep r)) obras)"

text \<open>
  The keys of the variable \<open>x\<close>, the first thing \<^verbatim>\<open>create_decision_variables\<close> computes:
  \<^verbatim>\<open>[(i, j) for i in I for j in J_i[i]]\<close>.
\<close>

definition x_keys_na :: "obra_row_na list \<Rightarrow> py_error + (nat option \<times> nat) list" where
  "x_keys_na obras =
     (case traverse (\<lambda>i. case getitem (sets_J_i_na obras) i of
                             Inl e \<Rightarrow> Inl e
                           | Inr js \<Rightarrow> Inr (map (\<lambda>j. (i, j)) js)) (sets_I_na obras) of
        Inl e \<Rightarrow> Inl e
      | Inr kss \<Rightarrow> Inr (concat kss))"

text \<open>A row with every cell present, read as a row of such a frame.\<close>

definition present :: "obra_row \<Rightarrow> obra_row_na" where
  "present r = \<lparr> na_obra = Some (obra r), na_cod_dep = cod_dep r,
                 na_prioridade = prioridade r, na_cod_mat = cod_mat r, na_qtd_dem = qtd_dem r \<rparr>"

section \<open>Facts about the pandas operations and linear expressions\<close>

lemma drop_duplicates_seen_keys:
  "key ` set (drop_duplicates_seen key seen rs) = key ` set rs - set seen"
  by (induction rs arbitrary: seen) auto

lemma drop_duplicates_seen_distinct:
  "distinct (map key (drop_duplicates_seen key seen rs))"
proof (induction rs arbitrary: seen)
  case Nil
  show ?case by simp
next
  case (Cons r rs)
  have "key r \<notin> key ` set (drop_duplicates_seen key (key r # seen) rs)"
    unfolding drop_duplicates_seen_keys by simp
  with Cons show ?case by simp
qed

lemma drop_duplicates_keys: "key ` set (drop_duplicates key rs) = key ` set rs"
  by (simp add: drop_duplicates_def drop_duplicates_seen_keys)

lemma drop_duplicates_distinct: "distinct (map key (drop_duplicates key rs))"
  by (simp add: drop_duplicates_def drop_duplicates_seen_distinct)

lemma set_unique: "set (unique xs) = set xs"
  using drop_duplicates_keys [of "\<lambda>x. x" xs] by (simp add: unique_def)

lemma distinct_unique: "distinct (unique xs)"
  using drop_duplicates_distinct [of "\<lambda>x. x" xs] by (simp add: unique_def)

lemma to_dict_snoc: "to_dict key col (rs @ [r]) = (to_dict key col rs)(key r \<mapsto> col r)"
  by (simp add: to_dict_def)

lemma to_dict_lookup:
  "to_dict key col rs k =
     (if k \<in> key ` set rs then Some (col (last (filter (\<lambda>r. key r = k) rs))) else None)"
proof (induction rs rule: rev_induct)
  case Nil
  show ?case by (simp add: to_dict_def)
next
  case (snoc r rs)
  show ?case
    unfolding to_dict_snoc using snoc
    by (auto simp: image_iff filter_empty_conv)
qed

lemma traverse_Inr_iff: "traverse f xs = Inr ys \<longleftrightarrow> map f xs = map Inr ys"
proof (induction xs arbitrary: ys)
  case Nil
  show ?case by auto
next
  case (Cons x xs)
  show ?case
    by (cases ys) (auto simp: Cons [symmetric] split: sum.splits)
qed

lemma traverse_map_Inr: "(\<And>x. x \<in> set xs \<Longrightarrow> f x = Inr (g x)) \<Longrightarrow> traverse f xs = Inr (map g xs)"
  by (simp add: traverse_Inr_iff)

lemma eval_const_expr: "eval val (const_expr a) = of_int a"
  by (simp add: eval_def const_expr_def)

lemma eval_var_expr: "eval val (var_expr v) = val v"
  by (simp add: eval_def var_expr_def)

lemma eval_var_mul: "eval val (var_mul v a) = val v * of_int a"
  by (simp add: eval_def var_mul_def)

lemma eval_add_expr: "eval val (add_expr a b) = eval val a + eval val b"
  by (simp add: eval_def add_expr_def)

lemma eval_foldl_add_expr:
  "eval val (foldl add_expr a es) = eval val a + (\<Sum>e\<leftarrow>es. eval val e)"
  by (induction es arbitrary: a) (simp_all add: eval_add_expr)

lemma eval_quicksum: "eval val (quicksum es) = (\<Sum>e\<leftarrow>es. eval val e)"
  by (simp add: quicksum_def eval_foldl_add_expr eval_const_expr)

lemma groupby_agg_Some:
  "groupby_agg key agg rs k = Some v \<longleftrightarrow>
     k \<in> key ` set rs \<and> v = agg (filter (\<lambda>r. key r = k) rs)"
  by (auto simp: groupby_agg_def)

lemma groupby_agg_None: "groupby_agg key agg rs k = None \<longleftrightarrow> k \<notin> key ` set rs"
  by (auto simp: groupby_agg_def)

lemma map_of_keyed:
  "map_of (map (\<lambda>k. (k, f k)) ks) k = (if k \<in> set ks then Some (f k) else None)"
  by (induction ks) auto

section \<open>The derived sets and parameters\<close>

lemma drop_duplicates_image:
  "(\<lambda>r. h (key r)) ` set (drop_duplicates key rs) = (\<lambda>r. h (key r)) ` set rs"
proof -
  have "h ` (key ` set (drop_duplicates key rs)) = h ` (key ` set rs)"
    by (simp only: drop_duplicates_keys)
  then show ?thesis by (simp only: image_image)
qed

lemma group_values_fst:
  "g ` {r \<in> set (drop_duplicates (\<lambda>r. (f r, g r)) rs). f r = a}
     = {b. (a, b) \<in> (\<lambda>r. (f r, g r)) ` set rs}"
proof -
  have "g ` {r \<in> set (drop_duplicates (\<lambda>r. (f r, g r)) rs). f r = a}
          = {b. (a, b) \<in> (\<lambda>r. (f r, g r)) ` set (drop_duplicates (\<lambda>r. (f r, g r)) rs)}"
    by force
  then show ?thesis by (simp only: drop_duplicates_keys)
qed

lemma group_values_snd:
  "f ` {r \<in> set (drop_duplicates (\<lambda>r. (f r, g r)) rs). g r = b}
     = {a. (a, b) \<in> (\<lambda>r. (f r, g r)) ` set rs}"
proof -
  have "f ` {r \<in> set (drop_duplicates (\<lambda>r. (f r, g r)) rs). g r = b}
          = {a. (a, b) \<in> (\<lambda>r. (f r, g r)) ` set (drop_duplicates (\<lambda>r. (f r, g r)) rs)}"
    by force
  then show ?thesis by (simp only: drop_duplicates_keys)
qed

lemma sets_I_define: "set (sets_I (define_sets est obras)) = obra ` set obras"
  and distinct_sets_I: "distinct (sets_I (define_sets est obras))"
  by (simp_all add: define_sets_def set_unique distinct_unique)

lemma sets_J_define: "set (sets_J (define_sets est obras)) = e_cod_dep ` set est"
  and distinct_sets_J: "distinct (sets_J (define_sets est obras))"
  and sets_M_define: "set (sets_M (define_sets est obras)) = e_cod_mat ` set est"
  and distinct_sets_M: "distinct (sets_M (define_sets est obras))"
  by (simp_all add: define_sets_def set_unique distinct_unique)

lemma sets_J_i_None:
  "sets_J_i (define_sets est obras) i = None \<longleftrightarrow> i \<notin> obra ` set obras"
  using drop_duplicates_image [of fst "\<lambda>r. (obra r, cod_dep r)" obras]
  by (simp add: define_sets_def groupby_agg_None)

lemma sets_J_i_Some:
  assumes "sets_J_i (define_sets est obras) i = Some js"
  shows "i \<in> obra ` set obras" and "distinct js" and "js \<noteq> []"
    and "set js = {j. (i, j) \<in> (\<lambda>r. (obra r, cod_dep r)) ` set obras}"
proof -
  show i: "i \<in> obra ` set obras"
    using assms sets_J_i_None [of est obras i] by auto
  have js: "js = unique (map cod_dep (filter (\<lambda>r. obra r = i)
                 (drop_duplicates (\<lambda>r. (obra r, cod_dep r)) obras)))"
    using assms by (simp add: define_sets_def groupby_agg_Some)
  show "distinct js" by (simp add: js distinct_unique)
  show s: "set js = {j. (i, j) \<in> (\<lambda>r. (obra r, cod_dep r)) ` set obras}"
    using group_values_fst [of cod_dep obra obras i] by (simp add: js set_unique)
  from i have "set js \<noteq> {}" unfolding s by auto
  then show "js \<noteq> []" by auto
qed

lemma sets_I_j_None:
  "sets_I_j (define_sets est obras) j = None \<longleftrightarrow> j \<notin> cod_dep ` set obras"
  using drop_duplicates_image [of snd "\<lambda>r. (obra r, cod_dep r)" obras]
  by (simp add: define_sets_def groupby_agg_None)

lemma sets_I_j_Some:
  assumes "sets_I_j (define_sets est obras) j = Some tasks"
  shows "distinct tasks"
    and "set tasks = {i. (i, j) \<in> (\<lambda>r. (obra r, cod_dep r)) ` set obras}"
proof -
  have tasks: "tasks = unique (map obra (filter (\<lambda>r. cod_dep r = j)
                 (drop_duplicates (\<lambda>r. (obra r, cod_dep r)) obras)))"
    using assms by (simp add: define_sets_def groupby_agg_Some)
  show "distinct tasks" by (simp add: tasks distinct_unique)
  show "set tasks = {i. (i, j) \<in> (\<lambda>r. (obra r, cod_dep r)) ` set obras}"
    using group_values_snd [of obra cod_dep obras j] by (simp add: tasks set_unique)
qed

lemma sets_M_i_None:
  "sets_M_i (define_sets est obras) i = None \<longleftrightarrow> i \<notin> obra ` set obras"
  using drop_duplicates_image [of fst "\<lambda>r. (obra r, cod_mat r)" obras]
  by (simp add: define_sets_def groupby_agg_None)

lemma sets_M_i_Some:
  assumes "sets_M_i (define_sets est obras) i = Some ms"
  shows "set ms = {m. (i, m) \<in> (\<lambda>r. (obra r, cod_mat r)) ` set obras}"
proof -
  have ms: "ms = unique (map cod_mat (filter (\<lambda>r. obra r = i)
                 (drop_duplicates (\<lambda>r. (obra r, cod_mat r)) obras)))"
    using assms by (simp add: define_sets_def groupby_agg_Some)
  show ?thesis
    using group_values_fst [of cod_mat obra obras i] by (simp add: ms set_unique)
qed

lemma params_q_define:
  "params_q (define_parameters est obras ct) (i, m) =
     (if (i, m) \<in> (\<lambda>r. (obra r, cod_mat r)) ` set obras
      then Some (wrap_int64 (\<Sum>r\<leftarrow>filter (\<lambda>r. obra r = i \<and> cod_mat r = m) obras. qtd_dem r))
      else None)"
  by (simp add: define_parameters_def groupby_agg_def)

lemma params_Q_None:
  "params_Q (define_parameters est obras ct) (j, m) = None \<longleftrightarrow>
     (j, m) \<notin> (\<lambda>r. (e_cod_dep r, e_cod_mat r)) ` set est"
  by (simp add: define_parameters_def to_dict_lookup)

lemma params_w_define:
  "params_w (define_parameters est obras ct) i =
     (if i \<in> obra ` set obras
      then Some (prioridade (last (filter (\<lambda>r. obra r = i)
                   (drop_duplicates (\<lambda>r. (obra r, prioridade r)) obras))))
      else None)"
  using drop_duplicates_image [of fst "\<lambda>r. (obra r, prioridade r)" obras]
  by (simp add: define_parameters_def to_dict_lookup)

section \<open>The decision variables\<close>

lemma distinct_concat_pairs:
  "distinct is \<Longrightarrow> (\<And>i. i \<in> set is \<Longrightarrow> distinct (h i)) \<Longrightarrow>
     distinct (concat (map (\<lambda>i. map (\<lambda>j. (i, j)) (h i)) is))"
proof (induction "is")
  case Nil
  show ?case by simp
next
  case (Cons i "is")
  have "distinct (map (\<lambda>j. (i, j)) (h i))"
    using Cons.prems(2) [of i] by (simp add: distinct_map inj_on_def)
  moreover have "distinct (concat (map (\<lambda>i. map (\<lambda>j. (i, j)) (h i)) is))"
    using Cons by simp
  moreover have "set (map (\<lambda>j. (i, j)) (h i)) \<inter> set (concat (map (\<lambda>i. map (\<lambda>j. (i, j)) (h i)) is)) = {}"
    using Cons.prems(1) by auto
  ultimately show ?case by simp
qed

lemma set_concat_pairs:
  "(i, j) \<in> set (concat (map (\<lambda>i. map (\<lambda>j. (i, j)) (h i)) is)) \<longleftrightarrow> i \<in> set is \<and> j \<in> set (h i)"
  by auto

lemma set_t_keys:
  "set [(k, j, m). k \<leftarrow> Js, j \<leftarrow> Js, m \<leftarrow> Ms, j \<noteq> k]
     = {(k, j, m). k \<in> set Js \<and> j \<in> set Js \<and> m \<in> set Ms \<and> j \<noteq> k}"
  by auto

lemma create_decision_variables_define_sets:
  "\<exists>v mdl' ks ts.
     create_decision_variables (define_sets est obras) mdl = (Inr v, mdl') \<and>
     vars_x v = map (\<lambda>k. (k, X (fst k) (snd k))) ks \<and> distinct ks \<and>
     set ks = (\<lambda>r. (obra r, cod_dep r)) ` set obras \<and>
     vars_t v = map (\<lambda>k. (k, T (fst k) (fst (snd k)) (snd (snd k)))) ts \<and>
     set ts = {(k, j, m). k \<in> e_cod_dep ` set est \<and> j \<in> e_cod_dep ` set est
                 \<and> m \<in> e_cod_mat ` set est \<and> j \<noteq> k} \<and>
     m_vars mdl' = m_vars mdl @ map (\<lambda>k. (snd k, BINARY, 0)) (vars_x v)
                     @ map (\<lambda>k. (snd k, CONTINUOUS, 0)) (vars_t v) \<and>
     m_constrs mdl' = m_constrs mdl \<and> m_objective mdl' = m_objective mdl"
proof -
  define s where "s = define_sets est obras"
  define g where "g = (\<lambda>i. map (\<lambda>j. (i, j)) (the (sets_J_i s i)))"
  define ks where "ks = concat (map g (sets_I s))"
  define ts where "ts = [(k, j, m). k \<leftarrow> sets_J s, j \<leftarrow> sets_J s, m \<leftarrow> sets_M s, j \<noteq> k]"
  have some: "\<exists>js. sets_J_i s i = Some js" if "i \<in> set (sets_I s)" for i
    using that sets_J_i_None [of est obras i] by (auto simp: s_def sets_I_define)
  have tr: "traverse (\<lambda>i. case getitem (sets_J_i s) i of
                             Inl e \<Rightarrow> Inl e
                           | Inr js \<Rightarrow> Inr (map (\<lambda>j. (i, j)) js)) (sets_I s)
              = Inr (map g (sets_I s))"
  proof (rule traverse_map_Inr)
    fix i assume "i \<in> set (sets_I s)"
    then obtain js where "sets_J_i s i = Some js" using some by blast
    then show "(case getitem (sets_J_i s) i of Inl e \<Rightarrow> Inl e
                | Inr js \<Rightarrow> Inr (map (\<lambda>j. (i, j)) js)) = Inr (g i)"
      by (simp add: getitem_def g_def)
  qed
  have fx: "(\<lambda>(i, j). ((i, j), X i j)) = (\<lambda>k. (k, X (fst k) (snd k)))"
    and ft: "(\<lambda>(k, j, m). ((k, j, m), T k j m)) = (\<lambda>k. (k, T (fst k) (fst (snd k)) (snd (snd k))))"
    by (auto simp: fun_eq_iff)
  have dks: "distinct ks"
    unfolding ks_def g_def
  proof (rule distinct_concat_pairs)
    show "distinct (sets_I s)" by (simp add: s_def distinct_sets_I)
    fix i assume "i \<in> set (sets_I s)"
    then obtain js where "sets_J_i s i = Some js" using some by blast
    then show "distinct (the (sets_J_i s i))"
      using sets_J_i_Some(2) [of est obras i js] by (simp add: s_def)
  qed
  have sks: "set ks = (\<lambda>r. (obra r, cod_dep r)) ` set obras"
  proof (rule set_eqI)
    fix k :: "nat \<times> nat"
    obtain i j where k: "k = (i, j)" by (cases k)
    show "k \<in> set ks \<longleftrightarrow> k \<in> (\<lambda>r. (obra r, cod_dep r)) ` set obras"
    proof (cases "i \<in> obra ` set obras")
      case True
      then obtain js where js: "sets_J_i s i = Some js"
        using some by (auto simp: s_def sets_I_define)
      have "k \<in> set ks \<longleftrightarrow> j \<in> set js"
        unfolding k ks_def g_def set_concat_pairs using True js by (simp add: s_def sets_I_define)
      then show ?thesis
        using sets_J_i_Some(4) [of est obras i js] js by (simp add: s_def k)
    next
      case False
      then have "k \<notin> set ks"
        unfolding k ks_def g_def set_concat_pairs by (simp add: s_def sets_I_define)
      moreover have "k \<notin> (\<lambda>r. (obra r, cod_dep r)) ` set obras"
        using False by (auto simp: k)
      ultimately show ?thesis by simp
    qed
  qed
  have sts: "set ts = {(k, j, m). k \<in> e_cod_dep ` set est \<and> j \<in> e_cod_dep ` set est
                 \<and> m \<in> e_cod_mat ` set est \<and> j \<noteq> k}"
    unfolding ts_def s_def set_t_keys
    by (simp only: sets_J_define sets_M_define)
  define v where "v = \<lparr> vars_x = map (\<lambda>k. (k, X (fst k) (snd k))) ks,
                         vars_t = map (\<lambda>k. (k, T (fst k) (fst (snd k)) (snd (snd k)))) ts \<rparr>"
  define mdl' where "mdl' = addVars (map (\<lambda>(k, j, m). T k j m) ts) CONTINUOUS 0
                              (addVars (map (\<lambda>(i, j). X i j) ks) BINARY 0 mdl)"
  have "create_decision_variables (define_sets est obras) mdl = (Inr v, mdl')"
    unfolding create_decision_variables_def s_def [symmetric] tr
    by (simp add: Let_def ks_def ts_def fx ft v_def mdl'_def)
  moreover have "vars_x v = map (\<lambda>k. (k, X (fst k) (snd k))) ks"
    and "vars_t v = map (\<lambda>k. (k, T (fst k) (fst (snd k)) (snd (snd k)))) ts"
    by (simp_all add: v_def)
  moreover have "m_vars mdl' = m_vars mdl @ map (\<lambda>k. (snd k, BINARY, 0)) (vars_x v)
                     @ map (\<lambda>k. (snd k, CONTINUOUS, 0)) (vars_t v)"
    by (simp add: mdl'_def v_def addVars_def comp_def case_prod_beta)
  moreover have "m_constrs mdl' = m_constrs mdl" and "m_objective mdl' = m_objective mdl"
    by (simp_all add: mdl'_def addVars_def)
  ultimately show ?thesis
    using dks sks sts by blast
qed

lemma sparse_domain_pairs:
  "{(i, j). \<exists>js. sets_J_i (define_sets est obras) i = Some js \<and> j \<in> set js}
     = (\<lambda>r. (obra r, cod_dep r)) ` set obras"
proof (rule set_eqI)
  fix k :: "nat \<times> nat"
  obtain i j where k: "k = (i, j)" by (cases k)
  show "k \<in> {(i, j). \<exists>js. sets_J_i (define_sets est obras) i = Some js \<and> j \<in> set js}
          \<longleftrightarrow> k \<in> (\<lambda>r. (obra r, cod_dep r)) ` set obras"
  proof (cases "sets_J_i (define_sets est obras) i")
    case None
    then have "i \<notin> obra ` set obras" by (simp add: sets_J_i_None)
    then have "(i, j) \<notin> (\<lambda>r. (obra r, cod_dep r)) ` set obras" by auto
    with None show ?thesis by (simp add: k)
  next
    case (Some js)
    show ?thesis using sets_J_i_Some(4) [OF Some] Some by (simp add: k)
  qed
qed

text \<open>
  Claim C4. The assignment variable \<open>x\<close> is created over the sparse domain only:
  \<^verbatim>\<open>create_decision_variables\<close> succeeds, its \<open>x\<close> keys are pairwise different, and the set
  of keys is \<open>{(i, j). j \<in> J_i[i]}\<close>, which is the set of (task, site) pairs of the rows of the
  Task relation. Every key \<open>(i, j)\<close> holds the variable \<open>X i j\<close>, and the binary variables of
  the model are these variables and no others. (The witness is an input where the keys are
  not the cross product of tasks and sites.)
\<close>

theorem create_decision_variables_sparse_domain:
  "\<exists>v mdl'. create_decision_variables (define_sets est obras) Model = (Inr v, mdl') \<and>
     distinct (map fst (vars_x v)) \<and>
     set (map fst (vars_x v))
       = {(i, j). \<exists>js. sets_J_i (define_sets est obras) i = Some js \<and> j \<in> set js} \<and>
     set (map fst (vars_x v)) = (\<lambda>r. (obra r, cod_dep r)) ` set obras \<and>
     map snd (vars_x v) = map (\<lambda>(i, j). X i j) (map fst (vars_x v)) \<and>
     map fst (filter (\<lambda>d. fst (snd d) = BINARY) (m_vars mdl')) = map snd (vars_x v)"
proof -
  obtain v mdl' ks ts where
    r: "create_decision_variables (define_sets est obras) Model = (Inr v, mdl')"
    and x: "vars_x v = map (\<lambda>k. (k, X (fst k) (snd k))) ks" "distinct ks"
      "set ks = (\<lambda>r. (obra r, cod_dep r)) ` set obras"
    and mv: "m_vars mdl' = m_vars Model @ map (\<lambda>k. (snd k, BINARY, 0)) (vars_x v)
                     @ map (\<lambda>k. (snd k, CONTINUOUS, 0)) (vars_t v)"
    using create_decision_variables_define_sets [of est obras Model] by blast
  have fst_x: "map fst (vars_x v) = ks" by (simp add: x(1) comp_def)
  have "map snd (vars_x v) = map (\<lambda>(i, j). X i j) (map fst (vars_x v))"
    by (simp add: x(1) comp_def case_prod_beta)
  moreover have "map fst (filter (\<lambda>d. fst (snd d) = BINARY) (m_vars mdl')) = map snd (vars_x v)"
    by (simp add: mv Model_def filter_map comp_def)
  ultimately show ?thesis
    using r x(2,3) unfolding sparse_domain_pairs fst_x [symmetric] by blast
qed

theorem create_decision_variables_sparse_domain_witness:
  "\<exists>v mdl'. create_decision_variables
       (define_sets [\<lparr>e_cod_dep = 1, e_cod_mat = 1, estoque = 10\<rparr>,
                     \<lparr>e_cod_dep = 2, e_cod_mat = 1, estoque = 5\<rparr>]
          [\<lparr>obra = 1, cod_dep = 1, prioridade = 5, cod_mat = 1, qtd_dem = 4\<rparr>,
           \<lparr>obra = 2, cod_dep = 1, prioridade = 3, cod_mat = 1, qtd_dem = 2\<rparr>,
           \<lparr>obra = 2, cod_dep = 2, prioridade = 3, cod_mat = 1, qtd_dem = 2\<rparr>]) Model
       = (Inr v, mdl') \<and>
     set (map fst (vars_x v)) = {(1, 1), (2, 1), (2, 2)} \<and>
     set (map fst (vars_x v)) \<noteq> {1, 2} \<times> {1, 2}"
proof -
  let ?est = "[\<lparr>e_cod_dep = 1, e_cod_mat = 1, estoque = 10\<rparr>,
               \<lparr>e_cod_dep = 2, e_cod_mat = 1, estoque = 5\<rparr>]"
  let ?obras = "[\<lparr>obra = 1, cod_dep = 1, prioridade = 5, cod_mat = 1, qtd_dem = 4\<rparr>,
                 \<lparr>obra = 2, cod_dep = 1, prioridade = 3, cod_mat = 1, qtd_dem = 2\<rparr>,
                 \<lparr>obra = 2, cod_dep = 2, prioridade = 3, cod_mat = 1, qtd_dem = 2\<rparr>]"
  have img: "(\<lambda>r. (obra r, cod_dep r)) ` set ?obras = {(1, 1), (2, 1), (2, 2)}"
    by simp
  have ne: "{(1 :: nat, 1 :: nat), (2, 1), (2, 2)} \<noteq> {1, 2} \<times> {1, 2}"
  proof
    assume "{(1 :: nat, 1 :: nat), (2, 1), (2, 2)} = {1, 2} \<times> {1, 2}"
    then have "(1 :: nat, 2 :: nat) \<in> {(1, 1), (2, 1), (2, 2)}" by simp
    then show False by simp
  qed
  obtain v mdl' where
    "create_decision_variables (define_sets ?est ?obras) Model = (Inr v, mdl')"
    and "set (map fst (vars_x v)) = (\<lambda>r. (obra r, cod_dep r)) ` set ?obras"
    using create_decision_variables_sparse_domain [of ?est ?obras]
    by (elim exE conjE)
  then have "create_decision_variables (define_sets ?est ?obras) Model = (Inr v, mdl') \<and>
     set (map fst (vars_x v)) = {(1, 1), (2, 1), (2, 2)} \<and>
     set (map fst (vars_x v)) \<noteq> {1, 2} \<times> {1, 2}"
    using ne unfolding img by simp
  then show ?thesis by - (rule exI, rule exI, assumption)
qed

section \<open>The sets of a frame with empty task cells\<close>

lemma traverse_Inl:
  assumes "x \<in> set xs" and "f x = Inl e" and "\<And>y e'. f y = Inl e' \<Longrightarrow> e' = e"
  shows "traverse f xs = Inl e"
  using assms(1)
proof (induction xs)
  case Nil
  then show ?case by simp
next
  case (Cons a xs)
  show ?case
  proof (cases "f a")
    case (Inl e')
    with assms(3) show ?thesis by simp
  next
    case (Inr y)
    with Cons assms(2) have "x \<in> set xs" by auto
    then have "traverse f xs = Inl e" by (rule Cons.IH)
    with Inr show ?thesis by simp
  qed
qed

lemma sets_I_na_define: "set (sets_I_na obras) = na_obra ` set obras"
  and distinct_sets_I_na: "distinct (sets_I_na obras)"
  by (simp_all add: sets_I_na_def set_unique distinct_unique)

lemma sets_J_i_na_None:
  "sets_J_i_na obras i = None \<longleftrightarrow> i = None \<or> i \<notin> na_obra ` set obras"
  using drop_duplicates_image [of fst "\<lambda>r. (na_obra r, na_cod_dep r)" obras]
  by (simp add: sets_J_i_na_def groupby_agg_dropna_def)

lemma sets_J_i_na_Some:
  assumes "sets_J_i_na obras i = Some js"
  shows "i \<noteq> None" and "i \<in> na_obra ` set obras" and "distinct js" and "js \<noteq> []"
    and "set js = {j. (i, j) \<in> (\<lambda>r. (na_obra r, na_cod_dep r)) ` set obras}"
proof -
  from assms have n: "\<not> (i = None \<or> i \<notin> na_obra ` set obras)"
    unfolding sets_J_i_na_None [symmetric] by simp
  then show "i \<noteq> None" and i: "i \<in> na_obra ` set obras" by simp_all
  have js: "js = unique (map na_cod_dep (filter (\<lambda>r. na_obra r = i)
                 (drop_duplicates (\<lambda>r. (na_obra r, na_cod_dep r)) obras)))"
    using assms by (simp add: sets_J_i_na_def groupby_agg_dropna_def split: if_splits)
  show "distinct js" by (simp add: js distinct_unique)
  show s: "set js = {j. (i, j) \<in> (\<lambda>r. (na_obra r, na_cod_dep r)) ` set obras}"
    using group_values_fst [of na_cod_dep na_obra obras i] by (simp add: js set_unique)
  from i have "set js \<noteq> {}" unfolding s by auto
  then show "js \<noteq> []" by auto
qed

lemma dom_sets_J_i_na: "dom (sets_J_i_na obras) = set (sets_I_na obras) - {None}"
  using sets_J_i_na_None [of obras] by (auto simp: sets_I_na_define dom_def)

lemma x_keys_na_KeyError:
  assumes "None \<in> na_obra ` set obras"
  shows "x_keys_na obras = Inl KeyError"
proof -
  have "traverse (\<lambda>i. case getitem (sets_J_i_na obras) i of
                             Inl e \<Rightarrow> Inl e
                           | Inr js \<Rightarrow> Inr (map (\<lambda>j. (i, j)) js)) (sets_I_na obras)
          = Inl KeyError"
  proof (rule traverse_Inl [of None])
    show "None \<in> set (sets_I_na obras)" using assms by (simp add: sets_I_na_define)
    have "sets_J_i_na obras None = None" by (simp add: sets_J_i_na_None)
    then show "(case getitem (sets_J_i_na obras) None of
                    Inl e \<Rightarrow> Inl e
                  | Inr js \<Rightarrow> Inr (map (\<lambda>j. (None, j)) js)) = Inl KeyError"
      by (simp add: getitem_def)
    show "e' = KeyError"
      if "(case getitem (sets_J_i_na obras) y of
             Inl e \<Rightarrow> Inl e
           | Inr js \<Rightarrow> Inr (map (\<lambda>j. (y, j)) js)) = Inl e'" for y e'
      using that by (simp add: getitem_def split: option.splits)
  qed
  then show ?thesis by (simp add: x_keys_na_def)
qed

lemma x_keys_na_present:
  assumes "None \<notin> na_obra ` set obras"
  shows "\<exists>ks. x_keys_na obras = Inr ks \<and> distinct ks \<and>
           set ks = (\<lambda>r. (na_obra r, na_cod_dep r)) ` set obras"
proof -
  let ?J = "\<lambda>i. the (sets_J_i_na obras i)"
  have t: "traverse (\<lambda>i. case getitem (sets_J_i_na obras) i of
                             Inl e \<Rightarrow> Inl e
                           | Inr js \<Rightarrow> Inr (map (\<lambda>j. (i, j)) js)) (sets_I_na obras)
          = Inr (map (\<lambda>i. map (\<lambda>j. (i, j)) (?J i)) (sets_I_na obras))"
  proof (rule traverse_map_Inr)
    fix i assume "i \<in> set (sets_I_na obras)"
    then have "i \<in> na_obra ` set obras" by (simp add: sets_I_na_define)
    with assms have "\<not> (i = None \<or> i \<notin> na_obra ` set obras)" by blast
    then obtain js where "sets_J_i_na obras i = Some js"
      unfolding sets_J_i_na_None [symmetric] by auto
    then show "(case getitem (sets_J_i_na obras) i of
                    Inl e \<Rightarrow> Inl e
                  | Inr js \<Rightarrow> Inr (map (\<lambda>j. (i, j)) js)) = Inr (map (\<lambda>j. (i, j)) (?J i))"
      by (simp add: getitem_def)
  qed
  let ?ks = "concat (map (\<lambda>i. map (\<lambda>j. (i, j)) (?J i)) (sets_I_na obras))"
  have k: "x_keys_na obras = Inr ?ks" by (simp add: x_keys_na_def t)
  have J: "distinct (?J i) \<and> set (?J i) = {j. (i, j) \<in> (\<lambda>r. (na_obra r, na_cod_dep r)) ` set obras}"
    if "i \<in> set (sets_I_na obras)" for i
  proof -
    from that have "i \<in> na_obra ` set obras" by (simp add: sets_I_na_define)
    with assms have "\<not> (i = None \<or> i \<notin> na_obra ` set obras)" by blast
    then obtain js where js: "sets_J_i_na obras i = Some js"
      unfolding sets_J_i_na_None [symmetric] by auto
    from sets_J_i_na_Some(3,5) [OF js] show ?thesis by (simp add: js)
  qed
  have d: "distinct ?ks"
    by (rule distinct_concat_pairs) (simp_all add: distinct_sets_I_na J)
  have "set ?ks = {(i, j). i \<in> set (sets_I_na obras) \<and> j \<in> set (?J i)}"
    by auto
  also have "\<dots> = (\<lambda>r. (na_obra r, na_cod_dep r)) ` set obras"
    using J by (auto simp: sets_I_na_define image_iff)
  finally have s: "set ?ks = (\<lambda>r. (na_obra r, na_cod_dep r)) ` set obras" .
  from k d s show ?thesis by (intro exI [of _ ?ks] conjI)
qed

text \<open>
  On a frame with every task cell present the sets are those of \<^verbatim>\<open>define_sets\<close>, and the
  keys are those of \<^verbatim>\<open>create_decision_variables\<close>.
\<close>

lemma drop_duplicates_seen_map:
  "drop_duplicates_seen key seen (map f xs) = map f (drop_duplicates_seen (\<lambda>x. key (f x)) seen xs)"
  by (induction xs arbitrary: seen) simp_all

lemma drop_duplicates_seen_inj:
  assumes "inj g"
  shows "drop_duplicates_seen (\<lambda>x. g (key x)) (map g seen) xs = drop_duplicates_seen key seen xs"
proof (induction xs arbitrary: seen)
  case Nil
  show ?case by simp
next
  case (Cons x xs)
  have m: "g (key x) \<in> set (map g seen) \<longleftrightarrow> key x \<in> set seen"
    using assms by (auto simp: inj_def)
  show ?case
    using Cons [of seen] Cons [of "key x # seen"] by (simp add: m del: set_map)
qed

lemma drop_duplicates_map:
  "drop_duplicates key (map f xs) = map f (drop_duplicates (\<lambda>x. key (f x)) xs)"
  by (simp add: drop_duplicates_def drop_duplicates_seen_map)

lemma drop_duplicates_inj:
  assumes "inj g"
  shows "drop_duplicates (\<lambda>x. g (key x)) xs = drop_duplicates key xs"
  using drop_duplicates_seen_inj [OF assms, of key "[]" xs]
  by (simp add: drop_duplicates_def)

lemma sets_I_na_present:
  "sets_I_na (map present obras) = map Some (sets_I (define_sets est obras))"
proof -
  have "unique (map Some (map obra obras))
          = map Some (drop_duplicates (\<lambda>x. Some x) (map obra obras))"
    unfolding unique_def by (rule drop_duplicates_map)
  also have "drop_duplicates (\<lambda>x. Some x) (map obra obras) = unique (map obra obras)"
    unfolding unique_def by (rule drop_duplicates_inj) simp
  finally show ?thesis
    by (simp add: sets_I_na_def define_sets_def present_def comp_def)
qed

lemma sets_J_i_na_present:
  "sets_J_i_na (map present obras) (Some i) = sets_J_i (define_sets est obras) i"
proof -
  let ?D = "drop_duplicates (\<lambda>r. (obra r, cod_dep r)) obras"
  have inj: "inj (\<lambda>k :: nat \<times> nat. (Some (fst k), snd k))"
    by (auto simp: inj_def)
  have "drop_duplicates (\<lambda>r. (na_obra r, na_cod_dep r)) (map present obras)
          = map present (drop_duplicates (\<lambda>r. (na_obra (present r), na_cod_dep (present r))) obras)"
    by (rule drop_duplicates_map)
  also have "drop_duplicates (\<lambda>r. (na_obra (present r), na_cod_dep (present r))) obras
          = drop_duplicates (\<lambda>r. (Some (fst (obra r, cod_dep r)), snd (obra r, cod_dep r))) obras"
    by (simp add: present_def)
  also have "\<dots> = ?D"
    using inj by (rule drop_duplicates_inj)
  finally have d: "drop_duplicates (\<lambda>r. (na_obra r, na_cod_dep r)) (map present obras)
                     = map present ?D" .
  have f: "filter (\<lambda>r. na_obra r = Some i) (map present ?D)
             = map present (filter (\<lambda>r. obra r = i) ?D)"
    by (simp add: filter_map comp_def present_def)
  have m: "Some i \<in> (\<lambda>x. na_obra (present x)) ` set ?D \<longleftrightarrow> i \<in> obra ` set ?D"
    by (auto simp: present_def)
  have c: "map na_cod_dep (map present ys) = map cod_dep ys" for ys
    by (simp add: present_def)
  show ?thesis
    unfolding sets_J_i_na_def define_sets_def groupby_agg_dropna_def groupby_agg_def d f c
    by (simp add: m)
qed

lemma traverse_map:
  "traverse f (map g xs) = traverse (\<lambda>x. f (g x)) xs"
  by (induction xs) (auto split: sum.splits)

lemma traverse_map_result:
  "traverse (\<lambda>x. case f x of Inl e \<Rightarrow> Inl e | Inr y \<Rightarrow> Inr (g y)) xs
     = (case traverse f xs of Inl e \<Rightarrow> Inl e | Inr ys \<Rightarrow> Inr (map g ys))"
  by (induction xs) (simp_all split: sum.splits)

lemma x_keys_na_present_rows:
  assumes "create_decision_variables (define_sets est obras) mdl = (Inr v, mdl')"
  shows "x_keys_na (map present obras) = Inr (map (\<lambda>(i, j). (Some i, j)) (map fst (vars_x v)))"
proof -
  let ?s = "define_sets est obras"
  let ?F = "\<lambda>i. case getitem (sets_J_i ?s) i of
                    Inl e \<Rightarrow> Inl e
                  | Inr js \<Rightarrow> Inr (map (\<lambda>j. (i, j)) js)"
  from assms obtain kss where kss: "traverse ?F (sets_I ?s) = Inr kss"
    and v: "map fst (vars_x v) = concat kss"
    by (auto simp: create_decision_variables_def Let_def comp_def case_prod_beta
        split: sum.splits)
  have g: "getitem (sets_J_i_na (map present obras)) (Some i) = getitem (sets_J_i ?s) i" for i
    by (simp add: getitem_def sets_J_i_na_present [of obras i est])
  have "traverse (\<lambda>i. case getitem (sets_J_i_na (map present obras)) i of
                             Inl e \<Rightarrow> Inl e
                           | Inr js \<Rightarrow> Inr (map (\<lambda>j. (i, j)) js))
          (sets_I_na (map present obras))
        = traverse (\<lambda>i. case ?F i of
                            Inl e \<Rightarrow> Inl e
                          | Inr ks \<Rightarrow> Inr (map (\<lambda>(i, j). (Some i, j)) ks)) (sets_I ?s)"
    unfolding sets_I_na_present [of obras est] traverse_map g
    by (rule arg_cong [where f = "\<lambda>f. traverse f (sets_I ?s)"])
      (auto simp: fun_eq_iff split: sum.splits)
  also have "\<dots> = Inr (map (map (\<lambda>(i, j). (Some i, j))) kss)"
    unfolding traverse_map_result kss by simp
  finally show ?thesis
    by (simp add: x_keys_na_def v map_concat)
qed

lemma J_i_keys_present_rows:
  "dom (sets_J_i (define_sets est obras)) = set (sets_I (define_sets est obras)) \<and>
   (\<forall>i js. sets_J_i (define_sets est obras) i = Some js \<longrightarrow> js \<noteq> []) \<and>
   (\<forall>mdl. \<exists>v mdl'. create_decision_variables (define_sets est obras) mdl = (Inr v, mdl') \<and>
      x_keys_na (map present obras) = Inr (map (\<lambda>(i, j). (Some i, j)) (map fst (vars_x v))))"
proof (intro conjI allI impI)
  show "dom (sets_J_i (define_sets est obras)) = set (sets_I (define_sets est obras))"
    using sets_J_i_None [of est obras] by (auto simp: sets_I_define dom_def)
  show "js \<noteq> []" if "sets_J_i (define_sets est obras) i = Some js" for i js
    using sets_J_i_Some(3) [OF that] .
  show "\<exists>v mdl'. create_decision_variables (define_sets est obras) mdl = (Inr v, mdl') \<and>
      x_keys_na (map present obras) = Inr (map (\<lambda>(i, j). (Some i, j)) (map fst (vars_x v)))" for mdl
  proof -
    obtain v mdl' ks ts where
      v: "create_decision_variables (define_sets est obras) mdl = (Inr v, mdl')"
      using create_decision_variables_define_sets [of est obras mdl] by (elim exE conjE)
    from v x_keys_na_present_rows [OF v] show ?thesis
      by (intro exI [of _ v] exI [of _ mdl'] conjI)
  qed
qed

text \<open>
  Claim C9, as amended. The keys of the dictionary \<open>J_i\<close> are the tasks of \<open>I\<close> other than
  the empty task id, and every \<open>J_i[i]\<close> is a non-empty list. If every row carries a task id,
  the keys of \<open>J_i\<close> are the tasks of \<open>I\<close>, and the list
  \<^verbatim>\<open>[(i, j) for i in I for j in J_i[i]]\<close> of \<^verbatim>\<open>create_decision_variables\<close> is built without an
  exception: its elements are the (task, site) pairs of the rows. If some row has an
  empty task id, \<open>I\<close> holds that id and \<open>J_i\<close> has no key for it, so building the list raises
  \<^verbatim>\<open>KeyError\<close>. (The site cell of every row is present, as the claim supposes. For rows with
  every cell present, \<open>J_i_keys_present_rows\<close> above is the statement on \<^verbatim>\<open>define_sets\<close> and
  \<^verbatim>\<open>create_decision_variables\<close> themselves.)
\<close>

theorem J_i_keys_are_nonnull_tasks:
  "dom (sets_J_i_na obras) = set (sets_I_na obras) - {None} \<and>
   (\<forall>i js. sets_J_i_na obras i = Some js \<longrightarrow> js \<noteq> []) \<and>
   (None \<notin> na_obra ` set obras \<longrightarrow>
      dom (sets_J_i_na obras) = set (sets_I_na obras) \<and>
      (\<exists>ks. x_keys_na obras = Inr ks \<and>
         set ks = (\<lambda>r. (na_obra r, na_cod_dep r)) ` set obras)) \<and>
   (None \<in> na_obra ` set obras \<longrightarrow>
      dom (sets_J_i_na obras) \<noteq> set (sets_I_na obras) \<and>
      x_keys_na obras = Inl KeyError)"
proof (intro conjI allI impI)
  show d: "dom (sets_J_i_na obras) = set (sets_I_na obras) - {None}"
    by (rule dom_sets_J_i_na)
  show "js \<noteq> []" if "sets_J_i_na obras i = Some js" for i js
    using sets_J_i_na_Some(4) [OF that] .
  show "dom (sets_J_i_na obras) = set (sets_I_na obras)" if "None \<notin> na_obra ` set obras"
    using that unfolding d by (simp add: sets_I_na_define)
  show "\<exists>ks. x_keys_na obras = Inr ks \<and>
         set ks = (\<lambda>r. (na_obra r, na_cod_dep r)) ` set obras" if h: "None \<notin> na_obra ` set obras"
  proof -
    obtain ks where "x_keys_na obras = Inr ks"
      and "set ks = (\<lambda>r. (na_obra r, na_cod_dep r)) ` set obras"
      using x_keys_na_present [OF h] by (elim exE conjE)
    then show ?thesis by (intro exI [of _ ks] conjI)
  qed
  show "dom (sets_J_i_na obras) \<noteq> set (sets_I_na obras)" if "None \<in> na_obra ` set obras"
  proof
    assume "dom (sets_J_i_na obras) = set (sets_I_na obras)"
    with d have "None \<notin> set (sets_I_na obras)" by auto
    with that show False by (simp add: sets_I_na_define)
  qed
  show "x_keys_na obras = Inl KeyError" if "None \<in> na_obra ` set obras"
    using that by (rule x_keys_na_KeyError)
qed

theorem J_i_keys_are_nonnull_tasks_witness:
  "None \<notin> na_obra ` set
     [\<lparr>na_obra = Some 1, na_cod_dep = 1, na_prioridade = 5, na_cod_mat = 1, na_qtd_dem = 4\<rparr>,
      \<lparr>na_obra = Some 2, na_cod_dep = 1, na_prioridade = 3, na_cod_mat = 1, na_qtd_dem = 2\<rparr>,
      \<lparr>na_obra = Some 2, na_cod_dep = 2, na_prioridade = 3, na_cod_mat = 1, na_qtd_dem = 2\<rparr>] \<and>
   dom (sets_J_i_na
     [\<lparr>na_obra = Some 1, na_cod_dep = 1, na_prioridade = 5, na_cod_mat = 1, na_qtd_dem = 4\<rparr>,
      \<lparr>na_obra = Some 2, na_cod_dep = 1, na_prioridade = 3, na_cod_mat = 1, na_qtd_dem = 2\<rparr>,
      \<lparr>na_obra = Some 2, na_cod_dep = 2, na_prioridade = 3, na_cod_mat = 1, na_qtd_dem = 2\<rparr>])
     = {Some 1, Some 2} \<and>
   (\<exists>ks. x_keys_na
     [\<lparr>na_obra = Some 1, na_cod_dep = 1, na_prioridade = 5, na_cod_mat = 1, na_qtd_dem = 4\<rparr>,
      \<lparr>na_obra = Some 2, na_cod_dep = 1, na_prioridade = 3, na_cod_mat = 1, na_qtd_dem = 2\<rparr>,
      \<lparr>na_obra = Some 2, na_cod_dep = 2, na_prioridade = 3, na_cod_mat = 1, na_qtd_dem = 2\<rparr>]
       = Inr ks \<and> set ks = {(Some 1, 1), (Some 2, 1), (Some 2, 2)}) \<and>
   None \<in> na_obra ` set
     [\<lparr>na_obra = Some 1, na_cod_dep = 1, na_prioridade = 5, na_cod_mat = 1, na_qtd_dem = 4\<rparr>,
      \<lparr>na_obra = None, na_cod_dep = 2, na_prioridade = 3, na_cod_mat = 1, na_qtd_dem = 2\<rparr>] \<and>
   dom (sets_J_i_na
     [\<lparr>na_obra = Some 1, na_cod_dep = 1, na_prioridade = 5, na_cod_mat = 1, na_qtd_dem = 4\<rparr>,
      \<lparr>na_obra = None, na_cod_dep = 2, na_prioridade = 3, na_cod_mat = 1, na_qtd_dem = 2\<rparr>])
     = {Some 1} \<and>
   x_keys_na
     [\<lparr>na_obra = Some 1, na_cod_dep = 1, na_prioridade = 5, na_cod_mat = 1, na_qtd_dem = 4\<rparr>,
      \<lparr>na_obra = None, na_cod_dep = 2, na_prioridade = 3, na_cod_mat = 1, na_qtd_dem = 2\<rparr>]
     = Inl KeyError"
proof -
  let ?A = "[\<lparr>na_obra = Some 1, na_cod_dep = 1, na_prioridade = 5, na_cod_mat = 1, na_qtd_dem = 4\<rparr>,
      \<lparr>na_obra = Some 2, na_cod_dep = 1, na_prioridade = 3, na_cod_mat = 1, na_qtd_dem = 2\<rparr>,
      \<lparr>na_obra = Some 2, na_cod_dep = 2, na_prioridade = 3, na_cod_mat = 1, na_qtd_dem = 2\<rparr>]"
  let ?B = "[\<lparr>na_obra = Some 1, na_cod_dep = 1, na_prioridade = 5, na_cod_mat = 1, na_qtd_dem = 4\<rparr>,
      \<lparr>na_obra = None, na_cod_dep = 2, na_prioridade = 3, na_cod_mat = 1, na_qtd_dem = 2\<rparr>]"
  have hA: "None \<notin> na_obra ` set ?A" by simp
  have hB: "None \<in> na_obra ` set ?B" by simp
  have IA: "set (sets_I_na ?A) = {Some 1, Some 2}"
    by (simp add: sets_I_na_def unique_def drop_duplicates_def)
  have IB: "set (sets_I_na ?B) - {None} = {Some 1}"
    by (auto simp: sets_I_na_def unique_def drop_duplicates_def)
  have pA: "(\<lambda>r. (na_obra r, na_cod_dep r)) ` set ?A = {(Some 1, 1), (Some 2, 1), (Some 2, 2)}"
    by simp
  note tA = J_i_keys_are_nonnull_tasks [of ?A]
  note tB = J_i_keys_are_nonnull_tasks [of ?B]
  from tA have "None \<notin> na_obra ` set ?A \<longrightarrow>
      dom (sets_J_i_na ?A) = set (sets_I_na ?A) \<and>
      (\<exists>ks. x_keys_na ?A = Inr ks \<and> set ks = (\<lambda>r. (na_obra r, na_cod_dep r)) ` set ?A)"
    by (elim conjE)
  from this hA have a: "dom (sets_J_i_na ?A) = set (sets_I_na ?A) \<and>
      (\<exists>ks. x_keys_na ?A = Inr ks \<and> set ks = (\<lambda>r. (na_obra r, na_cod_dep r)) ` set ?A)"
    by (rule mp)
  from a have a1: "dom (sets_J_i_na ?A) = {Some 1, Some 2}"
    unfolding IA by (rule conjunct1)
  from a have a2: "\<exists>ks. x_keys_na ?A = Inr ks \<and> set ks = {(Some 1, 1), (Some 2, 1), (Some 2, 2)}"
    unfolding pA by (rule conjunct2)
  from tB have "dom (sets_J_i_na ?B) = set (sets_I_na ?B) - {None}"
    by (rule conjunct1)
  then have b1: "dom (sets_J_i_na ?B) = {Some 1}" unfolding IB .
  from tB have "None \<in> na_obra ` set ?B \<longrightarrow>
      dom (sets_J_i_na ?B) \<noteq> set (sets_I_na ?B) \<and> x_keys_na ?B = Inl KeyError"
    by (elim conjE)
  from this hB have "dom (sets_J_i_na ?B) \<noteq> set (sets_I_na ?B) \<and> x_keys_na ?B = Inl KeyError"
    by (rule mp)
  then have b2: "x_keys_na ?B = Inl KeyError" by (rule conjunct2)
  from hA a1 a2 hB b1 b2 show ?thesis by (intro conjI)
qed

text \<open>
  The claim C9 as first stated fails. The second row of this Task relation has a site id
  and no task id. \<open>I\<close> is the list of task 1 and the empty id; \<open>J_i\<close> has the key 1 only, so
  its keys are not the tasks of \<open>I\<close>, and building the list of the keys of \<open>x\<close> raises
  \<^verbatim>\<open>KeyError\<close> at \<open>J_i[nan]\<close>.
\<close>

theorem null_task_id_KeyError_counterexample:
  "sets_I_na
     [\<lparr>na_obra = Some 1, na_cod_dep = 1, na_prioridade = 5, na_cod_mat = 1, na_qtd_dem = 4\<rparr>,
      \<lparr>na_obra = None, na_cod_dep = 2, na_prioridade = 3, na_cod_mat = 1, na_qtd_dem = 2\<rparr>]
     = [Some 1, None] \<and>
   sets_J_i_na
     [\<lparr>na_obra = Some 1, na_cod_dep = 1, na_prioridade = 5, na_cod_mat = 1, na_qtd_dem = 4\<rparr>,
      \<lparr>na_obra = None, na_cod_dep = 2, na_prioridade = 3, na_cod_mat = 1, na_qtd_dem = 2\<rparr>]
     (Some 1) = Some [1] \<and>
   sets_J_i_na
     [\<lparr>na_obra = Some 1, na_cod_dep = 1, na_prioridade = 5, na_cod_mat = 1, na_qtd_dem = 4\<rparr>,
      \<lparr>na_obra = None, na_cod_dep = 2, na_prioridade = 3, na_cod_mat = 1, na_qtd_dem = 2\<rparr>]
     None = None \<and>
   x_keys_na
     [\<lparr>na_obra = Some 1, na_cod_dep = 1, na_prioridade = 5, na_cod_mat = 1, na_qtd_dem = 4\<rparr>,
      \<lparr>na_obra = None, na_cod_dep = 2, na_prioridade = 3, na_cod_mat = 1, na_qtd_dem = 2\<rparr>]
     = Inl KeyError"
  by (simp add: sets_I_na_def sets_J_i_na_def x_keys_na_def groupby_agg_dropna_def unique_def
      drop_duplicates_def getitem_def)

section \<open>The constraint loops\<close>

lemma add_constrs_model:
  "\<exists>cs. m_constrs (snd (add_constrs f xs mdl)) = m_constrs mdl @ cs \<and>
        (\<forall>c \<in> set cs. \<exists>a \<in> set xs. f a = Inr c) \<and>
        m_vars (snd (add_constrs f xs mdl)) = m_vars mdl \<and>
        m_objective (snd (add_constrs f xs mdl)) = m_objective mdl"
proof (induction xs arbitrary: mdl)
  case Nil
  show ?case by simp
next
  case (Cons a as)
  show ?case
  proof (cases "f a")
    case (Inl e)
    then show ?thesis by simp
  next
    case (Inr c)
    obtain cs where cs: "m_constrs (snd (add_constrs f as (addConstr c mdl)))
                           = m_constrs (addConstr c mdl) @ cs"
      "\<forall>c \<in> set cs. \<exists>a \<in> set as. f a = Inr c"
      "m_vars (snd (add_constrs f as (addConstr c mdl))) = m_vars (addConstr c mdl)"
      "m_objective (snd (add_constrs f as (addConstr c mdl))) = m_objective (addConstr c mdl)"
      using Cons [of "addConstr c mdl"] by (elim exE conjE)
    have "m_constrs (snd (add_constrs f (a # as) mdl)) = m_constrs mdl @ (c # cs)"
      using cs(1) Inr by (simp add: addConstr_def)
    moreover have "\<forall>c' \<in> set (c # cs). \<exists>a' \<in> set (a # as). f a' = Inr c'"
      using cs(2) Inr by auto
    moreover have "m_vars (snd (add_constrs f (a # as) mdl)) = m_vars mdl"
      and "m_objective (snd (add_constrs f (a # as) mdl)) = m_objective mdl"
      using cs(3,4) Inr by (simp_all add: addConstr_def)
    ultimately show ?thesis by blast
  qed
qed

lemma add_constrs_all:
  "(\<And>a. a \<in> set xs \<Longrightarrow> f a = Inr (g a)) \<Longrightarrow>
     add_constrs f xs mdl = (None, mdl\<lparr> m_constrs := m_constrs mdl @ map g xs \<rparr>)"
  by (induction xs arbitrary: mdl) (simp_all add: addConstr_def)

lemma add_constrs_None:
  "fst (add_constrs f xs mdl) = None \<longleftrightarrow> (\<forall>a \<in> set xs. \<exists>c. f a = Inr c)"
proof (induction xs arbitrary: mdl)
  case Nil
  show ?case by simp
next
  case (Cons a as)
  show ?case by (cases "f a") (simp_all add: Cons)
qed

lemma add_constrs_Some:
  "fst (add_constrs f xs mdl) = Some e \<Longrightarrow> \<exists>a \<in> set xs. f a = Inl e"
proof (induction xs arbitrary: mdl)
  case Nil
  then show ?case by simp
next
  case (Cons a as)
  then show ?case by (cases "f a") auto
qed

lemma lookup_x:
  assumes "create_decision_variables (define_sets est obras) mdl = (Inr v, mdl')"
  shows "getitem (map_of (vars_x v)) (i, j) =
           (if (i, j) \<in> (\<lambda>r. (obra r, cod_dep r)) ` set obras then Inr (X i j) else Inl KeyError)"
proof -
  obtain v0 mdl0 ks ts where
    "create_decision_variables (define_sets est obras) mdl = (Inr v0, mdl0)"
    and x: "vars_x v0 = map (\<lambda>k. (k, X (fst k) (snd k))) ks"
      "set ks = (\<lambda>r. (obra r, cod_dep r)) ` set obras"
    using create_decision_variables_define_sets [of est obras mdl] by (elim exE conjE)
  with assms have "v0 = v" by simp
  with x show ?thesis by (simp add: getitem_def map_of_keyed)
qed

lemma lookup_t:
  assumes "create_decision_variables (define_sets est obras) mdl = (Inr v, mdl')"
  shows "getitem (map_of (vars_t v)) (k, j, m) =
           (if k \<in> e_cod_dep ` set est \<and> j \<in> e_cod_dep ` set est \<and> m \<in> e_cod_mat ` set est \<and> j \<noteq> k
            then Inr (T k j m) else Inl KeyError)"
proof -
  obtain v0 mdl0 ks ts where
    "create_decision_variables (define_sets est obras) mdl = (Inr v0, mdl0)"
    and t: "vars_t v0 = map (\<lambda>k. (k, T (fst k) (fst (snd k)) (snd (snd k)))) ts"
      "set ts = {(k, j, m). k \<in> e_cod_dep ` set est \<and> j \<in> e_cod_dep ` set est
                 \<and> m \<in> e_cod_mat ` set est \<and> j \<noteq> k}"
    using create_decision_variables_define_sets [of est obras mdl] by (elim exE conjE)
  with assms have "v0 = v" by simp
  with t show ?thesis by (simp add: getitem_def map_of_keyed)
qed

lemma one_execution_define_sets:
  assumes v: "create_decision_variables (define_sets est obras) mdl = (Inr v, mdl')"
    and js: "sets_J_i (define_sets est obras) i = Some js"
  shows "one_execution (define_sets est obras) v i =
           Inr \<lparr> c_lhs = quicksum (map (\<lambda>j. var_expr (X i j)) js), c_sense = LE,
                 c_rhs = const_expr 1, c_name = C1_OneExecution i \<rparr>"
proof -
  have "traverse (\<lambda>j. getitem (map_of (vars_x v)) (i, j)) js = Inr (map (\<lambda>j. X i j) js)"
  proof (rule traverse_map_Inr)
    fix j assume "j \<in> set js"
    then have "(i, j) \<in> (\<lambda>r. (obra r, cod_dep r)) ` set obras"
      using sets_J_i_Some(4) [OF js] by simp
    then show "getitem (map_of (vars_x v)) (i, j) = Inr (X i j)"
      by (simp add: lookup_x [OF v])
  qed
  then show ?thesis
    by (simp add: one_execution_def getitem_def js comp_def)
qed

lemma eval_one_execution_lhs:
  assumes "distinct js"
  shows "eval val (quicksum (map (\<lambda>j. var_expr (X i j)) js)) = (\<Sum>j \<in> set js. val (X i j))"
  using assms
  by (simp add: eval_quicksum comp_def eval_var_expr sum_list_distinct_conv_sum_set)

lemma stock_balance_KeyError:
  "j \<notin> cod_dep ` set obras \<Longrightarrow>
     stock_balance (define_sets est obras) p v (m, j) = Inl KeyError"
  using sets_I_j_None [of est obras j] by (simp add: stock_balance_def getitem_def)

lemma stock_balance_define_sets:
  assumes v: "create_decision_variables (define_sets est obras) mdl = (Inr v, mdl')"
    and tasks: "sets_I_j (define_sets est obras) j = Some tasks"
    and m: "m \<in> e_cod_mat ` set est" and j: "j \<in> e_cod_dep ` set est"
  shows "stock_balance (define_sets est obras) (define_parameters est obras ct) v (m, j) =
     Inr \<lparr> c_lhs = add_expr
              (quicksum (concat (map (\<lambda>i. if (i, m) \<in> (\<lambda>r. (obra r, cod_mat r)) ` set obras
                 then [var_mul (X i j)
                        (wrap_int64 (\<Sum>r\<leftarrow>filter (\<lambda>r. obra r = i \<and> cod_mat r = m) obras. qtd_dem r))]
                 else []) tasks)))
              (quicksum (map (\<lambda>k. var_expr (T j k m))
                 (filter (\<lambda>k. k \<noteq> j) (sets_J (define_sets est obras))))),
           c_sense = LE,
           c_rhs = add_expr
              (const_expr (case params_Q (define_parameters est obras ct) (j, m) of
                             None \<Rightarrow> 0 | Some a \<Rightarrow> a))
              (quicksum (map (\<lambda>k. var_expr (T k j m))
                 (filter (\<lambda>k. k \<noteq> j) (sets_J (define_sets est obras))))),
           c_name = C2_StockBalance m j \<rparr>"
proof -
  let ?s = "define_sets est obras"
  let ?p = "define_parameters est obras ct"
  let ?g = "\<lambda>i. if (i, m) \<in> (\<lambda>r. (obra r, cod_mat r)) ` set obras
                 then [var_mul (X i j)
                        (wrap_int64 (\<Sum>r\<leftarrow>filter (\<lambda>r. obra r = i \<and> cod_mat r = m) obras. qtd_dem r))]
                 else []"
  have cons: "traverse
                (\<lambda>i. case getitem (sets_M_i ?s) i of
                        Inl e \<Rightarrow> Inl e
                      | Inr ms \<Rightarrow>
                          if m \<in> set ms
                          then (case getitem (map_of (vars_x v)) (i, j) of
                                  Inl e \<Rightarrow> Inl e
                                | Inr x \<Rightarrow>
                                    (case getitem (params_q ?p) (i, m) of
                                       Inl e \<Rightarrow> Inl e
                                     | Inr a \<Rightarrow> Inr [var_mul x a]))
                          else Inr []) tasks = Inr (map ?g tasks)"
  proof (rule traverse_map_Inr)
    fix i assume "i \<in> set tasks"
    then have ij: "(i, j) \<in> (\<lambda>r. (obra r, cod_dep r)) ` set obras"
      using sets_I_j_Some(2) [OF tasks] by simp
    then have "i \<in> obra ` set obras" by auto
    then obtain ms where ms: "sets_M_i ?s i = Some ms"
      using sets_M_i_None [of est obras i] by auto
    have mem: "m \<in> set ms \<longleftrightarrow> (i, m) \<in> (\<lambda>r. (obra r, cod_mat r)) ` set obras"
      using sets_M_i_Some [OF ms] by simp
    show "(case getitem (sets_M_i ?s) i of
             Inl e \<Rightarrow> Inl e
           | Inr ms \<Rightarrow>
               if m \<in> set ms
               then (case getitem (map_of (vars_x v)) (i, j) of
                       Inl e \<Rightarrow> Inl e
                     | Inr x \<Rightarrow>
                         (case getitem (params_q ?p) (i, m) of
                            Inl e \<Rightarrow> Inl e
                          | Inr a \<Rightarrow> Inr [var_mul x a]))
               else Inr []) = Inr (?g i)"
    proof (cases "m \<in> set ms")
      case True
      then have q: "getitem (params_q ?p) (i, m) =
          Inr (wrap_int64 (\<Sum>r\<leftarrow>filter (\<lambda>r. obra r = i \<and> cod_mat r = m) obras. qtd_dem r))"
        using mem by (simp add: getitem_def params_q_define)
      have g1: "getitem (sets_M_i ?s) i = Inr ms" by (simp add: getitem_def ms)
      have g2: "getitem (map_of (vars_x v)) (i, j) = Inr (X i j)"
        using ij by (simp add: lookup_x [OF v])
      show ?thesis unfolding g1 g2 q using True mem by simp
    next
      case False
      have g1: "getitem (sets_M_i ?s) i = Inr ms" by (simp add: getitem_def ms)
      show ?thesis unfolding g1 using False mem by simp
    qed
  qed
  have out: "traverse (\<lambda>k. getitem (map_of (vars_t v)) (j, k, m))
               (filter (\<lambda>k. k \<noteq> j) (sets_J ?s))
             = Inr (map (\<lambda>k. T j k m) (filter (\<lambda>k. k \<noteq> j) (sets_J ?s)))"
  proof (rule traverse_map_Inr)
    fix k assume "k \<in> set (filter (\<lambda>k. k \<noteq> j) (sets_J ?s))"
    then have "k \<in> e_cod_dep ` set est" and "k \<noteq> j"
      by (simp_all add: sets_J_define)
    then show "getitem (map_of (vars_t v)) (j, k, m) = Inr (T j k m)"
      using m j by (simp add: lookup_t [OF v])
  qed
  have inn: "traverse (\<lambda>k. getitem (map_of (vars_t v)) (k, j, m))
               (filter (\<lambda>k. k \<noteq> j) (sets_J ?s))
             = Inr (map (\<lambda>k. T k j m) (filter (\<lambda>k. k \<noteq> j) (sets_J ?s)))"
  proof (rule traverse_map_Inr)
    fix k assume "k \<in> set (filter (\<lambda>k. k \<noteq> j) (sets_J ?s))"
    then have "k \<in> e_cod_dep ` set est" and "k \<noteq> j"
      by (simp_all add: sets_J_define)
    then show "getitem (map_of (vars_t v)) (k, j, m) = Inr (T k j m)"
      using m j by (auto simp: lookup_t [OF v])
  qed
  have g0: "getitem (sets_I_j ?s) j = Inr tasks" by (simp add: getitem_def tasks)
  show ?thesis
    unfolding stock_balance_def prod.case g0 sum.case cons out inn Let_def
    by (simp add: comp_def)
qed

lemma eval_consumption:
  assumes "distinct tasks"
  shows "eval val (quicksum (concat (map (\<lambda>i. if P i then [var_mul (X i j) (a i)] else []) tasks)))
           = (\<Sum>i \<in> {i \<in> set tasks. P i}. val (X i j) * of_int (a i))"
proof -
  have "eval val (quicksum (concat (map (\<lambda>i. if P i then [var_mul (X i j) (a i)] else []) tasks)))
          = (\<Sum>i\<leftarrow>tasks. if P i then val (X i j) * of_int (a i) else 0)"
    by (induction tasks) (simp_all add: eval_quicksum eval_var_mul)
  also have "\<dots> = (\<Sum>i \<in> set tasks. if P i then val (X i j) * of_int (a i) else 0)"
    using assms by (simp add: sum_list_distinct_conv_sum_set)
  also have "\<dots> = (\<Sum>i \<in> {i \<in> set tasks. P i}. val (X i j) * of_int (a i))"
    by (simp add: sum.inter_filter)
  finally show ?thesis .
qed

lemma eval_flow:
  assumes "distinct Js"
  shows "eval val (quicksum (map (\<lambda>k. var_expr (f k)) (filter (\<lambda>k. k \<noteq> j) Js)))
           = (\<Sum>k \<in> set Js - {j}. val (f k))"
proof -
  have "{k \<in> set Js. k \<noteq> j} = set Js - {j}" by auto
  then show ?thesis
    using assms
    by (simp add: eval_quicksum comp_def eval_var_expr sum_list_distinct_conv_sum_set)
qed

section \<open>The objective, the constraints and the run on derived sets\<close>

lemma x_keys_distinct:
  "distinct (concat (map (\<lambda>i. map (\<lambda>j. (i, j)) (the (sets_J_i (define_sets est obras) i)))
               (sets_I (define_sets est obras))))"
proof (rule distinct_concat_pairs)
  show "distinct (sets_I (define_sets est obras))" by (simp add: distinct_sets_I)
  fix i assume "i \<in> set (sets_I (define_sets est obras))"
  then obtain js where js: "sets_J_i (define_sets est obras) i = Some js"
    using sets_J_i_None [of est obras i] by (auto simp: sets_I_define)
  then show "distinct (the (sets_J_i (define_sets est obras) i))"
    using sets_J_i_Some(2) [OF js] by simp
qed

lemma x_keys_set:
  "set (concat (map (\<lambda>i. map (\<lambda>j. (i, j)) (the (sets_J_i (define_sets est obras) i)))
               (sets_I (define_sets est obras))))
     = (\<lambda>r. (obra r, cod_dep r)) ` set obras"
proof (rule set_eqI)
  fix k :: "nat \<times> nat"
  obtain i j where k: "k = (i, j)" by (cases k)
  show "k \<in> set (concat (map (\<lambda>i. map (\<lambda>j. (i, j)) (the (sets_J_i (define_sets est obras) i)))
               (sets_I (define_sets est obras))))
          \<longleftrightarrow> k \<in> (\<lambda>r. (obra r, cod_dep r)) ` set obras"
  proof (cases "sets_J_i (define_sets est obras) i")
    case None
    then have "i \<notin> obra ` set obras" by (simp add: sets_J_i_None)
    moreover from this have "(i, j) \<notin> (\<lambda>r. (obra r, cod_dep r)) ` set obras" by auto
    ultimately show ?thesis
      unfolding k set_concat_pairs by (simp add: sets_I_define)
  next
    case (Some js)
    have "i \<in> obra ` set obras" using sets_J_i_Some(1) [OF Some] .
    then show ?thesis
      unfolding k set_concat_pairs using sets_J_i_Some(4) [OF Some] Some
      by (simp add: sets_I_define)
  qed
qed

lemma eval_objective:
  "eval val (quicksum (concat (map (\<lambda>i. map (\<lambda>j. var_mul (X i j) (a i)) (h i)) is)))
     = (\<Sum>k\<leftarrow>concat (map (\<lambda>i. map (\<lambda>j. (i, j)) (h i)) is).
          val (X (fst k) (snd k)) * of_int (a (fst k)))"
  by (induction "is") (simp_all add: eval_quicksum comp_def eval_var_mul)

lemma set_obj_priority_define_sets:
  assumes v: "create_decision_variables (define_sets est obras) mdl0 = (Inr v, mdl1)"
  shows "set_obj_priority (define_sets est obras) (define_parameters est obras ct) v mdl =
           (None, setObjective
              (quicksum (concat (map
                 (\<lambda>i. map (\<lambda>j. var_mul (X i j)
                               (the (params_w (define_parameters est obras ct) i)))
                        (the (sets_J_i (define_sets est obras) i)))
                 (sets_I (define_sets est obras))))) MAXIMIZE mdl)"
proof -
  let ?s = "define_sets est obras"
  let ?p = "define_parameters est obras ct"
  have "traverse
          (\<lambda>i. case getitem (sets_J_i ?s) i of
                  Inl e \<Rightarrow> Inl e
                | Inr js \<Rightarrow>
                    traverse (\<lambda>j. case getitem (map_of (vars_x v)) (i, j) of
                                     Inl e \<Rightarrow> Inl e
                                   | Inr x \<Rightarrow>
                                       (case getitem (params_w ?p) i of
                                          Inl e \<Rightarrow> Inl e
                                        | Inr a \<Rightarrow> Inr (var_mul x a))) js) (sets_I ?s)
        = Inr (map (\<lambda>i. map (\<lambda>j. var_mul (X i j) (the (params_w ?p i)))
                        (the (sets_J_i ?s i))) (sets_I ?s))"
  proof (rule traverse_map_Inr)
    fix i assume "i \<in> set (sets_I ?s)"
    then have i: "i \<in> obra ` set obras" by (simp add: sets_I_define)
    then obtain js where js: "sets_J_i ?s i = Some js"
      using sets_J_i_None [of est obras i] by auto
    obtain a where a: "params_w ?p i = Some a"
      using i by (simp add: params_w_define)
    have "traverse (\<lambda>j. case getitem (map_of (vars_x v)) (i, j) of
                          Inl e \<Rightarrow> Inl e
                        | Inr x \<Rightarrow>
                            (case getitem (params_w ?p) i of
                               Inl e \<Rightarrow> Inl e
                             | Inr a \<Rightarrow> Inr (var_mul x a))) js
            = Inr (map (\<lambda>j. var_mul (X i j) a) js)"
    proof (rule traverse_map_Inr)
      fix j assume "j \<in> set js"
      then have "(i, j) \<in> (\<lambda>r. (obra r, cod_dep r)) ` set obras"
        using sets_J_i_Some(4) [OF js] by simp
      then have "getitem (map_of (vars_x v)) (i, j) = Inr (X i j)"
        by (simp add: lookup_x [OF v])
      moreover have "getitem (params_w ?p) i = Inr a" by (simp add: getitem_def a)
      ultimately show "(case getitem (map_of (vars_x v)) (i, j) of
                          Inl e \<Rightarrow> Inl e
                        | Inr x \<Rightarrow>
                            (case getitem (params_w ?p) i of
                               Inl e \<Rightarrow> Inl e
                             | Inr a \<Rightarrow> Inr (var_mul x a))) = Inr (var_mul (X i j) a)"
        by simp
    qed
    moreover have "getitem (sets_J_i ?s) i = Inr js" by (simp add: getitem_def js)
    ultimately show "(case getitem (sets_J_i ?s) i of
                  Inl e \<Rightarrow> Inl e
                | Inr js \<Rightarrow>
                    traverse (\<lambda>j. case getitem (map_of (vars_x v)) (i, j) of
                                     Inl e \<Rightarrow> Inl e
                                   | Inr x \<Rightarrow>
                                       (case getitem (params_w ?p) i of
                                          Inl e \<Rightarrow> Inl e
                                        | Inr a \<Rightarrow> Inr (var_mul x a))) js)
        = Inr (map (\<lambda>j. var_mul (X i j) (the (params_w ?p i))) (the (sets_J_i ?s i)))"
      by (simp add: js a)
  qed
  then show ?thesis by (simp add: set_obj_priority_def)
qed

lemma create_constraints_define_sets:
  assumes v: "create_decision_variables (define_sets est obras) mdl = (Inr v, mdl')"
  shows "\<exists>cs. m_constrs (snd (create_constraints (define_sets est obras)
                   (define_parameters est obras ct) v mdl1))
           = m_constrs mdl1
             @ map (\<lambda>i. \<lparr> c_lhs = quicksum (map (\<lambda>j. var_expr (X i j))
                                       (the (sets_J_i (define_sets est obras) i))),
                         c_sense = LE, c_rhs = const_expr 1, c_name = C1_OneExecution i \<rparr>)
                 (sets_I (define_sets est obras))
             @ cs \<and>
         (\<forall>c \<in> set cs. \<exists>m \<in> e_cod_mat ` set est. \<exists>j \<in> e_cod_dep ` set est.
              stock_balance (define_sets est obras) (define_parameters est obras ct) v (m, j)
                = Inr c)"
    and "m_vars (snd (create_constraints (define_sets est obras)
                   (define_parameters est obras ct) v mdl1)) = m_vars mdl1"
    and "m_objective (snd (create_constraints (define_sets est obras)
                   (define_parameters est obras ct) v mdl1)) = m_objective mdl1"
    and "fst (create_constraints (define_sets est obras)
                   (define_parameters est obras ct) v mdl1)
           = (if e_cod_dep ` set est \<subseteq> cod_dep ` set obras then None else Some KeyError)"
proof -
  let ?s = "define_sets est obras"
  let ?p = "define_parameters est obras ct"
  let ?g = "\<lambda>i. \<lparr> c_lhs = quicksum (map (\<lambda>j. var_expr (X i j)) (the (sets_J_i ?s i))),
                  c_sense = LE, c_rhs = const_expr 1, c_name = C1_OneExecution i \<rparr>"
  let ?mdl2 = "mdl1\<lparr> m_constrs := m_constrs mdl1 @ map ?g (sets_I ?s) \<rparr>"
  let ?mj = "[(m, j). m \<leftarrow> sets_M ?s, j \<leftarrow> sets_J ?s]"
  have one: "add_constrs (one_execution ?s v) (sets_I ?s) mdl1 = (None, ?mdl2)"
  proof (rule add_constrs_all)
    fix i assume "i \<in> set (sets_I ?s)"
    then obtain js where js: "sets_J_i ?s i = Some js"
      using sets_J_i_None [of est obras i] by (auto simp: sets_I_define)
    show "one_execution ?s v i = Inr (?g i)"
      using one_execution_define_sets [OF v js] by (simp add: js)
  qed
  have cc: "create_constraints ?s ?p v mdl1 = add_constrs (stock_balance ?s ?p v) ?mj ?mdl2"
    by (simp add: create_constraints_def one)
  have mj: "set ?mj = e_cod_mat ` set est \<times> e_cod_dep ` set est"
    using sets_J_define [of est obras] sets_M_define [of est obras] by auto
  obtain cs where cs: "m_constrs (snd (add_constrs (stock_balance ?s ?p v) ?mj ?mdl2))
                         = m_constrs ?mdl2 @ cs"
    "\<forall>c \<in> set cs. \<exists>a \<in> set ?mj. stock_balance ?s ?p v a = Inr c"
    "m_vars (snd (add_constrs (stock_balance ?s ?p v) ?mj ?mdl2)) = m_vars ?mdl2"
    "m_objective (snd (add_constrs (stock_balance ?s ?p v) ?mj ?mdl2)) = m_objective ?mdl2"
    using add_constrs_model [of "stock_balance ?s ?p v" ?mj ?mdl2] by (elim exE conjE)
  have "\<forall>c \<in> set cs. \<exists>m \<in> e_cod_mat ` set est. \<exists>j \<in> e_cod_dep ` set est.
              stock_balance ?s ?p v (m, j) = Inr c"
    using cs(2) unfolding mj by fast
  moreover have "m_constrs (snd (create_constraints ?s ?p v mdl1))
                   = m_constrs mdl1 @ map ?g (sets_I ?s) @ cs"
    using cs(1) by (simp add: cc)
  ultimately show "\<exists>cs. m_constrs (snd (create_constraints ?s ?p v mdl1))
           = m_constrs mdl1 @ map ?g (sets_I ?s) @ cs \<and>
         (\<forall>c \<in> set cs. \<exists>m \<in> e_cod_mat ` set est. \<exists>j \<in> e_cod_dep ` set est.
              stock_balance ?s ?p v (m, j) = Inr c)"
    by blast
  show "m_vars (snd (create_constraints ?s ?p v mdl1)) = m_vars mdl1"
    using cs(3) by (simp add: cc)
  show "m_objective (snd (create_constraints ?s ?p v mdl1)) = m_objective mdl1"
    using cs(4) by (simp add: cc)
  show "fst (create_constraints ?s ?p v mdl1)
           = (if e_cod_dep ` set est \<subseteq> cod_dep ` set obras then None else Some KeyError)"
  proof (cases "e_cod_dep ` set est \<subseteq> cod_dep ` set obras")
    case True
    have "\<forall>a \<in> set ?mj. \<exists>c. stock_balance ?s ?p v a = Inr c"
    proof
      fix a assume "a \<in> set ?mj"
      then obtain m j where a: "a = (m, j)" and m: "m \<in> e_cod_mat ` set est"
        and j: "j \<in> e_cod_dep ` set est" unfolding mj by auto
      from j True obtain tasks where "sets_I_j ?s j = Some tasks"
        using sets_I_j_None [of est obras j] by auto
      from stock_balance_define_sets [OF v this m j, of ct]
      show "\<exists>c. stock_balance ?s ?p v a = Inr c" unfolding a by (rule exI)
    qed
    then have "fst (add_constrs (stock_balance ?s ?p v) ?mj ?mdl2) = None"
      by (simp only: add_constrs_None)
    with True show ?thesis by (simp add: cc)
  next
    case False
    then obtain j where j: "j \<in> e_cod_dep ` set est" "j \<notin> cod_dep ` set obras" by auto
    then obtain r where "r \<in> set est" "e_cod_dep r = j" by auto
    then have a: "(e_cod_mat r, j) \<in> set ?mj" unfolding mj by auto
    have "stock_balance ?s ?p v (e_cod_mat r, j) = Inl KeyError"
      using j(2) by (rule stock_balance_KeyError)
    with a have "\<not> (\<forall>a \<in> set ?mj. \<exists>c. stock_balance ?s ?p v a = Inr c)" by force
    then have "fst (add_constrs (stock_balance ?s ?p v) ?mj ?mdl2) \<noteq> None"
      unfolding add_constrs_None .
    then obtain e where e: "fst (add_constrs (stock_balance ?s ?p v) ?mj ?mdl2) = Some e"
      by auto
    from add_constrs_Some [OF e] obtain b where b: "b \<in> set ?mj" "stock_balance ?s ?p v b = Inl e"
      by auto
    obtain m' j' where b': "b = (m', j')" and m': "m' \<in> e_cod_mat ` set est"
        and j': "j' \<in> e_cod_dep ` set est" using b(1) unfolding mj by auto
    have "e = KeyError"
    proof (cases "sets_I_j ?s j'")
      case None
      then have "j' \<notin> cod_dep ` set obras" by (simp add: sets_I_j_None)
      from stock_balance_KeyError [OF this, of est ?p v m'] b(2) show ?thesis
        by (simp add: b')
    next
      case (Some tasks)
      from stock_balance_define_sets [OF v Some m' j', of ct] b(2) show ?thesis
        by (simp add: b')
    qed
    with e False show ?thesis by (simp add: cc)
  qed
qed

lemma run_define_sets:
  assumes v: "create_decision_variables (define_sets est obras) Model = (Inr v, mdl1)"
  shows "e_cod_dep ` set est \<subseteq> cod_dep ` set obras \<Longrightarrow>
      run optimize est obras ct =
        (let mdl3 = setObjective
              (quicksum (concat (map
                 (\<lambda>i. map (\<lambda>j. var_mul (X i j)
                               (the (params_w (define_parameters est obras ct) i)))
                        (the (sets_J_i (define_sets est obras) i)))
                 (sets_I (define_sets est obras))))) MAXIMIZE
              (snd (create_constraints (define_sets est obras)
                     (define_parameters est obras ct) v mdl1))
         in (fst (generate_results v (optimize mdl3) obras []), mdl3,
             snd (generate_results v (optimize mdl3) obras [])))"
    and "\<not> e_cod_dep ` set est \<subseteq> cod_dep ` set obras \<Longrightarrow>
      run optimize est obras ct =
        (Some KeyError,
         snd (create_constraints (define_sets est obras) (define_parameters est obras ct) v mdl1),
         [])"
proof -
  let ?s = "define_sets est obras"
  let ?p = "define_parameters est obras ct"
  obtain r mdl2 where cc: "create_constraints ?s ?p v mdl1 = (r, mdl2)"
    by (cases "create_constraints ?s ?p v mdl1")
  have r: "r = (if e_cod_dep ` set est \<subseteq> cod_dep ` set obras then None else Some KeyError)"
    using create_constraints_define_sets(4) [OF v, of ct mdl1] by (simp add: cc)
  {
    assume sub: "e_cod_dep ` set est \<subseteq> cod_dep ` set obras"
    show "run optimize est obras ct =
        (let mdl3 = setObjective
              (quicksum (concat (map
                 (\<lambda>i. map (\<lambda>j. var_mul (X i j) (the (params_w ?p i)))
                        (the (sets_J_i ?s i)))
                 (sets_I ?s)))) MAXIMIZE
              (snd (create_constraints ?s ?p v mdl1))
         in (fst (generate_results v (optimize mdl3) obras []), mdl3,
             snd (generate_results v (optimize mdl3) obras [])))"
      unfolding run_def Let_def v prod.case sum.case cc
      using sub r by (simp add: set_obj_priority_define_sets [OF v] split: prod.splits)
  }
  {
    assume nsub: "\<not> e_cod_dep ` set est \<subseteq> cod_dep ` set obras"
    show "run optimize est obras ct = (Some KeyError, snd (create_constraints ?s ?p v mdl1), [])"
      unfolding run_def Let_def v prod.case sum.case cc
      using nsub r by simp
  }
qed

lemma run_model:
  assumes v: "create_decision_variables (define_sets est obras) Model = (Inr v, mdl1)"
  shows "m_constrs (fst (snd (run optimize est obras ct)))
           = m_constrs (snd (create_constraints (define_sets est obras)
                              (define_parameters est obras ct) v mdl1))"
    and "m_vars (fst (snd (run optimize est obras ct))) = m_vars mdl1"
proof -
  show "m_constrs (fst (snd (run optimize est obras ct)))
           = m_constrs (snd (create_constraints (define_sets est obras)
                              (define_parameters est obras ct) v mdl1))"
    by (cases "e_cod_dep ` set est \<subseteq> cod_dep ` set obras")
      (simp_all add: run_define_sets [OF v] Let_def setObjective_def)
  show "m_vars (fst (snd (run optimize est obras ct))) = m_vars mdl1"
    by (cases "e_cod_dep ` set est \<subseteq> cod_dep ` set obras")
      (simp_all add: run_define_sets [OF v] Let_def setObjective_def
         create_constraints_define_sets(2) [OF v])
qed

lemma filter_name_map:
  assumes "distinct xs" and "x \<in> set xs"
    and "\<And>y. y \<in> set xs \<Longrightarrow> (c_name (g y) = n) = (y = x)"
  shows "filter (\<lambda>c. c_name c = n) (map g xs) = [g x]"
  using assms
proof (induction xs)
  case Nil
  then show ?case by simp
next
  case (Cons y ys)
  show ?case
  proof (cases "y = x")
    case True
    then have "x \<notin> set ys" using Cons.prems(1) by simp
    then have "filter (\<lambda>c. c_name c = n) (map g ys) = []"
      using Cons.prems(3) by (auto simp: filter_empty_conv)
    then show ?thesis using True Cons.prems(3) [of y] by simp
  next
    case False
    then have "x \<in> set ys" using Cons.prems(2) by simp
    moreover have "distinct ys" using Cons.prems(1) by simp
    ultimately have "filter (\<lambda>c. c_name c = n) (map g ys) = [g x]"
      using Cons.IH Cons.prems(3) by simp
    then show ?thesis using False Cons.prems(3) [of y] by simp
  qed
qed

lemma card_ones_le_sum:
  fixes f :: "'a \<Rightarrow> real"
  assumes "finite A" and "\<And>a. a \<in> A \<Longrightarrow> f a = 0 \<or> f a = 1"
  shows "real (card {a \<in> A. f a = 1}) \<le> sum f A"
proof -
  have "real (card {a \<in> A. f a = 1}) = sum f {a \<in> A. f a = 1}" by simp
  also have "\<dots> \<le> sum f A"
  proof (rule sum_mono2)
    show "finite A" by fact
    show "{a \<in> A. f a = 1} \<subseteq> A" by auto
    fix b assume "b \<in> A - {a \<in> A. f a = 1}"
    then show "0 \<le> f b" using assms(2) [of b] by auto
  qed
  finally show ?thesis .
qed

lemma stock_balance_name:
  "stock_balance s p v (m, j) = Inr c \<Longrightarrow> c_name c = C2_StockBalance m j \<and> c_sense c = LE"
  unfolding stock_balance_def Let_def prod.case
  by (auto split: sum.splits)

section \<open>The claims about the model\<close>

text \<open>
  Claim C3. For every task \<open>i\<close> of the derived task set, the model the run builds holds
  exactly one constraint named \<^verbatim>\<open>C1_OneExecution_i\<close>; it states that the sum of \<open>x[i, j]\<close> over
  the sites \<open>j\<close> of \<open>J_i[i]\<close> is at most 1. So under every feasible assignment each
  \<open>x[i, j]\<close> is 0 or 1 and at most one site \<open>j\<close> of \<open>J_i[i]\<close> has \<open>x[i, j] = 1\<close>: the task is
  executed at one candidate site or not at all. This holds whether or not the run later
  stops with an exception.
\<close>

theorem one_execution_constraint:
  assumes i: "i \<in> set (sets_I (define_sets est obras))"
  shows "\<exists>js c. sets_J_i (define_sets est obras) i = Some js \<and>
     filter (\<lambda>c. c_name c = C1_OneExecution i)
       (m_constrs (fst (snd (run optimize est obras ct)))) = [c] \<and>
     c_sense c = LE \<and>
     (\<forall>val. eval val (c_lhs c) = (\<Sum>j \<in> set js. val (X i j))) \<and>
     (\<forall>val. eval val (c_rhs c) = 1) \<and>
     (\<forall>val. feasible (fst (snd (run optimize est obras ct))) val \<longrightarrow>
        (\<Sum>j \<in> set js. val (X i j)) \<le> 1 \<and>
        (\<forall>j \<in> set js. val (X i j) = 0 \<or> val (X i j) = 1) \<and>
        card {j \<in> set js. val (X i j) = 1} \<le> 1)"
proof -
  let ?s = "define_sets est obras"
  let ?p = "define_parameters est obras ct"
  let ?mdl = "fst (snd (run optimize est obras ct))"
  let ?g = "\<lambda>i. \<lparr> c_lhs = quicksum (map (\<lambda>j. var_expr (X i j)) (the (sets_J_i ?s i))),
                  c_sense = LE, c_rhs = const_expr 1, c_name = C1_OneExecution i \<rparr>"
  obtain v mdl1 ks ts where
    v: "create_decision_variables ?s Model = (Inr v, mdl1)"
    and x: "vars_x v = map (\<lambda>k. (k, X (fst k) (snd k))) ks"
      "set ks = (\<lambda>r. (obra r, cod_dep r)) ` set obras"
    and mv: "m_vars mdl1 = m_vars Model @ map (\<lambda>k. (snd k, BINARY, 0)) (vars_x v)
                     @ map (\<lambda>k. (snd k, CONTINUOUS, 0)) (vars_t v)"
    and mc: "m_constrs mdl1 = m_constrs Model"
    using create_decision_variables_define_sets [of est obras Model] by (elim exE conjE)
  obtain js where js: "sets_J_i ?s i = Some js"
    using i sets_J_i_None [of est obras i] by (auto simp: sets_I_define)
  have djs: "distinct js" using sets_J_i_Some(2) [OF js] .
  obtain cs where cs: "m_constrs (snd (create_constraints ?s ?p v mdl1))
           = m_constrs mdl1 @ map ?g (sets_I ?s) @ cs"
    and cs2: "\<forall>c \<in> set cs. \<exists>m \<in> e_cod_mat ` set est. \<exists>j \<in> e_cod_dep ` set est.
              stock_balance ?s ?p v (m, j) = Inr c"
    using create_constraints_define_sets(1) [OF v, of ct mdl1] by (elim exE conjE)
  have constrs: "m_constrs ?mdl = map ?g (sets_I ?s) @ cs"
    by (simp add: run_model(1) [OF v] cs mc Model_def)
  have "filter (\<lambda>c. c_name c = C1_OneExecution i) cs = []"
  proof -
    have "c_name c \<noteq> C1_OneExecution i" if "c \<in> set cs" for c
    proof -
      from cs2 that have "\<exists>m \<in> e_cod_mat ` set est. \<exists>j \<in> e_cod_dep ` set est.
              stock_balance ?s ?p v (m, j) = Inr c" by (rule bspec)
      then obtain m j where "stock_balance ?s ?p v (m, j) = Inr c" by (elim bexE)
      then have "c_name c = C2_StockBalance m j" by (simp add: stock_balance_name)
      then show ?thesis by simp
    qed
    then show ?thesis by (simp add: filter_empty_conv)
  qed
  moreover have "filter (\<lambda>c. c_name c = C1_OneExecution i) (map ?g (sets_I ?s)) = [?g i]"
    by (rule filter_name_map) (use i in \<open>auto simp: distinct_sets_I\<close>)
  ultimately have f: "filter (\<lambda>c. c_name c = C1_OneExecution i) (m_constrs ?mdl) = [?g i]"
    by (simp add: constrs)
  have lhs: "eval val (c_lhs (?g i)) = (\<Sum>j \<in> set js. val (X i j))" for val
    using eval_one_execution_lhs [OF djs, of val i] by (simp add: js)
  have rhs: "eval val (c_rhs (?g i)) = 1" for val
    by (simp add: eval_const_expr)
  have feas: "(\<Sum>j \<in> set js. val (X i j)) \<le> 1 \<and>
        (\<forall>j \<in> set js. val (X i j) = 0 \<or> val (X i j) = 1) \<and>
        card {j \<in> set js. val (X i j) = 1} \<le> 1"
    if fe: "feasible ?mdl val" for val
  proof -
    have "?g i \<in> set (m_constrs ?mdl)"
      using i by (simp add: constrs)
    then have "holds val (?g i)"
      using fe by (simp add: feasible_def list_all_iff)
    then have le: "(\<Sum>j \<in> set js. val (X i j)) \<le> 1"
      using lhs [of val] rhs [of val] by (simp add: holds_def)
    have bin: "val (X i j) = 0 \<or> val (X i j) = 1" if "j \<in> set js" for j
    proof -
      have "(i, j) \<in> set ks" using that sets_J_i_Some(4) [OF js] x(2) by simp
      then have "(\<lambda>k. (k, X (fst k) (snd k))) (i, j) \<in> set (vars_x v)"
        unfolding x(1) set_map by (rule imageI)
      then have "(\<lambda>k. (snd k, BINARY, 0 :: int)) ((i, j), X i j)
                   \<in> (\<lambda>k. (snd k, BINARY, 0)) ` set (vars_x v)"
        by (intro imageI) simp
      then have "(X i j, BINARY, 0) \<in> set (m_vars ?mdl)"
        unfolding run_model(2) [OF v] mv by simp
      then have "in_domain val (X i j, BINARY, 0)"
        using fe by (simp add: feasible_def list_all_iff)
      then show ?thesis by (simp add: in_domain_def)
    qed
    have "real (card {j \<in> set js. val (X i j) = 1}) \<le> (\<Sum>j \<in> set js. val (X i j))"
      by (rule card_ones_le_sum) (use bin in auto)
    with le have c1: "card {j \<in> set js. val (X i j) = 1} \<le> 1" by linarith
    from bin have "\<forall>j \<in> set js. val (X i j) = 0 \<or> val (X i j) = 1" by (rule ballI)
    with le c1 show ?thesis by (intro conjI)
  qed
  have "sets_J_i (define_sets est obras) i = Some js \<and>
     filter (\<lambda>c. c_name c = C1_OneExecution i) (m_constrs ?mdl) = [?g i] \<and>
     c_sense (?g i) = LE \<and>
     (\<forall>val. eval val (c_lhs (?g i)) = (\<Sum>j \<in> set js. val (X i j))) \<and>
     (\<forall>val. eval val (c_rhs (?g i)) = 1) \<and>
     (\<forall>val. feasible ?mdl val \<longrightarrow>
        (\<Sum>j \<in> set js. val (X i j)) \<le> 1 \<and>
        (\<forall>j \<in> set js. val (X i j) = 0 \<or> val (X i j) = 1) \<and>
        card {j \<in> set js. val (X i j) = 1} \<le> 1)"
  proof (intro conjI allI impI ballI)
    show "sets_J_i (define_sets est obras) i = Some js" by (rule js)
    show "filter (\<lambda>c. c_name c = C1_OneExecution i) (m_constrs ?mdl) = [?g i]" by (rule f)
    show "c_sense (?g i) = LE" by simp
    show "eval val (c_lhs (?g i)) = (\<Sum>j \<in> set js. val (X i j))" for val by (rule lhs)
    show "eval val (c_rhs (?g i)) = 1" for val by (rule rhs)
    show "(\<Sum>j \<in> set js. val (X i j)) \<le> 1" if "feasible ?mdl val" for val
      using feas [OF that] by (elim conjE)
    show "val (X i j) = 0 \<or> val (X i j) = 1" if "feasible ?mdl val" "j \<in> set js" for val j
      using feas [OF that(1)] that(2) by (elim conjE) (rule bspec)
    show "card {j \<in> set js. val (X i j) = 1} \<le> 1" if "feasible ?mdl val" for val
      using feas [OF that] by (elim conjE)
  qed
  then show ?thesis by - (rule exI, rule exI, assumption)
qed

theorem one_execution_constraint_witness:
  "2 \<in> set (sets_I (define_sets
       [\<lparr>e_cod_dep = 1, e_cod_mat = 1, estoque = 10\<rparr>,
        \<lparr>e_cod_dep = 2, e_cod_mat = 1, estoque = 5\<rparr>]
       [\<lparr>obra = 1, cod_dep = 1, prioridade = 5, cod_mat = 1, qtd_dem = 4\<rparr>,
        \<lparr>obra = 2, cod_dep = 1, prioridade = 3, cod_mat = 1, qtd_dem = 2\<rparr>,
        \<lparr>obra = 2, cod_dep = 2, prioridade = 3, cod_mat = 1, qtd_dem = 2\<rparr>])) \<and>
   (\<exists>js c. sets_J_i (define_sets
       [\<lparr>e_cod_dep = 1, e_cod_mat = 1, estoque = 10\<rparr>,
        \<lparr>e_cod_dep = 2, e_cod_mat = 1, estoque = 5\<rparr>]
       [\<lparr>obra = 1, cod_dep = 1, prioridade = 5, cod_mat = 1, qtd_dem = 4\<rparr>,
        \<lparr>obra = 2, cod_dep = 1, prioridade = 3, cod_mat = 1, qtd_dem = 2\<rparr>,
        \<lparr>obra = 2, cod_dep = 2, prioridade = 3, cod_mat = 1, qtd_dem = 2\<rparr>]) 2 = Some js \<and>
     js = [1, 2] \<and>
     filter (\<lambda>c. c_name c = C1_OneExecution 2)
       (m_constrs (fst (snd (run (\<lambda>mdl. \<lparr>sr_status = OPTIMAL, sr_solution = Some (\<lambda>x. 0)\<rparr>)
       [\<lparr>e_cod_dep = 1, e_cod_mat = 1, estoque = 10\<rparr>,
        \<lparr>e_cod_dep = 2, e_cod_mat = 1, estoque = 5\<rparr>]
       [\<lparr>obra = 1, cod_dep = 1, prioridade = 5, cod_mat = 1, qtd_dem = 4\<rparr>,
        \<lparr>obra = 2, cod_dep = 1, prioridade = 3, cod_mat = 1, qtd_dem = 2\<rparr>,
        \<lparr>obra = 2, cod_dep = 2, prioridade = 3, cod_mat = 1, qtd_dem = 2\<rparr>] ())))) = [c] \<and>
     (\<forall>val. eval val (c_lhs c) = (\<Sum>j \<in> set js. val (X 2 j))) \<and>
     (\<forall>val. eval val (c_rhs c) = 1) \<and>
     feasible (fst (snd (run (\<lambda>mdl. \<lparr>sr_status = OPTIMAL, sr_solution = Some (\<lambda>x. 0)\<rparr>)
       [\<lparr>e_cod_dep = 1, e_cod_mat = 1, estoque = 10\<rparr>,
        \<lparr>e_cod_dep = 2, e_cod_mat = 1, estoque = 5\<rparr>]
       [\<lparr>obra = 1, cod_dep = 1, prioridade = 5, cod_mat = 1, qtd_dem = 4\<rparr>,
        \<lparr>obra = 2, cod_dep = 1, prioridade = 3, cod_mat = 1, qtd_dem = 2\<rparr>,
        \<lparr>obra = 2, cod_dep = 2, prioridade = 3, cod_mat = 1, qtd_dem = 2\<rparr>] ())))
       (\<lambda>x. if x = X 2 1 then 1 else 0) \<and>
     card {j \<in> set js. (\<lambda>x. if x = X 2 1 then 1 else 0 :: real) (X 2 j) = 1} \<le> 1)"
proof -
  let ?est = "[\<lparr>e_cod_dep = 1, e_cod_mat = 1, estoque = 10\<rparr>,
        \<lparr>e_cod_dep = 2, e_cod_mat = 1, estoque = 5\<rparr>]"
  let ?obras = "[\<lparr>obra = 1, cod_dep = 1, prioridade = 5, cod_mat = 1, qtd_dem = 4\<rparr>,
        \<lparr>obra = 2, cod_dep = 1, prioridade = 3, cod_mat = 1, qtd_dem = 2\<rparr>,
        \<lparr>obra = 2, cod_dep = 2, prioridade = 3, cod_mat = 1, qtd_dem = 2\<rparr>]"
  let ?opt = "\<lambda>mdl :: gurobi_model. \<lparr>sr_status = OPTIMAL, sr_solution = Some (\<lambda>x :: var. 0 :: real)\<rparr>"
  have h: "2 \<in> set (sets_I (define_sets ?est ?obras))"
    by (simp add: define_sets_def unique_def drop_duplicates_def)
  have J: "sets_J_i (define_sets ?est ?obras) 2 = Some [1, 2]"
    by (simp add: define_sets_def groupby_agg_def drop_duplicates_def unique_def)
  obtain js c where
    js: "sets_J_i (define_sets ?est ?obras) 2 = Some js"
    and f: "filter (\<lambda>c. c_name c = C1_OneExecution 2)
       (m_constrs (fst (snd (run ?opt ?est ?obras ())))) = [c]"
    and l: "\<forall>val. eval val (c_lhs c) = (\<Sum>j \<in> set js. val (X 2 j))"
    and r: "\<forall>val. eval val (c_rhs c) = 1"
    and fe: "\<forall>val. feasible (fst (snd (run ?opt ?est ?obras ()))) val \<longrightarrow>
        (\<Sum>j \<in> set js. val (X 2 j)) \<le> 1 \<and>
        (\<forall>j \<in> set js. val (X 2 j) = 0 \<or> val (X 2 j) = 1) \<and>
        card {j \<in> set js. val (X 2 j) = 1} \<le> 1"
    using one_execution_constraint [OF h, of ?opt "()"] by (elim exE conjE)
  let ?val = "\<lambda>x. if x = X 2 1 then 1 else 0 :: real"
  have feas: "feasible (fst (snd (run ?opt ?est ?obras ()))) ?val"
    by (simp add: run_def define_sets_def define_parameters_def create_decision_variables_def
      create_constraints_def set_obj_priority_def one_execution_def stock_balance_def
      unique_def drop_duplicates_def groupby_agg_def to_dict_def getitem_def Model_def
      wrap_int64_def
      addVars_def addConstr_def setObjective_def quicksum_def add_expr_def const_expr_def
      var_expr_def var_mul_def Let_def feasible_def holds_def eval_def in_domain_def
      split: prod.splits)
  from fe [rule_format, OF feas] have card: "card {j \<in> set js. ?val (X 2 j) = 1} \<le> 1"
    by (elim conjE)
  from js J have "js = [1, 2]" by simp
  with js f l r feas card have "sets_J_i (define_sets ?est ?obras) 2 = Some js \<and>
     js = [1, 2] \<and>
     filter (\<lambda>c. c_name c = C1_OneExecution 2)
       (m_constrs (fst (snd (run ?opt ?est ?obras ())))) = [c] \<and>
     (\<forall>val. eval val (c_lhs c) = (\<Sum>j \<in> set js. val (X 2 j))) \<and>
     (\<forall>val. eval val (c_rhs c) = 1) \<and>
     feasible (fst (snd (run ?opt ?est ?obras ()))) ?val \<and>
     card {j \<in> set js. ?val (X 2 j) = 1} \<le> 1"
    by (intro conjI)
  then have "\<exists>js c. sets_J_i (define_sets ?est ?obras) 2 = Some js \<and>
     js = [1, 2] \<and>
     filter (\<lambda>c. c_name c = C1_OneExecution 2)
       (m_constrs (fst (snd (run ?opt ?est ?obras ())))) = [c] \<and>
     (\<forall>val. eval val (c_lhs c) = (\<Sum>j \<in> set js. val (X 2 j))) \<and>
     (\<forall>val. eval val (c_rhs c) = 1) \<and>
     feasible (fst (snd (run ?opt ?est ?obras ()))) ?val \<and>
     card {j \<in> set js. ?val (X 2 j) = 1} \<le> 1"
    by (intro exI [of _ js] exI [of _ c])
  with h show ?thesis by (rule conjI)
qed

lemma stock_balance_in_model:
  assumes c: "c \<in> set (m_constrs (fst (snd (run optimize est obras ct))))"
    and name: "c_name c = C2_StockBalance m j"
  shows "\<exists>v mdl1 tasks.
     create_decision_variables (define_sets est obras) Model = (Inr v, mdl1) \<and>
     m \<in> e_cod_mat ` set est \<and> j \<in> e_cod_dep ` set est \<and>
     sets_I_j (define_sets est obras) j = Some tasks \<and>
     stock_balance (define_sets est obras) (define_parameters est obras ct) v (m, j) = Inr c"
proof -
  let ?s = "define_sets est obras"
  let ?p = "define_parameters est obras ct"
  let ?mdl = "fst (snd (run optimize est obras ct))"
  let ?g = "\<lambda>i. \<lparr> c_lhs = quicksum (map (\<lambda>j. var_expr (X i j)) (the (sets_J_i ?s i))),
                  c_sense = LE, c_rhs = const_expr 1, c_name = C1_OneExecution i \<rparr>"
  obtain v mdl1 ks ts where
    v: "create_decision_variables ?s Model = (Inr v, mdl1)"
    and mc: "m_constrs mdl1 = m_constrs Model"
    using create_decision_variables_define_sets [of est obras Model] by (elim exE conjE)
  obtain cs where cs: "m_constrs (snd (create_constraints ?s ?p v mdl1))
           = m_constrs mdl1 @ map ?g (sets_I ?s) @ cs"
    and cs2: "\<forall>c \<in> set cs. \<exists>m \<in> e_cod_mat ` set est. \<exists>j \<in> e_cod_dep ` set est.
              stock_balance ?s ?p v (m, j) = Inr c"
    using create_constraints_define_sets(1) [OF v, of ct mdl1] by (elim exE conjE)
  have constrs: "m_constrs ?mdl = map ?g (sets_I ?s) @ cs"
    by (simp add: run_model(1) [OF v] cs mc Model_def)
  have "c \<notin> set (map ?g (sets_I ?s))"
    using name by auto
  with c have "c \<in> set cs" by (simp add: constrs)
  with cs2 have "\<exists>m \<in> e_cod_mat ` set est. \<exists>j \<in> e_cod_dep ` set est.
              stock_balance ?s ?p v (m, j) = Inr c" by (rule bspec)
  then obtain m' j' where m': "m' \<in> e_cod_mat ` set est" and j': "j' \<in> e_cod_dep ` set est"
    and sb': "stock_balance ?s ?p v (m', j') = Inr c" by (elim bexE)
  have "c_name c = C2_StockBalance m' j'" using sb' by (simp add: stock_balance_name)
  with name have "m' = m" "j' = j" by simp_all
  with m' j' sb' have m: "m \<in> e_cod_mat ` set est" and j: "j \<in> e_cod_dep ` set est"
    and sb: "stock_balance ?s ?p v (m, j) = Inr c" by simp_all
  have "sets_I_j ?s j \<noteq> None"
  proof
    assume "sets_I_j ?s j = None"
    then have "j \<notin> cod_dep ` set obras" by (simp add: sets_I_j_None)
    from stock_balance_KeyError [OF this, of est ?p v m] sb show False by simp
  qed
  then obtain tasks where tasks: "sets_I_j ?s j = Some tasks" by auto
  from v m j tasks sb have "create_decision_variables ?s Model = (Inr v, mdl1) \<and>
     m \<in> e_cod_mat ` set est \<and> j \<in> e_cod_dep ` set est \<and>
     sets_I_j ?s j = Some tasks \<and> stock_balance ?s ?p v (m, j) = Inr c"
    by (intro conjI)
  then show ?thesis by - (rule exI, rule exI, rule exI, assumption)
qed

text \<open>
  Claim C1. Every constraint named \<^verbatim>\<open>C2_StockBalance_m_j\<close> in the model the run builds is a
  \<open>\<le>\<close> constraint. Its left side is the sum of \<open>x[i, j] * q[i, m]\<close> over the tasks \<open>i\<close> of
  \<open>I_j[j]\<close> with \<open>m\<close> in \<open>M_i[i]\<close>, plus the sum of \<open>t[j, k, m]\<close> over the sites \<open>k \<noteq> j\<close>. Its right
  side is \<open>Q[j, m]\<close>, taken as 0 when the dictionary \<open>Q\<close> has no such key, plus the sum of
  \<open>t[k, j, m]\<close> over the sites \<open>k \<noteq> j\<close>. Every \<open>q[i, m]\<close> used is a key of \<open>q\<close>, and \<open>Q\<close> has no
  key for a (site, material) pair that is absent from the Stock relation.
\<close>

theorem stock_balance_constraint_form:
  assumes c: "c \<in> set (m_constrs (fst (snd (run optimize est obras ct))))"
    and name: "c_name c = C2_StockBalance m j"
  shows "\<exists>tasks. sets_I_j (define_sets est obras) j = Some tasks \<and>
     c_sense c = LE \<and>
     (\<forall>val. eval val (c_lhs c) =
        (\<Sum>i \<in> {i \<in> set tasks. \<exists>ms. sets_M_i (define_sets est obras) i = Some ms \<and> m \<in> set ms}.
           val (X i j) * of_int (the (params_q (define_parameters est obras ct) (i, m))))
        + (\<Sum>k \<in> set (sets_J (define_sets est obras)) - {j}. val (T j k m))) \<and>
     (\<forall>val. eval val (c_rhs c) =
        of_int (case params_Q (define_parameters est obras ct) (j, m) of
                  None \<Rightarrow> 0 | Some a \<Rightarrow> a)
        + (\<Sum>k \<in> set (sets_J (define_sets est obras)) - {j}. val (T k j m))) \<and>
     (\<forall>i \<in> set tasks. \<forall>ms. sets_M_i (define_sets est obras) i = Some ms \<and> m \<in> set ms
         \<longrightarrow> params_q (define_parameters est obras ct) (i, m) \<noteq> None) \<and>
     ((j, m) \<notin> (\<lambda>r. (e_cod_dep r, e_cod_mat r)) ` set est
         \<longrightarrow> params_Q (define_parameters est obras ct) (j, m) = None)"
proof -
  let ?s = "define_sets est obras"
  let ?p = "define_parameters est obras ct"
  let ?TM = "(\<lambda>r. (obra r, cod_mat r)) ` set obras"
  let ?q = "\<lambda>i. wrap_int64 (\<Sum>r\<leftarrow>filter (\<lambda>r. obra r = i \<and> cod_mat r = m) obras. qtd_dem r)"
  obtain v mdl1 tasks where
    v: "create_decision_variables ?s Model = (Inr v, mdl1)"
    and m: "m \<in> e_cod_mat ` set est" and j: "j \<in> e_cod_dep ` set est"
    and tasks: "sets_I_j ?s j = Some tasks"
    and sb: "stock_balance ?s ?p v (m, j) = Inr c"
    using stock_balance_in_model [OF c name] by (elim exE conjE)
  have dt: "distinct tasks" using sets_I_j_Some(1) [OF tasks] .
  have dJ: "distinct (sets_J ?s)" by (rule distinct_sets_J)
  have ceq: "c = \<lparr> c_lhs = add_expr
              (quicksum (concat (map (\<lambda>i. if (i, m) \<in> ?TM then [var_mul (X i j) (?q i)] else [])
                 tasks)))
              (quicksum (map (\<lambda>k. var_expr (T j k m)) (filter (\<lambda>k. k \<noteq> j) (sets_J ?s)))),
           c_sense = LE,
           c_rhs = add_expr
              (const_expr (case params_Q ?p (j, m) of None \<Rightarrow> 0 | Some a \<Rightarrow> a))
              (quicksum (map (\<lambda>k. var_expr (T k j m)) (filter (\<lambda>k. k \<noteq> j) (sets_J ?s)))),
           c_name = C2_StockBalance m j \<rparr>"
    using stock_balance_define_sets [OF v tasks m j, of ct] sb by simp
  have Mi: "(\<exists>ms. sets_M_i ?s i = Some ms \<and> m \<in> set ms) \<longleftrightarrow> (i, m) \<in> ?TM" for i
  proof (cases "sets_M_i ?s i")
    case None
    then have "i \<notin> obra ` set obras" by (simp add: sets_M_i_None)
    then have "(i, m) \<notin> ?TM" by auto
    with None show ?thesis by simp
  next
    case (Some ms)
    show ?thesis using sets_M_i_Some [OF Some] Some by simp
  qed
  have q: "params_q ?p (i, m) = Some (?q i)" if "(i, m) \<in> ?TM" for i
    using that by (simp add: params_q_define)
  have lhs: "eval val (c_lhs c) =
        (\<Sum>i \<in> {i \<in> set tasks. \<exists>ms. sets_M_i ?s i = Some ms \<and> m \<in> set ms}.
           val (X i j) * of_int (the (params_q ?p (i, m))))
        + (\<Sum>k \<in> set (sets_J ?s) - {j}. val (T j k m))" for val
  proof -
    have "eval val (c_lhs c) =
        (\<Sum>i \<in> {i \<in> set tasks. (i, m) \<in> ?TM}. val (X i j) * of_int (?q i))
        + (\<Sum>k \<in> set (sets_J ?s) - {j}. val (T j k m))"
      unfolding ceq
      using eval_consumption [OF dt, of val "\<lambda>i. (i, m) \<in> ?TM" j ?q]
        eval_flow [OF dJ, of val "\<lambda>k. T j k m" j]
      by (simp add: eval_add_expr)
    also have "(\<Sum>i \<in> {i \<in> set tasks. (i, m) \<in> ?TM}. val (X i j) * of_int (?q i))
        = (\<Sum>i \<in> {i \<in> set tasks. \<exists>ms. sets_M_i ?s i = Some ms \<and> m \<in> set ms}.
           val (X i j) * of_int (the (params_q ?p (i, m))))"
      unfolding Mi by (rule sum.cong) (simp_all add: q)
    finally show ?thesis .
  qed
  have rhs: "eval val (c_rhs c) =
        of_int (case params_Q ?p (j, m) of None \<Rightarrow> 0 | Some a \<Rightarrow> a)
        + (\<Sum>k \<in> set (sets_J ?s) - {j}. val (T k j m))" for val
    unfolding ceq
    using eval_flow [OF dJ, of val "\<lambda>k. T k j m" j]
    by (simp add: eval_add_expr eval_const_expr)
  have "sets_I_j ?s j = Some tasks \<and>
     c_sense c = LE \<and>
     (\<forall>val. eval val (c_lhs c) =
        (\<Sum>i \<in> {i \<in> set tasks. \<exists>ms. sets_M_i ?s i = Some ms \<and> m \<in> set ms}.
           val (X i j) * of_int (the (params_q ?p (i, m))))
        + (\<Sum>k \<in> set (sets_J ?s) - {j}. val (T j k m))) \<and>
     (\<forall>val. eval val (c_rhs c) =
        of_int (case params_Q ?p (j, m) of None \<Rightarrow> 0 | Some a \<Rightarrow> a)
        + (\<Sum>k \<in> set (sets_J ?s) - {j}. val (T k j m))) \<and>
     (\<forall>i \<in> set tasks. \<forall>ms. sets_M_i ?s i = Some ms \<and> m \<in> set ms
         \<longrightarrow> params_q ?p (i, m) \<noteq> None) \<and>
     ((j, m) \<notin> (\<lambda>r. (e_cod_dep r, e_cod_mat r)) ` set est
         \<longrightarrow> params_Q ?p (j, m) = None)"
  proof (intro conjI allI impI ballI)
    show "sets_I_j ?s j = Some tasks" by (rule tasks)
    show "c_sense c = LE" using sb by (simp add: stock_balance_name)
    show "eval val (c_lhs c) =
        (\<Sum>i \<in> {i \<in> set tasks. \<exists>ms. sets_M_i ?s i = Some ms \<and> m \<in> set ms}.
           val (X i j) * of_int (the (params_q ?p (i, m))))
        + (\<Sum>k \<in> set (sets_J ?s) - {j}. val (T j k m))" for val by (rule lhs)
    show "eval val (c_rhs c) =
        of_int (case params_Q ?p (j, m) of None \<Rightarrow> 0 | Some a \<Rightarrow> a)
        + (\<Sum>k \<in> set (sets_J ?s) - {j}. val (T k j m))" for val by (rule rhs)
    show "params_q ?p (i, m) \<noteq> None"
      if "i \<in> set tasks" "sets_M_i ?s i = Some ms \<and> m \<in> set ms" for i ms
    proof -
      have "(i, m) \<in> ?TM" using that(2) Mi [of i] by blast
      then show ?thesis by (simp add: q)
    qed
    show "params_Q ?p (j, m) = None"
      if "(j, m) \<notin> (\<lambda>r. (e_cod_dep r, e_cod_mat r)) ` set est"
      using that by (simp add: params_Q_None)
  qed
  then show ?thesis by (rule exI)
qed

theorem stock_balance_constraint_form_witness:
  "\<lparr>c_lhs = \<lparr>le_terms = [(4, X 1 1), (4, X 2 1), (1, T 1 2 1)], le_const = 0\<rparr>,
      c_sense = LE, c_rhs = \<lparr>le_terms = [(1, T 2 1 1)], le_const = 10\<rparr>,
      c_name = C2_StockBalance 1 1\<rparr>
     \<in> set (m_constrs (fst (snd (run (\<lambda>mdl. \<lparr>sr_status = OPTIMAL, sr_solution = Some (\<lambda>x. 0)\<rparr>)
        [\<lparr>e_cod_dep = 1, e_cod_mat = 1, estoque = 10\<rparr>,
        \<lparr>e_cod_dep = 2, e_cod_mat = 1, estoque = 5\<rparr>]
        [\<lparr>obra = 1, cod_dep = 1, prioridade = 5, cod_mat = 1, qtd_dem = 4\<rparr>,
        \<lparr>obra = 2, cod_dep = 1, prioridade = 3, cod_mat = 1, qtd_dem = 2\<rparr>,
        \<lparr>obra = 2, cod_dep = 2, prioridade = 3, cod_mat = 1, qtd_dem = 2\<rparr>] ())))) \<and>
   c_name \<lparr>c_lhs = \<lparr>le_terms = [(4, X 1 1), (4, X 2 1), (1, T 1 2 1)], le_const = 0\<rparr>,
      c_sense = LE, c_rhs = \<lparr>le_terms = [(1, T 2 1 1)], le_const = 10\<rparr>,
      c_name = C2_StockBalance 1 1\<rparr> = C2_StockBalance 1 1 \<and>
   (\<exists>tasks. sets_I_j (define_sets [\<lparr>e_cod_dep = 1, e_cod_mat = 1, estoque = 10\<rparr>,
        \<lparr>e_cod_dep = 2, e_cod_mat = 1, estoque = 5\<rparr>] [\<lparr>obra = 1, cod_dep = 1, prioridade = 5, cod_mat = 1, qtd_dem = 4\<rparr>,
        \<lparr>obra = 2, cod_dep = 1, prioridade = 3, cod_mat = 1, qtd_dem = 2\<rparr>,
        \<lparr>obra = 2, cod_dep = 2, prioridade = 3, cod_mat = 1, qtd_dem = 2\<rparr>]) 1 = Some tasks \<and>
     c_sense \<lparr>c_lhs = \<lparr>le_terms = [(4, X 1 1), (4, X 2 1), (1, T 1 2 1)], le_const = 0\<rparr>,
      c_sense = LE, c_rhs = \<lparr>le_terms = [(1, T 2 1 1)], le_const = 10\<rparr>,
      c_name = C2_StockBalance 1 1\<rparr> = LE \<and>
     (\<forall>val. eval val (c_lhs \<lparr>c_lhs = \<lparr>le_terms = [(4, X 1 1), (4, X 2 1), (1, T 1 2 1)], le_const = 0\<rparr>,
      c_sense = LE, c_rhs = \<lparr>le_terms = [(1, T 2 1 1)], le_const = 10\<rparr>,
      c_name = C2_StockBalance 1 1\<rparr>) =
        (\<Sum>i \<in> {i \<in> set tasks. \<exists>ms. sets_M_i (define_sets [\<lparr>e_cod_dep = 1, e_cod_mat = 1, estoque = 10\<rparr>,
        \<lparr>e_cod_dep = 2, e_cod_mat = 1, estoque = 5\<rparr>] [\<lparr>obra = 1, cod_dep = 1, prioridade = 5, cod_mat = 1, qtd_dem = 4\<rparr>,
        \<lparr>obra = 2, cod_dep = 1, prioridade = 3, cod_mat = 1, qtd_dem = 2\<rparr>,
        \<lparr>obra = 2, cod_dep = 2, prioridade = 3, cod_mat = 1, qtd_dem = 2\<rparr>]) i = Some ms \<and> 1 \<in> set ms}.
           val (X i 1) * of_int (the (params_q (define_parameters [\<lparr>e_cod_dep = 1, e_cod_mat = 1, estoque = 10\<rparr>,
        \<lparr>e_cod_dep = 2, e_cod_mat = 1, estoque = 5\<rparr>] [\<lparr>obra = 1, cod_dep = 1, prioridade = 5, cod_mat = 1, qtd_dem = 4\<rparr>,
        \<lparr>obra = 2, cod_dep = 1, prioridade = 3, cod_mat = 1, qtd_dem = 2\<rparr>,
        \<lparr>obra = 2, cod_dep = 2, prioridade = 3, cod_mat = 1, qtd_dem = 2\<rparr>] ()) (i, 1))))
        + (\<Sum>k \<in> set (sets_J (define_sets [\<lparr>e_cod_dep = 1, e_cod_mat = 1, estoque = 10\<rparr>,
        \<lparr>e_cod_dep = 2, e_cod_mat = 1, estoque = 5\<rparr>] [\<lparr>obra = 1, cod_dep = 1, prioridade = 5, cod_mat = 1, qtd_dem = 4\<rparr>,
        \<lparr>obra = 2, cod_dep = 1, prioridade = 3, cod_mat = 1, qtd_dem = 2\<rparr>,
        \<lparr>obra = 2, cod_dep = 2, prioridade = 3, cod_mat = 1, qtd_dem = 2\<rparr>])) - {1}. val (T 1 k 1))) \<and>
     (\<forall>val. eval val (c_rhs \<lparr>c_lhs = \<lparr>le_terms = [(4, X 1 1), (4, X 2 1), (1, T 1 2 1)], le_const = 0\<rparr>,
      c_sense = LE, c_rhs = \<lparr>le_terms = [(1, T 2 1 1)], le_const = 10\<rparr>,
      c_name = C2_StockBalance 1 1\<rparr>) =
        of_int (case params_Q (define_parameters [\<lparr>e_cod_dep = 1, e_cod_mat = 1, estoque = 10\<rparr>,
        \<lparr>e_cod_dep = 2, e_cod_mat = 1, estoque = 5\<rparr>] [\<lparr>obra = 1, cod_dep = 1, prioridade = 5, cod_mat = 1, qtd_dem = 4\<rparr>,
        \<lparr>obra = 2, cod_dep = 1, prioridade = 3, cod_mat = 1, qtd_dem = 2\<rparr>,
        \<lparr>obra = 2, cod_dep = 2, prioridade = 3, cod_mat = 1, qtd_dem = 2\<rparr>] ()) (1, 1) of
                  None \<Rightarrow> 0 | Some a \<Rightarrow> a)
        + (\<Sum>k \<in> set (sets_J (define_sets [\<lparr>e_cod_dep = 1, e_cod_mat = 1, estoque = 10\<rparr>,
        \<lparr>e_cod_dep = 2, e_cod_mat = 1, estoque = 5\<rparr>] [\<lparr>obra = 1, cod_dep = 1, prioridade = 5, cod_mat = 1, qtd_dem = 4\<rparr>,
        \<lparr>obra = 2, cod_dep = 1, prioridade = 3, cod_mat = 1, qtd_dem = 2\<rparr>,
        \<lparr>obra = 2, cod_dep = 2, prioridade = 3, cod_mat = 1, qtd_dem = 2\<rparr>])) - {1}. val (T k 1 1))) \<and>
     (\<forall>i \<in> set tasks. \<forall>ms. sets_M_i (define_sets [\<lparr>e_cod_dep = 1, e_cod_mat = 1, estoque = 10\<rparr>,
        \<lparr>e_cod_dep = 2, e_cod_mat = 1, estoque = 5\<rparr>] [\<lparr>obra = 1, cod_dep = 1, prioridade = 5, cod_mat = 1, qtd_dem = 4\<rparr>,
        \<lparr>obra = 2, cod_dep = 1, prioridade = 3, cod_mat = 1, qtd_dem = 2\<rparr>,
        \<lparr>obra = 2, cod_dep = 2, prioridade = 3, cod_mat = 1, qtd_dem = 2\<rparr>]) i = Some ms \<and> 1 \<in> set ms
         \<longrightarrow> params_q (define_parameters [\<lparr>e_cod_dep = 1, e_cod_mat = 1, estoque = 10\<rparr>,
        \<lparr>e_cod_dep = 2, e_cod_mat = 1, estoque = 5\<rparr>] [\<lparr>obra = 1, cod_dep = 1, prioridade = 5, cod_mat = 1, qtd_dem = 4\<rparr>,
        \<lparr>obra = 2, cod_dep = 1, prioridade = 3, cod_mat = 1, qtd_dem = 2\<rparr>,
        \<lparr>obra = 2, cod_dep = 2, prioridade = 3, cod_mat = 1, qtd_dem = 2\<rparr>] ()) (i, 1) \<noteq> None) \<and>
     ((1, 1) \<notin> (\<lambda>r. (e_cod_dep r, e_cod_mat r)) ` set [\<lparr>e_cod_dep = 1, e_cod_mat = 1, estoque = 10\<rparr>,
        \<lparr>e_cod_dep = 2, e_cod_mat = 1, estoque = 5\<rparr>]
         \<longrightarrow> params_Q (define_parameters [\<lparr>e_cod_dep = 1, e_cod_mat = 1, estoque = 10\<rparr>,
        \<lparr>e_cod_dep = 2, e_cod_mat = 1, estoque = 5\<rparr>] [\<lparr>obra = 1, cod_dep = 1, prioridade = 5, cod_mat = 1, qtd_dem = 4\<rparr>,
        \<lparr>obra = 2, cod_dep = 1, prioridade = 3, cod_mat = 1, qtd_dem = 2\<rparr>,
        \<lparr>obra = 2, cod_dep = 2, prioridade = 3, cod_mat = 1, qtd_dem = 2\<rparr>] ()) (1, 1) = None))"
proof -
  let ?est = "[\<lparr>e_cod_dep = 1, e_cod_mat = 1, estoque = 10\<rparr>,
        \<lparr>e_cod_dep = 2, e_cod_mat = 1, estoque = 5\<rparr>]"
  let ?obras = "[\<lparr>obra = 1, cod_dep = 1, prioridade = 5, cod_mat = 1, qtd_dem = 4\<rparr>,
        \<lparr>obra = 2, cod_dep = 1, prioridade = 3, cod_mat = 1, qtd_dem = 2\<rparr>,
        \<lparr>obra = 2, cod_dep = 2, prioridade = 3, cod_mat = 1, qtd_dem = 2\<rparr>]"
  let ?opt = "\<lambda>mdl :: gurobi_model. \<lparr>sr_status = OPTIMAL, sr_solution = Some (\<lambda>x :: var. 0 :: real)\<rparr>"
  let ?c = "\<lparr>c_lhs = \<lparr>le_terms = [(4, X 1 1), (4, X 2 1), (1, T 1 2 1)], le_const = 0\<rparr>,
      c_sense = LE, c_rhs = \<lparr>le_terms = [(1, T 2 1 1)], le_const = 10\<rparr>,
      c_name = C2_StockBalance 1 1\<rparr>"
  have h1: "?c \<in> set (m_constrs (fst (snd (run ?opt ?est ?obras ()))))"
    by (simp add: run_def define_sets_def define_parameters_def create_decision_variables_def
      create_constraints_def set_obj_priority_def one_execution_def stock_balance_def
      unique_def drop_duplicates_def groupby_agg_def to_dict_def getitem_def Model_def
      wrap_int64_def
      addVars_def addConstr_def setObjective_def quicksum_def add_expr_def const_expr_def
      var_expr_def var_mul_def Let_def split: prod.splits)
  have h2: "c_name ?c = C2_StockBalance 1 1" by simp
  from h1 h2 stock_balance_constraint_form [OF h1 h2] show ?thesis by (intro conjI)
qed

text \<open>
  Claim C5. Whatever objective the model of the run holds is to be maximised, and its value
  is the sum of \<open>x[i, j] * w[i]\<close> over the pairs \<open>(i, j)\<close> with \<open>j\<close> in \<open>J_i[i]\<close>. The model has one
  objective slot, which only \<^verbatim>\<open>set_obj_priority\<close> writes, so no other objective replaces this
  one; it is set whenever the constraints were built without an exception (every site of
  the Stock relation occurs in the Task relation). Every task has a priority in \<open>w\<close>.
\<close>

theorem priority_objective:
  "(\<forall>e dir. m_objective (fst (snd (run optimize est obras ct))) = Some (e, dir) \<longrightarrow>
      dir = MAXIMIZE \<and>
      (\<forall>val. eval val e =
         (\<Sum>(i, j) \<in> {(i, j). \<exists>js. sets_J_i (define_sets est obras) i = Some js \<and> j \<in> set js}.
            val (X i j) * of_int (the (params_w (define_parameters est obras ct) i))))) \<and>
   (e_cod_dep ` set est \<subseteq> cod_dep ` set obras \<longrightarrow>
      m_objective (fst (snd (run optimize est obras ct))) \<noteq> None) \<and>
   (\<forall>i \<in> set (sets_I (define_sets est obras)).
      params_w (define_parameters est obras ct) i \<noteq> None)"
proof -
  let ?s = "define_sets est obras"
  let ?p = "define_parameters est obras ct"
  let ?mdl = "fst (snd (run optimize est obras ct))"
  let ?ks = "concat (map (\<lambda>i. map (\<lambda>j. (i, j)) (the (sets_J_i ?s i))) (sets_I ?s))"
  let ?obj = "quicksum (concat (map
                 (\<lambda>i. map (\<lambda>j. var_mul (X i j) (the (params_w ?p i))) (the (sets_J_i ?s i)))
                 (sets_I ?s)))"
  obtain v mdl1 ks ts where
    v: "create_decision_variables ?s Model = (Inr v, mdl1)"
    and mo: "m_objective mdl1 = m_objective Model"
    using create_decision_variables_define_sets [of est obras Model] by (elim exE conjE)
  have ev: "eval val ?obj =
         (\<Sum>(i, j) \<in> {(i, j). \<exists>js. sets_J_i ?s i = Some js \<and> j \<in> set js}.
            val (X i j) * of_int (the (params_w ?p i)))" for val
  proof -
    have "eval val ?obj = (\<Sum>k\<leftarrow>?ks. val (X (fst k) (snd k)) * of_int (the (params_w ?p (fst k))))"
      by (rule eval_objective)
    also have "\<dots> = (\<Sum>k \<in> set ?ks. val (X (fst k) (snd k)) * of_int (the (params_w ?p (fst k))))"
      using x_keys_distinct [of est obras] by (rule sum_list_distinct_conv_sum_set)
    also have "set ?ks = {(i, j). \<exists>js. sets_J_i ?s i = Some js \<and> j \<in> set js}"
      unfolding x_keys_set sparse_domain_pairs ..
    finally show ?thesis by (simp add: case_prod_beta)
  qed
  show ?thesis
  proof (cases "e_cod_dep ` set est \<subseteq> cod_dep ` set obras")
    case True
    have "m_objective ?mdl = Some (?obj, MAXIMIZE)"
      by (simp add: run_define_sets(1) [OF v True] Let_def setObjective_def)
    then show ?thesis
      using ev by (auto simp: params_w_define sets_I_define)
  next
    case False
    have "m_objective ?mdl = None"
      by (simp add: run_define_sets(2) [OF v False] create_constraints_define_sets(3) [OF v] mo
          Model_def)
    then show ?thesis
      using False by (auto simp: params_w_define sets_I_define)
  qed
qed

theorem priority_objective_witness:
  "e_cod_dep ` set [\<lparr>e_cod_dep = 1, e_cod_mat = 1, estoque = 10\<rparr>,
        \<lparr>e_cod_dep = 2, e_cod_mat = 1, estoque = 5\<rparr>] \<subseteq> cod_dep ` set [\<lparr>obra = 1, cod_dep = 1, prioridade = 5, cod_mat = 1, qtd_dem = 4\<rparr>,
        \<lparr>obra = 2, cod_dep = 1, prioridade = 3, cod_mat = 1, qtd_dem = 2\<rparr>,
        \<lparr>obra = 2, cod_dep = 2, prioridade = 3, cod_mat = 1, qtd_dem = 2\<rparr>] \<and>
   (\<exists>e. m_objective (fst (snd (run (\<lambda>mdl. \<lparr>sr_status = OPTIMAL, sr_solution = Some (\<lambda>x. 0)\<rparr>)
        [\<lparr>e_cod_dep = 1, e_cod_mat = 1, estoque = 10\<rparr>,
        \<lparr>e_cod_dep = 2, e_cod_mat = 1, estoque = 5\<rparr>]
        [\<lparr>obra = 1, cod_dep = 1, prioridade = 5, cod_mat = 1, qtd_dem = 4\<rparr>,
        \<lparr>obra = 2, cod_dep = 1, prioridade = 3, cod_mat = 1, qtd_dem = 2\<rparr>,
        \<lparr>obra = 2, cod_dep = 2, prioridade = 3, cod_mat = 1, qtd_dem = 2\<rparr>] ()))) = Some (e, MAXIMIZE) \<and>
     (\<forall>val. eval val e =
         (\<Sum>(i, j) \<in> {(i, j). \<exists>js. sets_J_i (define_sets [\<lparr>e_cod_dep = 1, e_cod_mat = 1, estoque = 10\<rparr>,
        \<lparr>e_cod_dep = 2, e_cod_mat = 1, estoque = 5\<rparr>] [\<lparr>obra = 1, cod_dep = 1, prioridade = 5, cod_mat = 1, qtd_dem = 4\<rparr>,
        \<lparr>obra = 2, cod_dep = 1, prioridade = 3, cod_mat = 1, qtd_dem = 2\<rparr>,
        \<lparr>obra = 2, cod_dep = 2, prioridade = 3, cod_mat = 1, qtd_dem = 2\<rparr>]) i = Some js \<and> j \<in> set js}.
            val (X i j) * of_int (the (params_w (define_parameters [\<lparr>e_cod_dep = 1, e_cod_mat = 1, estoque = 10\<rparr>,
        \<lparr>e_cod_dep = 2, e_cod_mat = 1, estoque = 5\<rparr>] [\<lparr>obra = 1, cod_dep = 1, prioridade = 5, cod_mat = 1, qtd_dem = 4\<rparr>,
        \<lparr>obra = 2, cod_dep = 1, prioridade = 3, cod_mat = 1, qtd_dem = 2\<rparr>,
        \<lparr>obra = 2, cod_dep = 2, prioridade = 3, cod_mat = 1, qtd_dem = 2\<rparr>] ()) i)))))"
proof -
  let ?est = "[\<lparr>e_cod_dep = 1, e_cod_mat = 1, estoque = 10\<rparr>,
        \<lparr>e_cod_dep = 2, e_cod_mat = 1, estoque = 5\<rparr>]"
  let ?obras = "[\<lparr>obra = 1, cod_dep = 1, prioridade = 5, cod_mat = 1, qtd_dem = 4\<rparr>,
        \<lparr>obra = 2, cod_dep = 1, prioridade = 3, cod_mat = 1, qtd_dem = 2\<rparr>,
        \<lparr>obra = 2, cod_dep = 2, prioridade = 3, cod_mat = 1, qtd_dem = 2\<rparr>]"
  let ?opt = "\<lambda>mdl :: gurobi_model. \<lparr>sr_status = OPTIMAL, sr_solution = Some (\<lambda>x :: var. 0 :: real)\<rparr>"
  let ?mdl = "fst (snd (run ?opt ?est ?obras ()))"
  have sub: "e_cod_dep ` set ?est \<subseteq> cod_dep ` set ?obras" by simp
  note po = priority_objective [of ?opt ?est ?obras "()"]
  from po sub have ne: "m_objective ?mdl \<noteq> None" by (elim conjE) (rule mp)
  define ed where "ed = the (m_objective ?mdl)"
  from ne have e: "m_objective ?mdl = Some (fst ed, snd ed)" unfolding ed_def by simp
  from po have "\<forall>e dir. m_objective ?mdl = Some (e, dir) \<longrightarrow>
      dir = MAXIMIZE \<and>
      (\<forall>val. eval val e =
         (\<Sum>(i, j) \<in> {(i, j). \<exists>js. sets_J_i (define_sets ?est ?obras) i = Some js \<and> j \<in> set js}.
            val (X i j) * of_int (the (params_w (define_parameters ?est ?obras ()) i))))"
    by (rule conjunct1)
  from this [rule_format, OF e] have d: "snd ed = MAXIMIZE"
    and ev: "\<forall>val. eval val (fst ed) =
         (\<Sum>(i, j) \<in> {(i, j). \<exists>js. sets_J_i (define_sets ?est ?obras) i = Some js \<and> j \<in> set js}.
            val (X i j) * of_int (the (params_w (define_parameters ?est ?obras ()) i)))"
    by (rule conjunct1, rule conjunct2)
  from e have "m_objective ?mdl = Some (fst ed, MAXIMIZE)" unfolding d .
  with ev have "m_objective ?mdl = Some (fst ed, MAXIMIZE) \<and>
     (\<forall>val. eval val (fst ed) =
         (\<Sum>(i, j) \<in> {(i, j). \<exists>js. sets_J_i (define_sets ?est ?obras) i = Some js \<and> j \<in> set js}.
            val (X i j) * of_int (the (params_w (define_parameters ?est ?obras ()) i))))"
    by (intro conjI)
  then have "\<exists>e. m_objective ?mdl = Some (e, MAXIMIZE) \<and>
     (\<forall>val. eval val e =
         (\<Sum>(i, j) \<in> {(i, j). \<exists>js. sets_J_i (define_sets ?est ?obras) i = Some js \<and> j \<in> set js}.
            val (X i j) * of_int (the (params_w (define_parameters ?est ?obras ()) i))))"
    by (rule exI [of _ "fst ed"])
  with sub show ?thesis by (rule conjI)
qed

lemma stock_site_without_task_KeyError:
  assumes "j \<in> e_cod_dep ` set est" and "j \<notin> cod_dep ` set obras"
  shows "fst (run optimize est obras ct) = Some KeyError \<and>
         snd (snd (run optimize est obras ct)) = [] \<and>
         (\<forall>c \<in> set (m_constrs (fst (snd (run optimize est obras ct)))).
            \<forall>m. c_name c \<noteq> C2_StockBalance m j)"
proof -
  let ?s = "define_sets est obras"
  let ?p = "define_parameters est obras ct"
  obtain v mdl1 ks ts where
    v: "create_decision_variables ?s Model = (Inr v, mdl1)"
    using create_decision_variables_define_sets [of est obras Model] by (elim exE conjE)
  have ns: "\<not> e_cod_dep ` set est \<subseteq> cod_dep ` set obras" using assms by auto
  have r: "run optimize est obras ct = (Some KeyError, snd (create_constraints ?s ?p v mdl1), [])"
    by (rule run_define_sets(2) [OF v ns])
  have "c_name c \<noteq> C2_StockBalance m j"
    if "c \<in> set (m_constrs (fst (snd (run optimize est obras ct))))" for c m
  proof
    assume "c_name c = C2_StockBalance m j"
    from stock_balance_in_model [OF that this]
    obtain tasks where "sets_I_j ?s j = Some tasks" by (elim exE conjE)
    then show False using assms(2) sets_I_j_None [of est obras j] by simp
  qed
  then show ?thesis by (simp add: r)
qed

text \<open>
  Claim C2 (the code does not do what the claim says). The claim wants a constraint for
  every (material, site) pair of the Stock relation, also for a site that no task row
  names. The loop indexes \<^verbatim>\<open>I_j[j]\<close> without a default, so for such a site the run stops with
  \<^verbatim>\<open>KeyError\<close>. Here the Stock relation has the sites 1 and 2 and the only task row names
  site 1: the run raises, writes no file, and the model holds the constraint of task 1 and
  the balance of site 1 only.
\<close>

theorem run_KeyError_site_without_task:
  "fst (run optimize
     [\<lparr>e_cod_dep = 1, e_cod_mat = 1, estoque = 10\<rparr>,
        \<lparr>e_cod_dep = 2, e_cod_mat = 1, estoque = 5\<rparr>]
     [\<lparr>obra = 1, cod_dep = 1, prioridade = 5, cod_mat = 1, qtd_dem = 4\<rparr>] ct) = Some KeyError \<and>
   snd (snd (run optimize
     [\<lparr>e_cod_dep = 1, e_cod_mat = 1, estoque = 10\<rparr>,
        \<lparr>e_cod_dep = 2, e_cod_mat = 1, estoque = 5\<rparr>]
     [\<lparr>obra = 1, cod_dep = 1, prioridade = 5, cod_mat = 1, qtd_dem = 4\<rparr>] ct)) = [] \<and>
   map c_name (m_constrs (fst (snd (run optimize
     [\<lparr>e_cod_dep = 1, e_cod_mat = 1, estoque = 10\<rparr>,
        \<lparr>e_cod_dep = 2, e_cod_mat = 1, estoque = 5\<rparr>]
     [\<lparr>obra = 1, cod_dep = 1, prioridade = 5, cod_mat = 1, qtd_dem = 4\<rparr>] ct)))) = [C1_OneExecution 1, C2_StockBalance 1 1]"
proof -
  let ?est = "[\<lparr>e_cod_dep = 1, e_cod_mat = 1, estoque = 10\<rparr>,
        \<lparr>e_cod_dep = 2, e_cod_mat = 1, estoque = 5\<rparr>]"
  let ?obras = "[\<lparr>obra = 1, cod_dep = 1, prioridade = 5, cod_mat = 1, qtd_dem = 4\<rparr>]"
  have "2 \<in> e_cod_dep ` set ?est" and "2 \<notin> cod_dep ` set ?obras" by simp_all
  then have "fst (run optimize ?est ?obras ct) = Some KeyError"
    and "snd (snd (run optimize ?est ?obras ct)) = []"
    using stock_site_without_task_KeyError [of 2 ?est ?obras optimize ct] by simp_all
  moreover have "map c_name (m_constrs (fst (snd (run optimize ?est ?obras ct))))
                   = [C1_OneExecution 1, C2_StockBalance 1 1]"
    by (simp add: run_def define_sets_def define_parameters_def create_decision_variables_def
      create_constraints_def set_obj_priority_def one_execution_def stock_balance_def
      unique_def drop_duplicates_def groupby_agg_def to_dict_def getitem_def Model_def
      wrap_int64_def
      addVars_def addConstr_def setObjective_def quicksum_def add_expr_def const_expr_def
      var_expr_def var_mul_def Let_def split: prod.splits)
  ultimately show ?thesis by (intro conjI)
qed

section \<open>Result extraction\<close>

lemma concat_map_if:
  "concat (map (\<lambda>x. if P x then [f x] else []) xs) = map f (filter P xs)"
  by (induction xs) simp_all

lemma vars_x_on_solution:
  assumes v: "create_decision_variables (define_sets est obras) mdl = (Inr v, mdl')"
    and sol: "sr_solution res = Some sol"
  shows "\<exists>keys. vars_x_on v res = Inr keys \<and> distinct keys \<and>
           set keys = {k \<in> (\<lambda>r. (obra r, cod_dep r)) ` set obras.
                         isclose (sol (X (fst k) (snd k))) 1}"
proof -
  obtain v0 mdl0 ks ts where
    "create_decision_variables (define_sets est obras) mdl = (Inr v0, mdl0)"
    and x0: "vars_x v0 = map (\<lambda>k. (k, X (fst k) (snd k))) ks" "distinct ks"
      "set ks = (\<lambda>r. (obra r, cod_dep r)) ` set obras"
    using create_decision_variables_define_sets [of est obras mdl] by (elim exE conjE)
  with v have "v0 = v" by simp
  with x0 have x: "vars_x v = map (\<lambda>k. (k, X (fst k) (snd k))) ks" by simp
  let ?P = "\<lambda>k. isclose (sol (X (fst k) (snd k))) 1"
  have "traverse (\<lambda>(key, elem). case attr_X res elem of
                                       Inl e \<Rightarrow> Inl e
                                     | Inr a \<Rightarrow> Inr (if isclose a 1 then [key] else []))
          (vars_x v) = Inr (map (\<lambda>ke. if isclose (sol (snd ke)) 1 then [fst ke] else []) (vars_x v))"
    by (rule traverse_map_Inr) (simp add: attr_X_def sol case_prod_beta)
  then have "vars_x_on v res = Inr (filter ?P ks)"
    by (simp add: vars_x_on_def x comp_def concat_map_if)
  moreover have "distinct (filter ?P ks)" using x0(2) by simp
  moreover have "set (filter ?P ks) = {k \<in> (\<lambda>r. (obra r, cod_dep r)) ` set obras. ?P k}"
    using x0(3) by simp
  ultimately show ?thesis by (intro exI [of _ "filter ?P ks"] conjI)
qed

lemma vars_x_on_no_solution:
  assumes "sr_solution res = None"
  shows "vars_x_on v res = (if vars_x v = [] then Inr [] else Inl AttributeError)"
  using assms by (cases "vars_x v") (simp_all add: vars_x_on_def attr_X_def case_prod_beta)

lemma set_triples:
  "set (drop_duplicates (\<lambda>r. r) (map (\<lambda>r. (obra r, cod_dep r, prioridade r)) obras))
     = (\<lambda>r. (obra r, cod_dep r, prioridade r)) ` set obras"
  using drop_duplicates_keys [of "\<lambda>r. r" "map (\<lambda>r. (obra r, cod_dep r, prioridade r)) obras"]
  by simp

lemma distinct_triples:
  "distinct (drop_duplicates (\<lambda>r. r) (map (\<lambda>r. (obra r, cod_dep r, prioridade r)) obras))"
  using drop_duplicates_distinct [of "\<lambda>r. r" "map (\<lambda>r. (obra r, cod_dep r, prioridade r)) obras"]
  by simp

lemma left_keys_distinct:
  "distinct (map (\<lambda>(i, j, pr). (j, i))
      (drop_duplicates (\<lambda>r. r) (map (\<lambda>r. (obra r, cod_dep r, prioridade r)) obras)))
   \<longleftrightarrow> (\<forall>r1 \<in> set obras. \<forall>r2 \<in> set obras.
           obra r1 = obra r2 \<and> cod_dep r1 = cod_dep r2 \<longrightarrow> prioridade r1 = prioridade r2)"
proof -
  have "distinct (map (\<lambda>(i, j, pr). (j, i))
      (drop_duplicates (\<lambda>r. r) (map (\<lambda>r. (obra r, cod_dep r, prioridade r)) obras)))
    \<longleftrightarrow> inj_on (\<lambda>(i, j, pr). (j, i)) ((\<lambda>r. (obra r, cod_dep r, prioridade r)) ` set obras)"
    by (simp add: distinct_map distinct_triples set_triples)
  also have "\<dots> \<longleftrightarrow> (\<forall>r1 \<in> set obras. \<forall>r2 \<in> set obras.
           obra r1 = obra r2 \<and> cod_dep r1 = cod_dep r2 \<longrightarrow> prioridade r1 = prioridade r2)"
    by (auto simp: inj_on_def)
  finally show ?thesis .
qed

lemma right_keys_distinct:
  "distinct keys \<Longrightarrow> distinct (map (\<lambda>r. (ox_cod_dep r, ox_obra r)) (df_output_X keys))"
  by (simp add: df_output_X_def comp_def case_prod_beta distinct_map inj_on_def prod_eq_iff)

lemma right_lookup:
  "map_of (map (\<lambda>r. ((ox_cod_dep r, ox_obra r), ox_obra_atendida r)) (df_output_X keys)) (j, i)
     = (if (i, j) \<in> set keys then Some 1 else None)"
  by (induction keys) (auto simp: df_output_X_def)

lemma wrap_int64_exact:
  "- 9223372036854775808 \<le> n \<Longrightarrow> n < 9223372036854775808 \<Longrightarrow> wrap_int64 n = n"
  by (simp add: wrap_int64_def)

lemma float64_shift_small: "a < 9007199254740992 \<Longrightarrow> float64_shift a = 0"
  by (subst float64_shift.simps) (simp only: if_True)

lemma to_float64_exact:
  assumes "\<bar>n\<bar> < 9007199254740992"
  shows "to_float64 n = n"
proof -
  from assms have "nat \<bar>n\<bar> < 9007199254740992" by linarith
  then have s: "float64_shift (nat \<bar>n\<bar>) = 0" by (rule float64_shift_small)
  have "sgn n * int (nat \<bar>n\<bar>) = n" by (simp add: sgn_if)
  then show ?thesis
    unfolding to_float64_def Let_def s by simp
qed

text \<open>The first integer that float64 does not hold: \<open>2 ^ 53 + 1\<close> is rounded to \<open>2 ^ 53\<close>.\<close>

lemma to_float64_rounds: "to_float64 9007199254740993 = 9007199254740992"
proof -
  have "float64_shift 9007199254740993 = 1"
    by (simp add: float64_shift.simps [of 9007199254740993] float64_shift_small)
  then show ?thesis
    by (simp add: to_float64_def Let_def)
qed

lemma merge_define:
  assumes "distinct keys" and "obras \<noteq> []"
  shows "merge (drop_duplicates (\<lambda>r. r) (map (\<lambda>r. (obra r, cod_dep r, prioridade r)) obras))
           (df_output_X keys) =
     (if \<forall>r1 \<in> set obras. \<forall>r2 \<in> set obras.
           obra r1 = obra r2 \<and> cod_dep r1 = cod_dep r2 \<longrightarrow> prioridade r1 = prioridade r2
      then Inr (map (\<lambda>(i, j, pr). (i, j, pr, if (i, j) \<in> set keys then Some 1 else None))
             (drop_duplicates (\<lambda>r. r) (map (\<lambda>r. (obra r, cod_dep r, prioridade r)) obras)))
      else Inl MergeError)"
proof -
  have "set (drop_duplicates (\<lambda>r. r) (map (\<lambda>r. (obra r, cod_dep r, prioridade r)) obras)) \<noteq> {}"
    unfolding set_triples using assms(2) by simp
  then have ne: "drop_duplicates (\<lambda>r. r) (map (\<lambda>r. (obra r, cod_dep r, prioridade r)) obras) \<noteq> []"
    by auto
  show ?thesis
  proof (cases "\<forall>r1 \<in> set obras. \<forall>r2 \<in> set obras.
           obra r1 = obra r2 \<and> cod_dep r1 = cod_dep r2 \<longrightarrow> prioridade r1 = prioridade r2")
    case True
    then have dl: "distinct (map (\<lambda>(i, j, pr). (j, i))
        (drop_duplicates (\<lambda>r. r) (map (\<lambda>r. (obra r, cod_dep r, prioridade r)) obras)))"
      by (rule left_keys_distinct [THEN iffD2])
    show ?thesis
      unfolding merge_def if_P [OF True]
      using ne dl right_keys_distinct [OF assms(1)] by (simp add: right_lookup case_prod_beta)
  next
    case False
    then have dl: "\<not> distinct (map (\<lambda>(i, j, pr). (j, i))
        (drop_duplicates (\<lambda>r. r) (map (\<lambda>r. (obra r, cod_dep r, prioridade r)) obras)))"
      unfolding left_keys_distinct .
    show ?thesis
      unfolding merge_def if_not_P [OF False]
      using ne dl by simp
  qed
qed

lemma df_real_output_empty: "df_real_output [] (df_output_X []) = Inl ValueError"
  by (simp add: df_real_output_def merge_def drop_duplicates_def df_output_X_def)

lemma df_real_output_define:
  assumes "distinct keys" and "obras \<noteq> []"
  shows "df_real_output obras (df_output_X keys) =
     (if \<forall>r1 \<in> set obras. \<forall>r2 \<in> set obras.
           obra r1 = obra r2 \<and> cod_dep r1 = cod_dep r2 \<longrightarrow> prioridade r1 = prioridade r2
      then Inr (map (\<lambda>(i, j, pr).
                  \<lparr> ro_obra = i, ro_cod_dep = j, ro_prioridade = pr,
                    ro_obra_atendida = (if (i, j) \<in> set keys then 1 else 0),
                    ro_prioridade_atendida =
                      (if (i, j) \<in> set keys then 1 else 0)
                      * (if \<exists>r \<in> set obras. (obra r, cod_dep r) \<notin> set keys
                         then to_float64 pr else pr) \<rparr>)
             (drop_duplicates (\<lambda>r. r) (map (\<lambda>r. (obra r, cod_dep r, prioridade r)) obras)))
      else Inl MergeError)"
proof (cases "\<forall>r1 \<in> set obras. \<forall>r2 \<in> set obras.
           obra r1 = obra r2 \<and> cod_dep r1 = cod_dep r2 \<longrightarrow> prioridade r1 = prioridade r2")
  case True
  let ?left = "drop_duplicates (\<lambda>r. r) (map (\<lambda>r. (obra r, cod_dep r, prioridade r)) obras)"
  have fl: "(\<exists>(i, j, pr, a) \<in> set (map (\<lambda>(i, j, pr).
                 (i, j, pr, if (i, j) \<in> set keys then Some (1 :: int) else None)) ?left). a = None)
            \<longleftrightarrow> (\<exists>r \<in> set obras. (obra r, cod_dep r) \<notin> set keys)"
  proof -
    have "(\<exists>(i, j, pr, a) \<in> set (map (\<lambda>(i, j, pr).
                 (i, j, pr, if (i, j) \<in> set keys then Some (1 :: int) else None)) ?left). a = None)
            \<longleftrightarrow> (\<exists>t \<in> set ?left. (fst t, fst (snd t)) \<notin> set keys)"
      by (auto simp: case_prod_beta)
    also have "\<dots> \<longleftrightarrow> (\<exists>r \<in> set obras. (obra r, cod_dep r) \<notin> set keys)"
      unfolding set_triples by auto
    finally show ?thesis .
  qed
  show ?thesis
    unfolding df_real_output_def merge_define [OF assms] if_P [OF True] sum.case Let_def fl
    by (simp add: fillna_def case_prod_beta)
next
  case False
  show ?thesis
    unfolding df_real_output_def merge_define [OF assms] if_not_P [OF False] sum.case ..
qed

lemma generate_results_empty:
  assumes "vars_x v = []"
  shows "generate_results v res [] fs
           = (Some ValueError, fs @ [(''output_var_X.csv'', Output_var_X [])])"
  using assms
  by (simp add: generate_results_def vars_x_on_def df_output_X_def df_real_output_def merge_def
      drop_duplicates_def to_csv_def)

lemma generate_results_solution:
  assumes v: "create_decision_variables (define_sets est obras) mdl = (Inr v, mdl')"
    and sol: "sr_solution res = Some sol"
  shows "\<exists>keys. vars_x_on v res = Inr keys \<and> distinct keys \<and>
     set keys = {k \<in> (\<lambda>r. (obra r, cod_dep r)) ` set obras. isclose (sol (X (fst k) (snd k))) 1} \<and>
     generate_results v res obras fs =
       (case df_real_output obras (df_output_X keys) of
          Inl e \<Rightarrow> (Some e, fs @ [(''output_var_X.csv'', Output_var_X (df_output_X keys))])
        | Inr rows \<Rightarrow>
            (None, fs @ [(''output_var_X.csv'', Output_var_X (df_output_X keys)),
                         (''output_agrupado.csv'', Output_agrupado (df_grouped rows))]))"
proof -
  obtain keys where k: "vars_x_on v res = Inr keys" "distinct keys"
    "set keys = {k \<in> (\<lambda>r. (obra r, cod_dep r)) ` set obras. isclose (sol (X (fst k) (snd k))) 1}"
    using vars_x_on_solution [OF v sol] by (elim exE conjE)
  have "generate_results v res obras fs =
       (case df_real_output obras (df_output_X keys) of
          Inl e \<Rightarrow> (Some e, fs @ [(''output_var_X.csv'', Output_var_X (df_output_X keys))])
        | Inr rows \<Rightarrow>
            (None, fs @ [(''output_var_X.csv'', Output_var_X (df_output_X keys)),
                         (''output_agrupado.csv'', Output_agrupado (df_grouped rows))]))"
    by (simp add: generate_results_def k(1) Let_def to_csv_def split: sum.splits)
  with k show ?thesis by (intro exI [of _ keys] conjI)
qed

lemma generate_results_no_solution:
  assumes "sr_solution res = None" and "vars_x v \<noteq> []"
  shows "generate_results v res obras fs = (Some AttributeError, fs)"
  using assms by (simp add: generate_results_def vars_x_on_no_solution)

lemma run_no_solution:
  assumes sub: "e_cod_dep ` set est \<subseteq> cod_dep ` set obras"
    and ne: "obras \<noteq> []"
    and sol: "sr_solution (optimize (fst (snd (run optimize est obras ct)))) = None"
  shows "fst (run optimize est obras ct) = Some AttributeError \<and>
         snd (snd (run optimize est obras ct)) = []"
proof -
  let ?mdl = "fst (snd (run optimize est obras ct))"
  obtain v mdl1 ks ts where
    v: "create_decision_variables (define_sets est obras) Model = (Inr v, mdl1)"
    and x: "vars_x v = map (\<lambda>k. (k, X (fst k) (snd k))) ks"
      "set ks = (\<lambda>r. (obra r, cod_dep r)) ` set obras"
    using create_decision_variables_define_sets [of est obras Model] by (elim exE conjE)
  note run = run_define_sets(1) [OF v sub, of optimize ct]
  have r: "run optimize est obras ct =
      (fst (generate_results v (optimize ?mdl) obras []), ?mdl,
       snd (generate_results v (optimize ?mdl) obras []))"
    unfolding run Let_def by simp
  from ne have "set ks \<noteq> {}" unfolding x(2) by simp
  then have "vars_x v \<noteq> []" unfolding x(1) by auto
  from generate_results_no_solution [OF sol this, of obras "[]"]
  have g: "generate_results v (optimize ?mdl) obras [] = (Some AttributeError, [])" .
  have "fst (run optimize est obras ct) = Some AttributeError"
    by (subst r) (simp add: g)
  moreover have "snd (snd (run optimize est obras ct)) = []"
    by (subst r) (simp add: g)
  ultimately show ?thesis by (rule conjI)
qed

section \<open>The claims about errors and results\<close>

text \<open>
  Claim C8, as amended. Take any solution of the solver and a Task relation that has a row
  and in which no (task, site) pair carries two different priorities. Then
  \<^verbatim>\<open>generate_results\<close> ends without an exception and writes both files, the second one from
  the reconciled table \<^verbatim>\<open>df_real_output\<close>. The rows of that table are the distinct (task,
  site, priority) rows of the Task relation, in order; a row has \<^verbatim>\<open>obra_atendida = 1\<close>
  exactly when the value of \<open>x[task, site]\<close> is close to 1 (\<^verbatim>\<open>np.isclose\<close>) and
  \<^verbatim>\<open>obra_atendida = 0\<close> otherwise. \<^verbatim>\<open>prioridade_atendida\<close> is \<^verbatim>\<open>obra_atendida\<close> times
  \<^verbatim>\<open>prioridade\<close>, where \<^verbatim>\<open>prioridade\<close> is rounded to float64 if some row of the table is not
  served; that is \<^verbatim>\<open>obra_atendida * prioridade\<close> itself for every priority below \<open>2 ^ 53\<close> in
  magnitude. In particular, for a task \<open>i\<close> with exactly one site \<open>j\<close> among its rows whose
  \<open>x[i, j]\<close> is close to 1, the rows of task \<open>i\<close> have \<^verbatim>\<open>obra_atendida = 1\<close> at site \<open>j\<close> and 0 at
  every other site.

  Without the two conditions there is no table: two priorities on one pair end in
  \<^verbatim>\<open>MergeError\<close> (the counterexample below), a Task relation without rows in \<^verbatim>\<open>ValueError\<close>
  (\<open>generate_results_empty\<close>).
\<close>

theorem reconciled_table_served:
  assumes v: "create_decision_variables (define_sets est obras) mdl = (Inr v, mdl')"
    and sol: "sr_solution res = Some sol"
    and ne: "obras \<noteq> []"
    and nc: "\<forall>r1 \<in> set obras. \<forall>r2 \<in> set obras.
           obra r1 = obra r2 \<and> cod_dep r1 = cod_dep r2 \<longrightarrow> prioridade r1 = prioridade r2"
  shows "\<exists>keys rows. vars_x_on v res = Inr keys \<and>
     df_real_output obras (df_output_X keys) = Inr rows \<and>
     generate_results v res obras fs =
       (None, fs @ [(''output_var_X.csv'', Output_var_X (df_output_X keys)),
                    (''output_agrupado.csv'', Output_agrupado (df_grouped rows))]) \<and>
     map (\<lambda>r. (ro_obra r, ro_cod_dep r, ro_prioridade r)) rows
       = drop_duplicates (\<lambda>r. r) (map (\<lambda>r. (obra r, cod_dep r, prioridade r)) obras) \<and>
     (\<forall>r \<in> set rows.
        ro_obra_atendida r = (if isclose (sol (X (ro_obra r) (ro_cod_dep r))) 1 then 1 else 0) \<and>
        ro_prioridade_atendida r =
          ro_obra_atendida r * (if \<exists>r' \<in> set rows. ro_obra_atendida r' = 0
                                then to_float64 (ro_prioridade r) else ro_prioridade r) \<and>
        (\<bar>ro_prioridade r\<bar> < 9007199254740992 \<longrightarrow>
           ro_prioridade_atendida r = ro_obra_atendida r * ro_prioridade r)) \<and>
     (\<forall>i j. isclose (sol (X i j)) 1 \<and>
            (\<forall>r' \<in> set obras. obra r' = i \<and> isclose (sol (X i (cod_dep r'))) 1
                                 \<longrightarrow> cod_dep r' = j) \<longrightarrow>
        (\<forall>r \<in> set rows. ro_obra r = i \<longrightarrow>
           ro_obra_atendida r = (if ro_cod_dep r = j then 1 else 0)))"
proof -
  let ?left = "drop_duplicates (\<lambda>r. r) (map (\<lambda>r. (obra r, cod_dep r, prioridade r)) obras)"
  obtain keys where k: "vars_x_on v res = Inr keys" "distinct keys"
    "set keys = {k \<in> (\<lambda>r. (obra r, cod_dep r)) ` set obras. isclose (sol (X (fst k) (snd k))) 1}"
    and g: "generate_results v res obras fs =
       (case df_real_output obras (df_output_X keys) of
          Inl e \<Rightarrow> (Some e, fs @ [(''output_var_X.csv'', Output_var_X (df_output_X keys))])
        | Inr rows \<Rightarrow>
            (None, fs @ [(''output_var_X.csv'', Output_var_X (df_output_X keys)),
                         (''output_agrupado.csv'', Output_agrupado (df_grouped rows))]))"
    using generate_results_solution [OF v sol, of fs] by (elim exE conjE)
  define fl where "fl \<longleftrightarrow> (\<exists>r \<in> set obras. (obra r, cod_dep r) \<notin> set keys)"
  define row where "row = (\<lambda>(i, j, pr).
                  \<lparr> ro_obra = i, ro_cod_dep = j, ro_prioridade = pr,
                    ro_obra_atendida = (if (i, j) \<in> set keys then 1 else 0),
                    ro_prioridade_atendida =
                      (if (i, j) \<in> set keys then 1 else 0) * (if fl then to_float64 pr else pr) \<rparr>)"
  define rows where "rows = map row ?left"
  have d: "df_real_output obras (df_output_X keys) = Inr rows"
    unfolding df_real_output_define [OF k(2) ne] rows_def row_def fl_def if_P [OF nc] ..
  have gen: "generate_results v res obras fs =
       (None, fs @ [(''output_var_X.csv'', Output_var_X (df_output_X keys)),
                    (''output_agrupado.csv'', Output_agrupado (df_grouped rows))])"
    unfolding g d by simp
  have proj: "map (\<lambda>r. (ro_obra r, ro_cod_dep r, ro_prioridade r)) rows = ?left"
    by (simp add: rows_def row_def comp_def case_prod_beta)
  have unserved: "(\<exists>r' \<in> set rows. ro_obra_atendida r' = 0) \<longleftrightarrow> fl"
  proof -
    have "(\<exists>r' \<in> set rows. ro_obra_atendida r' = 0)
            \<longleftrightarrow> (\<exists>t \<in> set ?left. (fst t, fst (snd t)) \<notin> set keys)"
      by (auto simp: rows_def row_def case_prod_beta)
    also have "\<dots> \<longleftrightarrow> fl"
      unfolding set_triples fl_def by auto
    finally show ?thesis .
  qed
  have served: "ro_obra_atendida r = (if isclose (sol (X (ro_obra r) (ro_cod_dep r))) 1 then 1 else 0)
        \<and> ro_prioridade_atendida r =
            ro_obra_atendida r * (if fl then to_float64 (ro_prioridade r) else ro_prioridade r)"
    if "r \<in> set rows" for r
  proof -
    from that obtain i j pr where t: "(i, j, pr) \<in> set ?left" and r: "r = row (i, j, pr)"
      unfolding rows_def by auto
    from t have "(i, j, pr) \<in> (\<lambda>r. (obra r, cod_dep r, prioridade r)) ` set obras"
      unfolding set_triples .
    then have "(i, j) \<in> (\<lambda>r. (obra r, cod_dep r)) ` set obras" by auto
    then have "(i, j) \<in> set keys \<longleftrightarrow> isclose (sol (X i j)) 1"
      unfolding k(3) by simp
    then show ?thesis by (simp add: r row_def)
  qed
  have exact: "ro_prioridade_atendida r = ro_obra_atendida r * ro_prioridade r"
    if "r \<in> set rows" and "\<bar>ro_prioridade r\<bar> < 9007199254740992" for r
    using served [OF that(1)] to_float64_exact [OF that(2)] by simp
  have one: "ro_obra_atendida r = (if ro_cod_dep r = j then 1 else 0)"
    if c: "isclose (sol (X i j)) 1 \<and>
            (\<forall>r' \<in> set obras. obra r' = i \<and> isclose (sol (X i (cod_dep r'))) 1
                                 \<longrightarrow> cod_dep r' = j)"
      and r: "r \<in> set rows" and i: "ro_obra r = i" for i j r
  proof -
    have "(ro_obra r, ro_cod_dep r, ro_prioridade r) \<in> set ?left"
      using r unfolding proj [symmetric] by simp
    then obtain r' where r': "r' \<in> set obras" "obra r' = ro_obra r" "cod_dep r' = ro_cod_dep r"
      unfolding set_triples by auto
    from c r' i have "isclose (sol (X i (ro_cod_dep r))) 1 \<longrightarrow> ro_cod_dep r = j"
      by auto
    moreover from c have "isclose (sol (X i j)) 1" by (rule conjunct1)
    ultimately have "isclose (sol (X (ro_obra r) (ro_cod_dep r))) 1 \<longleftrightarrow> ro_cod_dep r = j"
      using i by auto
    then show ?thesis using served [OF r] by simp
  qed
  have "vars_x_on v res = Inr keys \<and>
     df_real_output obras (df_output_X keys) = Inr rows \<and>
     generate_results v res obras fs =
       (None, fs @ [(''output_var_X.csv'', Output_var_X (df_output_X keys)),
                    (''output_agrupado.csv'', Output_agrupado (df_grouped rows))]) \<and>
     map (\<lambda>r. (ro_obra r, ro_cod_dep r, ro_prioridade r)) rows = ?left \<and>
     (\<forall>r \<in> set rows.
        ro_obra_atendida r = (if isclose (sol (X (ro_obra r) (ro_cod_dep r))) 1 then 1 else 0) \<and>
        ro_prioridade_atendida r =
          ro_obra_atendida r * (if \<exists>r' \<in> set rows. ro_obra_atendida r' = 0
                                then to_float64 (ro_prioridade r) else ro_prioridade r) \<and>
        (\<bar>ro_prioridade r\<bar> < 9007199254740992 \<longrightarrow>
           ro_prioridade_atendida r = ro_obra_atendida r * ro_prioridade r)) \<and>
     (\<forall>i j. isclose (sol (X i j)) 1 \<and>
            (\<forall>r' \<in> set obras. obra r' = i \<and> isclose (sol (X i (cod_dep r'))) 1
                                 \<longrightarrow> cod_dep r' = j) \<longrightarrow>
        (\<forall>r \<in> set rows. ro_obra r = i \<longrightarrow>
           ro_obra_atendida r = (if ro_cod_dep r = j then 1 else 0)))"
    unfolding unserved
  proof (intro conjI allI impI ballI)
    show "vars_x_on v res = Inr keys" by (rule k(1))
    show "df_real_output obras (df_output_X keys) = Inr rows" by (rule d)
    show "generate_results v res obras fs =
       (None, fs @ [(''output_var_X.csv'', Output_var_X (df_output_X keys)),
                    (''output_agrupado.csv'', Output_agrupado (df_grouped rows))])" by (rule gen)
    show "map (\<lambda>r. (ro_obra r, ro_cod_dep r, ro_prioridade r)) rows = ?left" by (rule proj)
    show "ro_obra_atendida r = (if isclose (sol (X (ro_obra r) (ro_cod_dep r))) 1 then 1 else 0)"
      if "r \<in> set rows" for r using served [OF that] by (rule conjunct1)
    show "ro_prioridade_atendida r =
            ro_obra_atendida r * (if fl then to_float64 (ro_prioridade r) else ro_prioridade r)"
      if "r \<in> set rows" for r using served [OF that] by (rule conjunct2)
    show "ro_prioridade_atendida r = ro_obra_atendida r * ro_prioridade r"
      if "r \<in> set rows" and "\<bar>ro_prioridade r\<bar> < 9007199254740992" for r
      using that by (rule exact)
    show "ro_obra_atendida r = (if ro_cod_dep r = j then 1 else 0)"
      if "isclose (sol (X i j)) 1 \<and>
            (\<forall>r' \<in> set obras. obra r' = i \<and> isclose (sol (X i (cod_dep r'))) 1
                                 \<longrightarrow> cod_dep r' = j)"
        and "r \<in> set rows" and "ro_obra r = i" for i j r
      using that by (rule one)
  qed
  then show ?thesis by (intro exI [of _ keys] exI [of _ rows])
qed

theorem reconciled_table_served_witness:
  "\<exists>v mdl' keys rows.
     create_decision_variables (define_sets [\<lparr>e_cod_dep = 1, e_cod_mat = 1, estoque = 10\<rparr>,
        \<lparr>e_cod_dep = 2, e_cod_mat = 1, estoque = 5\<rparr>] [\<lparr>obra = 1, cod_dep = 1, prioridade = 5, cod_mat = 1, qtd_dem = 4\<rparr>,
        \<lparr>obra = 2, cod_dep = 1, prioridade = 3, cod_mat = 1, qtd_dem = 2\<rparr>,
        \<lparr>obra = 2, cod_dep = 2, prioridade = 3, cod_mat = 1, qtd_dem = 2\<rparr>]) Model = (Inr v, mdl') \<and>
     vars_x_on v \<lparr>sr_status = OPTIMAL, sr_solution = Some (\<lambda>x. if x = X 1 1 then 999999 / 1000000 else if x = X 2 2 then 1 else 0)\<rparr> = Inr keys \<and>
     df_real_output [\<lparr>obra = 1, cod_dep = 1, prioridade = 5, cod_mat = 1, qtd_dem = 4\<rparr>,
        \<lparr>obra = 2, cod_dep = 1, prioridade = 3, cod_mat = 1, qtd_dem = 2\<rparr>,
        \<lparr>obra = 2, cod_dep = 2, prioridade = 3, cod_mat = 1, qtd_dem = 2\<rparr>] (df_output_X keys) = Inr rows \<and>
     generate_results v \<lparr>sr_status = OPTIMAL, sr_solution = Some (\<lambda>x. if x = X 1 1 then 999999 / 1000000 else if x = X 2 2 then 1 else 0)\<rparr>
        [\<lparr>obra = 1, cod_dep = 1, prioridade = 5, cod_mat = 1, qtd_dem = 4\<rparr>,
        \<lparr>obra = 2, cod_dep = 1, prioridade = 3, cod_mat = 1, qtd_dem = 2\<rparr>,
        \<lparr>obra = 2, cod_dep = 2, prioridade = 3, cod_mat = 1, qtd_dem = 2\<rparr>] []
       = (None, [(''output_var_X.csv'', Output_var_X (df_output_X keys)),
                 (''output_agrupado.csv'', Output_agrupado (df_grouped rows))]) \<and>
     map (\<lambda>r. (ro_obra r, ro_cod_dep r, ro_prioridade r)) rows = [(1, 1, 5), (2, 1, 3), (2, 2, 3)] \<and>
     map ro_obra_atendida rows = [1, 0, 1] \<and>
     map ro_prioridade_atendida rows = [5, 0, 3]"
proof -
  let ?est = "[\<lparr>e_cod_dep = 1, e_cod_mat = 1, estoque = 10\<rparr>,
        \<lparr>e_cod_dep = 2, e_cod_mat = 1, estoque = 5\<rparr>]"
  let ?obras = "[\<lparr>obra = 1, cod_dep = 1, prioridade = 5, cod_mat = 1, qtd_dem = 4\<rparr>,
        \<lparr>obra = 2, cod_dep = 1, prioridade = 3, cod_mat = 1, qtd_dem = 2\<rparr>,
        \<lparr>obra = 2, cod_dep = 2, prioridade = 3, cod_mat = 1, qtd_dem = 2\<rparr>]"
  let ?sol = "(\<lambda>x. if x = X 1 1 then 999999 / 1000000 else if x = X 2 2 then 1 else 0) :: var \<Rightarrow> real"
  let ?res = "\<lparr>sr_status = OPTIMAL, sr_solution = Some ?sol\<rparr>"
  obtain v mdl1 ks ts where
    v: "create_decision_variables (define_sets ?est ?obras) Model = (Inr v, mdl1)"
    using create_decision_variables_define_sets [of ?est ?obras Model] by (elim exE conjE)
  have sol: "sr_solution ?res = Some ?sol" by simp
  have ne: "?obras \<noteq> []" by simp
  have nc: "\<forall>r1 \<in> set ?obras. \<forall>r2 \<in> set ?obras.
           obra r1 = obra r2 \<and> cod_dep r1 = cod_dep r2 \<longrightarrow> prioridade r1 = prioridade r2"
    by simp
  obtain keys rows where k: "vars_x_on v ?res = Inr keys"
    and d: "df_real_output ?obras (df_output_X keys) = Inr rows"
    and g: "generate_results v ?res ?obras [] =
       (None, [] @ [(''output_var_X.csv'', Output_var_X (df_output_X keys)),
                    (''output_agrupado.csv'', Output_agrupado (df_grouped rows))])"
    and p: "map (\<lambda>r. (ro_obra r, ro_cod_dep r, ro_prioridade r)) rows
       = drop_duplicates (\<lambda>r. r) (map (\<lambda>r. (obra r, cod_dep r, prioridade r)) ?obras)"
    and s: "\<forall>r \<in> set rows.
        ro_obra_atendida r = (if isclose (?sol (X (ro_obra r) (ro_cod_dep r))) 1 then 1 else 0) \<and>
        ro_prioridade_atendida r =
          ro_obra_atendida r * (if \<exists>r' \<in> set rows. ro_obra_atendida r' = 0
                                then to_float64 (ro_prioridade r) else ro_prioridade r) \<and>
        (\<bar>ro_prioridade r\<bar> < 9007199254740992 \<longrightarrow>
           ro_prioridade_atendida r = ro_obra_atendida r * ro_prioridade r)"
    using reconciled_table_served [OF v sol ne nc, of "[]"] by (elim exE conjE)
  from g have g': "generate_results v ?res ?obras [] =
       (None, [(''output_var_X.csv'', Output_var_X (df_output_X keys)),
               (''output_agrupado.csv'', Output_agrupado (df_grouped rows))])"
    by (simp only: append_Nil)
  have p': "map (\<lambda>r. (ro_obra r, ro_cod_dep r, ro_prioridade r)) rows = [(1, 1, 5), (2, 1, 3), (2, 2, 3)]"
    unfolding p by (simp add: drop_duplicates_def)
  have small: "\<bar>ro_prioridade r\<bar> < 9007199254740992" if "r \<in> set rows" for r
  proof -
    from that have "(ro_obra r, ro_cod_dep r, ro_prioridade r)
                      \<in> set (map (\<lambda>r. (ro_obra r, ro_cod_dep r, ro_prioridade r)) rows)"
      by simp
    then have "ro_prioridade r = 5 \<or> ro_prioridade r = 3" unfolding p' by auto
    then show ?thesis by (elim disjE) simp_all
  qed
  have s1: "ro_obra_atendida r
              = (if isclose (?sol (X (ro_obra r) (ro_cod_dep r))) 1 then 1 else 0)"
    if "r \<in> set rows" for r
    using s [rule_format, OF that] by (rule conjunct1)
  have s2: "ro_prioridade_atendida r
              = (if isclose (?sol (X (ro_obra r) (ro_cod_dep r))) 1 then 1 else 0) * ro_prioridade r"
    if r: "r \<in> set rows" for r
  proof -
    from s [rule_format, OF r]
    have "\<bar>ro_prioridade r\<bar> < 9007199254740992 \<longrightarrow>
           ro_prioridade_atendida r = ro_obra_atendida r * ro_prioridade r"
      by (rule conjunct2 [THEN conjunct2])
    from this small [OF r] have "ro_prioridade_atendida r = ro_obra_atendida r * ro_prioridade r"
      by (rule mp)
    then show ?thesis unfolding s1 [OF r] .
  qed
  have "map ro_obra_atendida rows
          = map (\<lambda>r. if isclose (?sol (X (ro_obra r) (ro_cod_dep r))) 1 then 1 else 0) rows"
    by (rule map_cong [OF refl]) (rule s1)
  also have "\<dots> = map (\<lambda>t. if isclose (?sol (X (fst t) (fst (snd t)))) 1 then 1 else 0)
                      (map (\<lambda>r. (ro_obra r, ro_cod_dep r, ro_prioridade r)) rows)"
    by (simp add: comp_def)
  also have "\<dots> = [1, 0, 1]"
    unfolding p' by (simp add: isclose_def)
  finally have a: "map ro_obra_atendida rows = [1, 0, 1]" .
  have "map ro_prioridade_atendida rows
          = map (\<lambda>r. (if isclose (?sol (X (ro_obra r) (ro_cod_dep r))) 1 then 1 else 0)
                       * ro_prioridade r) rows"
    by (rule map_cong [OF refl]) (rule s2)
  also have "\<dots> = map (\<lambda>t. (if isclose (?sol (X (fst t) (fst (snd t)))) 1 then 1 else 0)
                            * snd (snd t))
                      (map (\<lambda>r. (ro_obra r, ro_cod_dep r, ro_prioridade r)) rows)"
    by (simp add: comp_def)
  also have "\<dots> = [5, 0, 3]"
    unfolding p' by (simp add: isclose_def)
  finally have b: "map ro_prioridade_atendida rows = [5, 0, 3]" .
  from v k d g' p' a b show ?thesis
    by (intro exI [of _ v] exI [of _ mdl1] exI [of _ keys] exI [of _ rows] conjI)
qed

text \<open>
  The claim C8 as first stated fails. In this Task relation the pair (task 1, site 1) has
  the priorities 5 and 7. The solver's solution has \<open>x[1, 1] = 1\<close>, exactly one \<open>x\<close> of value 1
  for the one task. \<^verbatim>\<open>generate_results\<close> writes \<^verbatim>\<open>output_var_X.csv\<close>, and then the merge
  raises \<^verbatim>\<open>MergeError\<close>: there is no reconciled table, and \<^verbatim>\<open>output_agrupado.csv\<close> is not
  written.
\<close>

theorem reconciled_table_MergeError_counterexample:
  "df_real_output
       [\<lparr>obra = 1, cod_dep = 1, prioridade = 5, cod_mat = 1, qtd_dem = 4\<rparr>,
        \<lparr>obra = 1, cod_dep = 1, prioridade = 7, cod_mat = 1, qtd_dem = 4\<rparr>]
       (df_output_X [(1, 1)]) = Inl MergeError \<and>
   fst (run (\<lambda>mdl. \<lparr>sr_status = OPTIMAL, sr_solution = Some (\<lambda>x. if x = X 1 1 then 1 else 0)\<rparr>)
       [\<lparr>e_cod_dep = 1, e_cod_mat = 1, estoque = 10\<rparr>]
       [\<lparr>obra = 1, cod_dep = 1, prioridade = 5, cod_mat = 1, qtd_dem = 4\<rparr>,
        \<lparr>obra = 1, cod_dep = 1, prioridade = 7, cod_mat = 1, qtd_dem = 4\<rparr>] ()) = Some MergeError \<and>
   snd (snd
     (run (\<lambda>mdl. \<lparr>sr_status = OPTIMAL, sr_solution = Some (\<lambda>x. if x = X 1 1 then 1 else 0)\<rparr>)
       [\<lparr>e_cod_dep = 1, e_cod_mat = 1, estoque = 10\<rparr>]
       [\<lparr>obra = 1, cod_dep = 1, prioridade = 5, cod_mat = 1, qtd_dem = 4\<rparr>,
        \<lparr>obra = 1, cod_dep = 1, prioridade = 7, cod_mat = 1, qtd_dem = 4\<rparr>] ()))
     = [(''output_var_X.csv'',
         Output_var_X [\<lparr>ox_obra = 1, ox_cod_dep = 1, ox_obra_atendida = 1\<rparr>])]"
  by (simp add: run_def define_sets_def define_parameters_def create_decision_variables_def
      create_constraints_def set_obj_priority_def one_execution_def stock_balance_def
      unique_def drop_duplicates_def groupby_agg_def to_dict_def getitem_def Model_def
      wrap_int64_def
      addVars_def addConstr_def setObjective_def quicksum_def add_expr_def const_expr_def
      var_expr_def var_mul_def Let_def generate_results_def vars_x_on_def attr_X_def
      isclose_def df_output_X_def df_real_output_def merge_def fillna_def
      to_csv_def)

text \<open>
  The solution of the counterexample is one the solver may return: it is feasible for
  the model of the run.
\<close>

lemma conflicting_pair_solution_feasible:
  "feasible (fst (snd (run optimize
       [\<lparr>e_cod_dep = 1, e_cod_mat = 1, estoque = 10\<rparr>]
       [\<lparr>obra = 1, cod_dep = 1, prioridade = 5, cod_mat = 1, qtd_dem = 4\<rparr>,
        \<lparr>obra = 1, cod_dep = 1, prioridade = 7, cod_mat = 1, qtd_dem = 4\<rparr>] ())))
     (\<lambda>x. if x = X 1 1 then 1 else 0)"
  by (simp add: run_def define_sets_def define_parameters_def create_decision_variables_def
      create_constraints_def set_obj_priority_def one_execution_def stock_balance_def
      unique_def drop_duplicates_def groupby_agg_def to_dict_def getitem_def Model_def
      wrap_int64_def
      addVars_def addConstr_def setObjective_def quicksum_def add_expr_def const_expr_def
      var_expr_def var_mul_def Let_def feasible_def holds_def eval_def in_domain_def
      split: prod.splits)

text \<open>
  The rounding of the priority. Task 1 may run at two sites and has the priority
  \<open>2 ^ 53 + 1\<close>; it is served at site 1. The row of site 2 is not served, so the columns are
  float64, and \<^verbatim>\<open>prioridade_atendida\<close> of the served row is \<open>2 ^ 53\<close>, not the priority.
\<close>

lemma reconciled_table_rounds_priority:
  "df_real_output
       [\<lparr>obra = 1, cod_dep = 1, prioridade = 9007199254740993, cod_mat = 1, qtd_dem = 1\<rparr>,
        \<lparr>obra = 1, cod_dep = 2, prioridade = 9007199254740993, cod_mat = 1, qtd_dem = 1\<rparr>]
       (df_output_X [(1, 1)])
     = Inr [\<lparr>ro_obra = 1, ro_cod_dep = 1, ro_prioridade = 9007199254740993,
              ro_obra_atendida = 1, ro_prioridade_atendida = 9007199254740992\<rparr>,
            \<lparr>ro_obra = 1, ro_cod_dep = 2, ro_prioridade = 9007199254740993,
              ro_obra_atendida = 0, ro_prioridade_atendida = 0\<rparr>]"
  by (simp add: df_real_output_def merge_def drop_duplicates_def df_output_X_def fillna_def
      to_float64_rounds)

text \<open>
  Claim C10. If two rows of the Task relation name the same (task, site) pair with different
  priorities, and the model could be built and solved (every site of the Stock relation
  occurs in the Task relation, the solver left a solution), then the run ends with
  \<^verbatim>\<open>MergeError\<close>, raised by the one-to-one validation of the merge in \<^verbatim>\<open>generate_results\<close>.
  Parameter building did not object: the task has a priority in \<open>w\<close> and the objective was
  set. By then \<^verbatim>\<open>output_var_X.csv\<close> is already written; \<^verbatim>\<open>output_agrupado.csv\<close> is not.
\<close>

theorem conflicting_site_priorities_MergeError:
  assumes r1: "r1 \<in> set obras" and r2: "r2 \<in> set obras"
    and same: "obra r1 = obra r2" "cod_dep r1 = cod_dep r2"
    and diff: "prioridade r1 \<noteq> prioridade r2"
    and sub: "e_cod_dep ` set est \<subseteq> cod_dep ` set obras"
    and sol: "sr_solution (optimize (fst (snd (run optimize est obras ct)))) \<noteq> None"
  shows "fst (run optimize est obras ct) = Some MergeError \<and>
     map fst (snd (snd (run optimize est obras ct))) = [''output_var_X.csv''] \<and>
     m_objective (fst (snd (run optimize est obras ct))) \<noteq> None \<and>
     params_w (define_parameters est obras ct) (obra r1) \<noteq> None"
proof -
  let ?s = "define_sets est obras"
  let ?p = "define_parameters est obras ct"
  let ?mdl = "fst (snd (run optimize est obras ct))"
  obtain v mdl1 ks ts where
    v: "create_decision_variables ?s Model = (Inr v, mdl1)"
    using create_decision_variables_define_sets [of est obras Model] by (elim exE conjE)
  note run = run_define_sets(1) [OF v sub, of optimize ct]
  have r: "run optimize est obras ct =
      (fst (generate_results v (optimize ?mdl) obras []), ?mdl,
       snd (generate_results v (optimize ?mdl) obras []))"
    unfolding run Let_def by simp
  obtain sl where sl: "sr_solution (optimize ?mdl) = Some sl" using sol by auto
  obtain keys where k: "distinct keys"
    and g: "generate_results v (optimize ?mdl) obras [] =
       (case df_real_output obras (df_output_X keys) of
          Inl e \<Rightarrow> (Some e, [] @ [(''output_var_X.csv'', Output_var_X (df_output_X keys))])
        | Inr rows \<Rightarrow>
            (None, [] @ [(''output_var_X.csv'', Output_var_X (df_output_X keys)),
                         (''output_agrupado.csv'', Output_agrupado (df_grouped rows))]))"
    using generate_results_solution [OF v sl, of "[]"] by (elim exE conjE)
  have "\<not> (\<forall>r1 \<in> set obras. \<forall>r2 \<in> set obras.
           obra r1 = obra r2 \<and> cod_dep r1 = cod_dep r2 \<longrightarrow> prioridade r1 = prioridade r2)"
    using r1 r2 same diff by blast
  moreover from r1 have ne: "obras \<noteq> []" by auto
  ultimately have "df_real_output obras (df_output_X keys) = Inl MergeError"
    unfolding df_real_output_define [OF k ne] by simp
  then have g': "generate_results v (optimize ?mdl) obras []
                  = (Some MergeError, [(''output_var_X.csv'', Output_var_X (df_output_X keys))])"
    unfolding g by simp
  have e: "fst (run optimize est obras ct) = Some MergeError"
    by (subst r) (simp add: g')
  have f: "map fst (snd (snd (run optimize est obras ct))) = [''output_var_X.csv'']"
    by (subst r) (simp add: g')
  have o: "m_objective ?mdl \<noteq> None"
    unfolding run Let_def by (simp add: setObjective_def)
  have w: "params_w ?p (obra r1) \<noteq> None"
    using r1 by (simp add: params_w_define)
  from e f o w show ?thesis by (intro conjI)
qed

theorem conflicting_site_priorities_MergeError_witness:
  "\<lparr>obra = 1, cod_dep = 1, prioridade = 5, cod_mat = 1, qtd_dem = 4\<rparr> \<in> set [\<lparr>obra = 1, cod_dep = 1, prioridade = 5, cod_mat = 1, qtd_dem = 4\<rparr>,
        \<lparr>obra = 1, cod_dep = 1, prioridade = 7, cod_mat = 1, qtd_dem = 4\<rparr>,
        \<lparr>obra = 1, cod_dep = 1, prioridade = 5, cod_mat = 2, qtd_dem = 1\<rparr>] \<and>
   \<lparr>obra = 1, cod_dep = 1, prioridade = 7, cod_mat = 1, qtd_dem = 4\<rparr> \<in> set [\<lparr>obra = 1, cod_dep = 1, prioridade = 5, cod_mat = 1, qtd_dem = 4\<rparr>,
        \<lparr>obra = 1, cod_dep = 1, prioridade = 7, cod_mat = 1, qtd_dem = 4\<rparr>,
        \<lparr>obra = 1, cod_dep = 1, prioridade = 5, cod_mat = 2, qtd_dem = 1\<rparr>] \<and>
   prioridade \<lparr>obra = 1, cod_dep = 1, prioridade = 5, cod_mat = 1, qtd_dem = 4\<rparr> \<noteq> prioridade \<lparr>obra = 1, cod_dep = 1, prioridade = 7, cod_mat = 1, qtd_dem = 4\<rparr> \<and>
   fst (run (\<lambda>mdl. \<lparr>sr_status = OPTIMAL, sr_solution = Some (\<lambda>x. 1)\<rparr>) [\<lparr>e_cod_dep = 1, e_cod_mat = 1, estoque = 10\<rparr>] [\<lparr>obra = 1, cod_dep = 1, prioridade = 5, cod_mat = 1, qtd_dem = 4\<rparr>,
        \<lparr>obra = 1, cod_dep = 1, prioridade = 7, cod_mat = 1, qtd_dem = 4\<rparr>,
        \<lparr>obra = 1, cod_dep = 1, prioridade = 5, cod_mat = 2, qtd_dem = 1\<rparr>] ()) = Some MergeError \<and>
   map fst (snd (snd (run (\<lambda>mdl. \<lparr>sr_status = OPTIMAL, sr_solution = Some (\<lambda>x. 1)\<rparr>) [\<lparr>e_cod_dep = 1, e_cod_mat = 1, estoque = 10\<rparr>] [\<lparr>obra = 1, cod_dep = 1, prioridade = 5, cod_mat = 1, qtd_dem = 4\<rparr>,
        \<lparr>obra = 1, cod_dep = 1, prioridade = 7, cod_mat = 1, qtd_dem = 4\<rparr>,
        \<lparr>obra = 1, cod_dep = 1, prioridade = 5, cod_mat = 2, qtd_dem = 1\<rparr>] ()))) = [''output_var_X.csv''] \<and>
   m_objective (fst (snd (run (\<lambda>mdl. \<lparr>sr_status = OPTIMAL, sr_solution = Some (\<lambda>x. 1)\<rparr>) [\<lparr>e_cod_dep = 1, e_cod_mat = 1, estoque = 10\<rparr>] [\<lparr>obra = 1, cod_dep = 1, prioridade = 5, cod_mat = 1, qtd_dem = 4\<rparr>,
        \<lparr>obra = 1, cod_dep = 1, prioridade = 7, cod_mat = 1, qtd_dem = 4\<rparr>,
        \<lparr>obra = 1, cod_dep = 1, prioridade = 5, cod_mat = 2, qtd_dem = 1\<rparr>] ()))) \<noteq> None \<and>
   params_w (define_parameters [\<lparr>e_cod_dep = 1, e_cod_mat = 1, estoque = 10\<rparr>] [\<lparr>obra = 1, cod_dep = 1, prioridade = 5, cod_mat = 1, qtd_dem = 4\<rparr>,
        \<lparr>obra = 1, cod_dep = 1, prioridade = 7, cod_mat = 1, qtd_dem = 4\<rparr>,
        \<lparr>obra = 1, cod_dep = 1, prioridade = 5, cod_mat = 2, qtd_dem = 1\<rparr>] ()) 1 = Some 7"
proof -
  let ?est = "[\<lparr>e_cod_dep = 1, e_cod_mat = 1, estoque = 10\<rparr>]"
  let ?obras = "[\<lparr>obra = 1, cod_dep = 1, prioridade = 5, cod_mat = 1, qtd_dem = 4\<rparr>,
        \<lparr>obra = 1, cod_dep = 1, prioridade = 7, cod_mat = 1, qtd_dem = 4\<rparr>,
        \<lparr>obra = 1, cod_dep = 1, prioridade = 5, cod_mat = 2, qtd_dem = 1\<rparr>]"
  let ?r1 = "\<lparr>obra = 1, cod_dep = 1, prioridade = 5, cod_mat = 1, qtd_dem = 4\<rparr>"
  let ?r2 = "\<lparr>obra = 1, cod_dep = 1, prioridade = 7, cod_mat = 1, qtd_dem = 4\<rparr>"
  let ?opt = "\<lambda>mdl :: gurobi_model. \<lparr>sr_status = OPTIMAL, sr_solution = Some (\<lambda>x :: var. 1 :: real)\<rparr>"
  have r1: "?r1 \<in> set ?obras" and r2: "?r2 \<in> set ?obras" by simp_all
  have same: "obra ?r1 = obra ?r2" "cod_dep ?r1 = cod_dep ?r2" by simp_all
  have diff: "prioridade ?r1 \<noteq> prioridade ?r2" by simp
  have sub: "e_cod_dep ` set ?est \<subseteq> cod_dep ` set ?obras" by simp
  have sol: "sr_solution (?opt (fst (snd (run ?opt ?est ?obras ())))) \<noteq> None" by simp
  note t = conflicting_site_priorities_MergeError [where ct = "()", OF r1 r2 same diff sub sol]
  have w: "params_w (define_parameters ?est ?obras ()) 1 = Some 7"
    by (simp add: define_parameters_def to_dict_def drop_duplicates_def)
  from t have e: "fst (run ?opt ?est ?obras ()) = Some MergeError"
    by (elim conjE)
  from t have f: "map fst (snd (snd (run ?opt ?est ?obras ()))) = [''output_var_X.csv'']"
    by (elim conjE)
  from t have o: "m_objective (fst (snd (run ?opt ?est ?obras ()))) \<noteq> None"
    by (elim conjE)
  from r1 r2 diff e f o w show ?thesis by (intro conjI)
qed

lemma run_objective:
  assumes sub: "e_cod_dep ` set est \<subseteq> cod_dep ` set obras"
  shows "\<exists>e. m_objective (fst (snd (run optimize est obras ct))) = Some (e, MAXIMIZE) \<and>
     (\<forall>val. eval val e =
        (\<Sum>(i, j) \<in> (\<lambda>r. (obra r, cod_dep r)) ` set obras.
           val (X i j) * of_int (prioridade (last (filter (\<lambda>r. obra r = i)
              (drop_duplicates (\<lambda>r. (obra r, prioridade r)) obras))))))"
proof -
  let ?s = "define_sets est obras"
  let ?p = "define_parameters est obras ct"
  let ?mdl = "fst (snd (run optimize est obras ct))"
  let ?ks = "concat (map (\<lambda>i. map (\<lambda>j. (i, j)) (the (sets_J_i ?s i))) (sets_I ?s))"
  let ?obj = "quicksum (concat (map
                 (\<lambda>i. map (\<lambda>j. var_mul (X i j) (the (params_w ?p i))) (the (sets_J_i ?s i)))
                 (sets_I ?s)))"
  let ?w = "\<lambda>i. prioridade (last (filter (\<lambda>r. obra r = i)
              (drop_duplicates (\<lambda>r. (obra r, prioridade r)) obras)))"
  obtain v mdl1 ks ts where
    v: "create_decision_variables ?s Model = (Inr v, mdl1)"
    using create_decision_variables_define_sets [of est obras Model] by (elim exE conjE)
  have ev: "eval val ?obj =
         (\<Sum>(i, j) \<in> (\<lambda>r. (obra r, cod_dep r)) ` set obras. val (X i j) * of_int (?w i))" for val
  proof -
    have "eval val ?obj = (\<Sum>k\<leftarrow>?ks. val (X (fst k) (snd k)) * of_int (the (params_w ?p (fst k))))"
      by (rule eval_objective)
    also have "\<dots> = (\<Sum>k \<in> set ?ks. val (X (fst k) (snd k)) * of_int (the (params_w ?p (fst k))))"
      using x_keys_distinct [of est obras] by (rule sum_list_distinct_conv_sum_set)
    also have "\<dots> = (\<Sum>k \<in> (\<lambda>r. (obra r, cod_dep r)) ` set obras.
                        val (X (fst k) (snd k)) * of_int (the (params_w ?p (fst k))))"
      unfolding x_keys_set ..
    also have "\<dots> = (\<Sum>k \<in> (\<lambda>r. (obra r, cod_dep r)) ` set obras.
                        val (X (fst k) (snd k)) * of_int (?w (fst k)))"
    proof (rule sum.cong [OF refl])
      fix k assume "k \<in> (\<lambda>r. (obra r, cod_dep r)) ` set obras"
      then have "fst k \<in> obra ` set obras" by auto
      then have "the (params_w ?p (fst k)) = ?w (fst k)" by (simp add: params_w_define)
      then show "val (X (fst k) (snd k)) * of_int (the (params_w ?p (fst k)))
                   = val (X (fst k) (snd k)) * of_int (?w (fst k))"
        by simp
    qed
    finally show ?thesis by (simp add: case_prod_beta)
  qed
  have "m_objective ?mdl = Some (?obj, MAXIMIZE)"
    by (simp add: run_define_sets(1) [OF v sub] Let_def setObjective_def)
  moreover from ev have "\<forall>val. eval val ?obj =
         (\<Sum>(i, j) \<in> (\<lambda>r. (obra r, cod_dep r)) ` set obras. val (X i j) * of_int (?w i))"
    by (rule allI)
  ultimately show ?thesis by (intro exI [of _ ?obj] conjI)
qed

text \<open>
  Claim C6, as amended. Conflicting priorities of one task raise no error in
  \<^verbatim>\<open>define_parameters\<close> and do not stop the run before the model is built: for every task
  \<open>i\<close> of the Task relation, \<open>w[i]\<close> is the priority of the last row of \<open>i\<close> that is left after
  dropping the duplicate (task, priority) rows; the decision variables are created, and
  whenever the constraints were built (every site of the Stock relation occurs in the Task
  relation) the model holds the objective to maximise in which every \<open>x[i, j]\<close> has that
  priority of its task as its coefficient.
\<close>

theorem conflicting_priorities_last_wins:
  assumes "i \<in> obra ` set obras"
  shows "params_w (define_parameters est obras ct) i =
      Some (prioridade (last (filter (\<lambda>r. obra r = i)
              (drop_duplicates (\<lambda>r. (obra r, prioridade r)) obras)))) \<and>
    (\<exists>v mdl'. create_decision_variables (define_sets est obras) Model = (Inr v, mdl')) \<and>
    (e_cod_dep ` set est \<subseteq> cod_dep ` set obras \<longrightarrow>
       (\<exists>e. m_objective (fst (snd (run optimize est obras ct))) = Some (e, MAXIMIZE) \<and>
          (\<forall>val. eval val e =
             (\<Sum>(i', j) \<in> (\<lambda>r. (obra r, cod_dep r)) ` set obras.
                val (X i' j) * of_int (prioridade (last (filter (\<lambda>r. obra r = i')
                   (drop_duplicates (\<lambda>r. (obra r, prioridade r)) obras))))))))"
proof (intro conjI impI)
  show "params_w (define_parameters est obras ct) i =
      Some (prioridade (last (filter (\<lambda>r. obra r = i)
              (drop_duplicates (\<lambda>r. (obra r, prioridade r)) obras))))"
    using assms by (simp add: params_w_define)
  obtain v mdl1 ks ts where
    v: "create_decision_variables (define_sets est obras) Model = (Inr v, mdl1)"
    using create_decision_variables_define_sets [of est obras Model] by (elim exE conjE)
  then show "\<exists>v mdl'. create_decision_variables (define_sets est obras) Model = (Inr v, mdl')"
    by (intro exI [of _ v] exI [of _ mdl1])
  show "\<exists>e. m_objective (fst (snd (run optimize est obras ct))) = Some (e, MAXIMIZE) \<and>
          (\<forall>val. eval val e =
             (\<Sum>(i', j) \<in> (\<lambda>r. (obra r, cod_dep r)) ` set obras.
                val (X i' j) * of_int (prioridade (last (filter (\<lambda>r. obra r = i')
                   (drop_duplicates (\<lambda>r. (obra r, prioridade r)) obras))))))"
    if "e_cod_dep ` set est \<subseteq> cod_dep ` set obras"
    using that by (rule run_objective)
qed

theorem conflicting_priorities_last_wins_witness:
  "1 \<in> obra ` set [\<lparr>obra = 1, cod_dep = 1, prioridade = 5, cod_mat = 1, qtd_dem = 4\<rparr>,
        \<lparr>obra = 1, cod_dep = 1, prioridade = 7, cod_mat = 1, qtd_dem = 4\<rparr>,
        \<lparr>obra = 1, cod_dep = 1, prioridade = 5, cod_mat = 2, qtd_dem = 1\<rparr>] \<and>
   params_w (define_parameters [\<lparr>e_cod_dep = 1, e_cod_mat = 1, estoque = 10\<rparr>] [\<lparr>obra = 1, cod_dep = 1, prioridade = 5, cod_mat = 1, qtd_dem = 4\<rparr>,
        \<lparr>obra = 1, cod_dep = 1, prioridade = 7, cod_mat = 1, qtd_dem = 4\<rparr>,
        \<lparr>obra = 1, cod_dep = 1, prioridade = 5, cod_mat = 2, qtd_dem = 1\<rparr>] ()) 1 = Some 7 \<and>
   prioridade (last [\<lparr>obra = 1, cod_dep = 1, prioridade = 5, cod_mat = 1, qtd_dem = 4\<rparr>,
        \<lparr>obra = 1, cod_dep = 1, prioridade = 7, cod_mat = 1, qtd_dem = 4\<rparr>,
        \<lparr>obra = 1, cod_dep = 1, prioridade = 5, cod_mat = 2, qtd_dem = 1\<rparr>]) = 5 \<and>
   e_cod_dep ` set [\<lparr>e_cod_dep = 1, e_cod_mat = 1, estoque = 10\<rparr>] \<subseteq> cod_dep ` set [\<lparr>obra = 1, cod_dep = 1, prioridade = 5, cod_mat = 1, qtd_dem = 4\<rparr>,
        \<lparr>obra = 1, cod_dep = 1, prioridade = 7, cod_mat = 1, qtd_dem = 4\<rparr>,
        \<lparr>obra = 1, cod_dep = 1, prioridade = 5, cod_mat = 2, qtd_dem = 1\<rparr>] \<and>
   (\<exists>e. m_objective (fst (snd (run (\<lambda>mdl. \<lparr>sr_status = OPTIMAL, sr_solution = Some (\<lambda>x. 1)\<rparr>) [\<lparr>e_cod_dep = 1, e_cod_mat = 1, estoque = 10\<rparr>] [\<lparr>obra = 1, cod_dep = 1, prioridade = 5, cod_mat = 1, qtd_dem = 4\<rparr>,
        \<lparr>obra = 1, cod_dep = 1, prioridade = 7, cod_mat = 1, qtd_dem = 4\<rparr>,
        \<lparr>obra = 1, cod_dep = 1, prioridade = 5, cod_mat = 2, qtd_dem = 1\<rparr>] ()))) = Some (e, MAXIMIZE) \<and>
      (\<forall>val. eval val e = val (X 1 1) * 7))"
proof -
  let ?est = "[\<lparr>e_cod_dep = 1, e_cod_mat = 1, estoque = 10\<rparr>]"
  let ?obras = "[\<lparr>obra = 1, cod_dep = 1, prioridade = 5, cod_mat = 1, qtd_dem = 4\<rparr>,
        \<lparr>obra = 1, cod_dep = 1, prioridade = 7, cod_mat = 1, qtd_dem = 4\<rparr>,
        \<lparr>obra = 1, cod_dep = 1, prioridade = 5, cod_mat = 2, qtd_dem = 1\<rparr>]"
  let ?opt = "\<lambda>mdl :: gurobi_model. \<lparr>sr_status = OPTIMAL, sr_solution = Some (\<lambda>x :: var. 1 :: real)\<rparr>"
  let ?w = "\<lambda>i'. prioridade (last (filter (\<lambda>r. obra r = i')
              (drop_duplicates (\<lambda>r. (obra r, prioridade r)) ?obras)))"
  have h: "1 \<in> obra ` set ?obras" by simp
  have sub: "e_cod_dep ` set ?est \<subseteq> cod_dep ` set ?obras" by simp
  note t = conflicting_priorities_last_wins [OF h, of ?est "()" ?opt]
  from t have "params_w (define_parameters ?est ?obras ()) 1 =
      Some (prioridade (last (filter (\<lambda>r. obra r = 1)
              (drop_duplicates (\<lambda>r. (obra r, prioridade r)) ?obras))))"
    by (rule conjunct1)
  then have w: "params_w (define_parameters ?est ?obras ()) 1 = Some 7"
    by (simp add: drop_duplicates_def)
  from t have "e_cod_dep ` set ?est \<subseteq> cod_dep ` set ?obras \<longrightarrow>
       (\<exists>e. m_objective (fst (snd (run ?opt ?est ?obras ()))) = Some (e, MAXIMIZE) \<and>
          (\<forall>val. eval val e =
             (\<Sum>(i', j) \<in> (\<lambda>r. (obra r, cod_dep r)) ` set ?obras. val (X i' j) * of_int (?w i'))))"
    by (rule conjunct2 [THEN conjunct2])
  from this sub obtain e where e: "m_objective (fst (snd (run ?opt ?est ?obras ()))) = Some (e, MAXIMIZE)"
    and ev: "\<forall>val. eval val e =
             (\<Sum>(i', j) \<in> (\<lambda>r. (obra r, cod_dep r)) ` set ?obras. val (X i' j) * of_int (?w i'))"
    by (elim impE exE conjE)
  have img: "(\<lambda>r. (obra r, cod_dep r)) ` set ?obras = {(1, 1)}" by simp
  have w1: "?w 1 = 7" by (simp add: drop_duplicates_def)
  have ev': "eval val e = val (X 1 1) * 7" for val
  proof -
    from ev have "eval val e =
             (\<Sum>(i', j) \<in> (\<lambda>r. (obra r, cod_dep r)) ` set ?obras. val (X i' j) * of_int (?w i'))"
      by (rule spec)
    also have "\<dots> = val (X 1 1) * of_int (?w 1)"
      unfolding img by simp
    also have "\<dots> = val (X 1 1) * 7"
      unfolding w1 by simp
    finally show ?thesis .
  qed
  then have "\<forall>val. eval val e = val (X 1 1) * 7" by (rule allI)
  with e have o: "\<exists>e. m_objective (fst (snd (run ?opt ?est ?obras ()))) = Some (e, MAXIMIZE) \<and>
      (\<forall>val. eval val e = val (X 1 1) * 7)"
    by (intro exI [of _ e] conjI)
  have l: "prioridade (last ?obras) = 5" by simp
  from h w l sub o show ?thesis by (intro conjI)
qed

text \<open>
  The claim C6 as first stated fails: in this Task relation task 1 has the priorities 5 and
  7. No error is raised; \<open>w[1] = 7\<close>, the objective is built with it, and the run completes
  and writes both files.
\<close>

theorem conflicting_priorities_no_error_counterexample:
  "(\<exists>r1 \<in> set [\<lparr>obra = 1, cod_dep = 1, prioridade = 5, cod_mat = 1, qtd_dem = 4\<rparr>,
                 \<lparr>obra = 1, cod_dep = 2, prioridade = 7, cod_mat = 1, qtd_dem = 4\<rparr>].
    \<exists>r2 \<in> set [\<lparr>obra = 1, cod_dep = 1, prioridade = 5, cod_mat = 1, qtd_dem = 4\<rparr>,
                 \<lparr>obra = 1, cod_dep = 2, prioridade = 7, cod_mat = 1, qtd_dem = 4\<rparr>].
      obra r1 = obra r2 \<and> prioridade r1 \<noteq> prioridade r2) \<and>
   params_w (define_parameters
       [\<lparr>e_cod_dep = 1, e_cod_mat = 1, estoque = 10\<rparr>,
        \<lparr>e_cod_dep = 2, e_cod_mat = 1, estoque = 10\<rparr>]
       [\<lparr>obra = 1, cod_dep = 1, prioridade = 5, cod_mat = 1, qtd_dem = 4\<rparr>,
        \<lparr>obra = 1, cod_dep = 2, prioridade = 7, cod_mat = 1, qtd_dem = 4\<rparr>] ()) 1 = Some 7 \<and>
   fst (run (\<lambda>mdl. \<lparr>sr_status = OPTIMAL, sr_solution = Some (\<lambda>x. if x = X 1 2 then 1 else 0)\<rparr>)
       [\<lparr>e_cod_dep = 1, e_cod_mat = 1, estoque = 10\<rparr>,
        \<lparr>e_cod_dep = 2, e_cod_mat = 1, estoque = 10\<rparr>]
       [\<lparr>obra = 1, cod_dep = 1, prioridade = 5, cod_mat = 1, qtd_dem = 4\<rparr>,
        \<lparr>obra = 1, cod_dep = 2, prioridade = 7, cod_mat = 1, qtd_dem = 4\<rparr>] ()) = None \<and>
   m_objective (fst (snd
     (run (\<lambda>mdl. \<lparr>sr_status = OPTIMAL, sr_solution = Some (\<lambda>x. if x = X 1 2 then 1 else 0)\<rparr>)
       [\<lparr>e_cod_dep = 1, e_cod_mat = 1, estoque = 10\<rparr>,
        \<lparr>e_cod_dep = 2, e_cod_mat = 1, estoque = 10\<rparr>]
       [\<lparr>obra = 1, cod_dep = 1, prioridade = 5, cod_mat = 1, qtd_dem = 4\<rparr>,
        \<lparr>obra = 1, cod_dep = 2, prioridade = 7, cod_mat = 1, qtd_dem = 4\<rparr>] ())))
     = Some (\<lparr>le_terms = [(7, X 1 1), (7, X 1 2)], le_const = 0\<rparr>, MAXIMIZE) \<and>
   map fst (snd (snd
     (run (\<lambda>mdl. \<lparr>sr_status = OPTIMAL, sr_solution = Some (\<lambda>x. if x = X 1 2 then 1 else 0)\<rparr>)
       [\<lparr>e_cod_dep = 1, e_cod_mat = 1, estoque = 10\<rparr>,
        \<lparr>e_cod_dep = 2, e_cod_mat = 1, estoque = 10\<rparr>]
       [\<lparr>obra = 1, cod_dep = 1, prioridade = 5, cod_mat = 1, qtd_dem = 4\<rparr>,
        \<lparr>obra = 1, cod_dep = 2, prioridade = 7, cod_mat = 1, qtd_dem = 4\<rparr>] ())))
     = [''output_var_X.csv'', ''output_agrupado.csv'']"
  by (simp add: run_def define_sets_def define_parameters_def create_decision_variables_def
      create_constraints_def set_obj_priority_def one_execution_def stock_balance_def
      unique_def drop_duplicates_def groupby_agg_def to_dict_def getitem_def Model_def
      wrap_int64_def
      addVars_def addConstr_def setObjective_def quicksum_def add_expr_def const_expr_def
      var_expr_def var_mul_def Let_def generate_results_def vars_x_on_def attr_X_def
      isclose_def df_output_X_def df_real_output_def merge_def fillna_def df_grouped_def
      column_sum_def to_csv_def)

text \<open>
  Claim C7 (the code does not do what the claim says). \<^verbatim>\<open>run\<close> never reads the status of the
  solver: it calls \<^verbatim>\<open>generate_results\<close> after every solve. Here the stock is negative, so the
  model has no feasible assignment (\<open>negative_stock_model_infeasible\<close> below), and the solver
  ends with the status \<^verbatim>\<open>INFEASIBLE\<close> and no solution. The run then ends with the exception
  raised by reading the first \<^verbatim>\<open>X\<close> attribute rather than with a report of the status. No
  file is written, as the claim says.
\<close>

theorem run_infeasible_raises:
  "fst (run (\<lambda>mdl. \<lparr>sr_status = INFEASIBLE, sr_solution = None\<rparr>)
          [\<lparr>e_cod_dep = 1, e_cod_mat = 1, estoque = - 5\<rparr>]
          [\<lparr>obra = 1, cod_dep = 1, prioridade = 5, cod_mat = 1, qtd_dem = 4\<rparr>] ct)
     = Some AttributeError \<and>
   snd (snd (run (\<lambda>mdl. \<lparr>sr_status = INFEASIBLE, sr_solution = None\<rparr>)
          [\<lparr>e_cod_dep = 1, e_cod_mat = 1, estoque = - 5\<rparr>]
          [\<lparr>obra = 1, cod_dep = 1, prioridade = 5, cod_mat = 1, qtd_dem = 4\<rparr>] ct)) = []"
proof (rule run_no_solution)
  show "e_cod_dep ` set [\<lparr>e_cod_dep = 1, e_cod_mat = 1, estoque = - 5\<rparr>]
          \<subseteq> cod_dep ` set [\<lparr>obra = 1, cod_dep = 1, prioridade = 5, cod_mat = 1, qtd_dem = 4\<rparr>]"
    by simp
  show "[\<lparr>obra = 1, cod_dep = 1, prioridade = 5, cod_mat = 1, qtd_dem = 4\<rparr>] \<noteq> []" by simp
  show "sr_solution ((\<lambda>mdl. \<lparr>sr_status = INFEASIBLE, sr_solution = None\<rparr>)
          (fst (snd (run (\<lambda>mdl. \<lparr>sr_status = INFEASIBLE, sr_solution = None\<rparr>)
            [\<lparr>e_cod_dep = 1, e_cod_mat = 1, estoque = - 5\<rparr>]
            [\<lparr>obra = 1, cod_dep = 1, prioridade = 5, cod_mat = 1, qtd_dem = 4\<rparr>] ct)))) = None"
    by simp
qed

lemma negative_stock_model_infeasible:
  "\<not> feasible (fst (snd (run optimize
          [\<lparr>e_cod_dep = 1, e_cod_mat = 1, estoque = - 5\<rparr>]
          [\<lparr>obra = 1, cod_dep = 1, prioridade = 5, cod_mat = 1, qtd_dem = 4\<rparr>] ct))) val"
proof
  assume "feasible (fst (snd (run optimize
          [\<lparr>e_cod_dep = 1, e_cod_mat = 1, estoque = - 5\<rparr>]
          [\<lparr>obra = 1, cod_dep = 1, prioridade = 5, cod_mat = 1, qtd_dem = 4\<rparr>] ct))) val"
  then have "0 \<le> val (X 1 1) \<and> 4 * val (X 1 1) \<le> - 5"
    by (simp add: run_def define_sets_def define_parameters_def create_decision_variables_def
      create_constraints_def set_obj_priority_def one_execution_def stock_balance_def
      unique_def drop_duplicates_def groupby_agg_def to_dict_def getitem_def Model_def
      wrap_int64_def
      addVars_def addConstr_def setObjective_def quicksum_def add_expr_def const_expr_def
      var_expr_def var_mul_def Let_def feasible_def holds_def eval_def in_domain_def
      split: prod.splits)
  then show False by linarith
qed

end
